theory Spec2Isabelle
  imports Main "HOL-Library.Word"
begin

unbundle bit_operations_syntax

section \<open>The C library functions the codecs call\<close>

text \<open>
  Bytes (\<^verbatim>\<open>char\<close>, \<^verbatim>\<open>uint8_t\<close>) are HOL characters. Text buffers are byte lists;
  a \<^verbatim>\<open>string_t\<close> is the list of its \<^verbatim>\<open>string_size\<close> bytes (the terminating NUL that
  \<^verbatim>\<open>string_get_cstr\<close> exposes is not part of it). Numeric values are integers, with
  the wrap-around of the 64-bit C types written out where the code can reach it.
\<close>

definition isspace :: "char \<Rightarrow> bool" where
  "isspace c = (c \<in> set [CHR '' '', CHR 0x09, CHR 0x0A, CHR 0x0B, CHR 0x0C, CHR 0x0D])"

text \<open>\<^verbatim>\<open>isprint\<close> in the "C" locale: the bytes 0x20 to 0x7E.\<close>

definition isprint :: "int \<Rightarrow> bool" where
  "isprint c = (32 \<le> c \<and> c \<le> 126)"

definition digit_chars :: string where
  "digit_chars = ''0123456789ABCDEFGHIJKLMNOPQRSTUVWXYZ''"

definition digit_chars_lower :: string where
  "digit_chars_lower = ''0123456789abcdefghijklmnopqrstuvwxyz''"

fun index_of :: "char \<Rightarrow> string \<Rightarrow> nat option" where
  "index_of c [] = None"
| "index_of c (x # xs) = (if c = x then Some 0 else map_option Suc (index_of c xs))"

definition digit_val :: "char \<Rightarrow> nat option" where
  "digit_val c = (case index_of c digit_chars of Some d \<Rightarrow> Some d
                  | None \<Rightarrow> index_of c digit_chars_lower)"

definition digit_in :: "int \<Rightarrow> char \<Rightarrow> int option" where
  "digit_in base c = (case digit_val c of None \<Rightarrow> None
                      | Some d \<Rightarrow> if int d < base then Some (int d) else None)"

text \<open>The digits a conversion consumes: the value accumulated and how many were read.\<close>

fun take_digits :: "int \<Rightarrow> string \<Rightarrow> int \<Rightarrow> nat \<Rightarrow> int \<times> nat" where
  "take_digits base [] acc n = (acc, n)"
| "take_digits base (c # cs) acc n =
     (case digit_in base c of None \<Rightarrow> (acc, n)
      | Some d \<Rightarrow> take_digits base cs (acc * base + d) (Suc n))"

definition ULONG_MAX :: int where
  "ULONG_MAX = 2 ^ 64 - 1"

definition has_hex_prefix :: "string \<Rightarrow> bool" where
  "has_hex_prefix s = (case s of
      z # x # h # _ \<Rightarrow> z = CHR ''0'' \<and> (x = CHR ''x'' \<or> x = CHR ''X'') \<and> digit_in 16 h \<noteq> None
    | _ \<Rightarrow> False)"

text \<open>
  \<^verbatim>\<open>strtoul(s, &end, base)\<close> (and \<^verbatim>\<open>strtoull\<close>, the same type on LP64): leading white
  space, an optional sign, an optional \<^verbatim>\<open>0x\<close> for base 16 or 0, then digits. The result
  is the value and \<^verbatim>\<open>end - s\<close>; no digits means no conversion (\<^verbatim>\<open>end = s\<close>). A value out
  of range is \<^verbatim>\<open>ULONG_MAX\<close>, a negated one wraps. The text is read up to the first byte
  that is not part of the number, so the terminating NUL stops it.
\<close>

definition strtoul :: "string \<Rightarrow> int \<Rightarrow> int \<times> nat" where
  "strtoul s base =
    (let ws = length (takeWhile isspace s);
         s1 = drop ws s;
         neg = (case s1 of c # _ \<Rightarrow> c = CHR ''-'' | [] \<Rightarrow> False);
         sg = (case s1 of c # _ \<Rightarrow> if c = CHR ''-'' \<or> c = CHR ''+'' then 1 else 0 | [] \<Rightarrow> 0);
         s2 = drop sg s1;
         px = (if (base = 16 \<or> base = 0) \<and> has_hex_prefix s2 then 2 else 0);
         b = (if base = 0
              then (if px = 2 then 16
                    else (case s2 of c # _ \<Rightarrow> if c = CHR ''0'' then 8 else 10 | [] \<Rightarrow> 10))
              else base);
         (v, n) = take_digits b (drop px s2) 0 0
     in if n = 0 then (0, 0)
        else (if ULONG_MAX < v then ULONG_MAX
              else if neg then (2 ^ 64 - v) mod 2 ^ 64 else v,
              ws + sg + px + n))"

text \<open>
  \<^verbatim>\<open>printf\<close> of an unsigned value in a base (\<^verbatim>\<open>%u\<close>, \<^verbatim>\<open>%X\<close>): the digits, most
  significant first, upper case.
\<close>

function show_nat :: "int \<Rightarrow> int \<Rightarrow> string" where
  "show_nat base v =
     (if base < 2 \<or> v < base then [digit_chars ! nat v]
      else show_nat base (v div base) @ [digit_chars ! nat (v mod base)])"
  by pat_completeness auto
termination
proof (relation "measure (\<lambda>(base, v). nat v)")
  fix base v :: int
  assume "\<not> (base < 2 \<or> v < base)"
  then have "v div base < v" "0 < v"
    by (auto intro: int_div_less_self)
  then show "((base, v div base), (base, v)) \<in> measure (\<lambda>(base, v). nat v)"
    by simp
qed simp

declare show_nat.simps [simp del]

text \<open>\<^verbatim>\<open>%d\<close> for a signed value, and a minimum number of digits (\<^verbatim>\<open>%02X\<close>, \<^verbatim>\<open>%.*u\<close>).\<close>

definition show_int :: "int \<Rightarrow> string" where
  "show_int v = (if v < 0 then CHR ''-'' # show_nat 10 (- v) else show_nat 10 v)"

definition zero_pad :: "nat \<Rightarrow> string \<Rightarrow> string" where
  "zero_pad w s = replicate (w - length s) (CHR ''0'') @ s"

text \<open>
  \<^verbatim>\<open>strchr\<close>, \<^verbatim>\<open>strspn\<close> and \<^verbatim>\<open>%.*s\<close> read a NUL-terminated text: the bytes given
  are those of the memory from the pointer on, and the first NUL among them ends the
  text. Where the list ends, the memory that the caller of the model has described
  ends; a read there sees a terminator (\<^verbatim>\<open>strchr\<close> for the NUL itself finds it).
\<close>

definition cstr :: "string \<Rightarrow> string" where
  "cstr s = takeWhile (\<lambda>c. c \<noteq> CHR 0x00) s"

definition strchr :: "string \<Rightarrow> char \<Rightarrow> nat option" where
  "strchr s c = (if c = CHR 0x00 then Some (length (cstr s)) else index_of c (cstr s))"

definition strspn :: "string \<Rightarrow> string \<Rightarrow> nat" where
  "strspn s accept = length (takeWhile (\<lambda>c. c \<in> set (cstr accept)) (cstr s))"

definition printf_s :: "nat \<Rightarrow> string \<Rightarrow> string" where
  "printf_s n s = take n (cstr s)"

section \<open>Unsigned integers in a radix: \<^verbatim>\<open>ari_uint64_encode\<close>, \<^verbatim>\<open>ari_uint64_decode\<close>\<close>

text \<open>
  The base-2 branch fills the holding buffer \<^verbatim>\<open>tmp[64]\<close> from its end while the value
  is not zero.
\<close>

function bin_digits :: "int \<Rightarrow> string \<Rightarrow> string" where
  "bin_digits v tmp =
     (if v \<le> 0 then tmp
      else bin_digits (v div 2) ((if v mod 2 = 1 then CHR ''1'' else CHR ''0'') # tmp))"
  by pat_completeness auto
termination
  by (relation "measure (\<lambda>(v, tmp). nat v)") auto

declare bin_digits.simps [simp del]

text \<open>The result is the return code and the output string after the call.\<close>

definition ari_uint64_encode :: "string \<Rightarrow> 64 word \<Rightarrow> int \<Rightarrow> int \<times> string" where
  "ari_uint64_encode out v base =
     (if base = 2
      then (let tmp = bin_digits (uint v) [];
                tmp = (if tmp = [] then [CHR ''0''] else tmp)
            in (0, out @ [CHR ''0'', CHR ''b''] @ tmp))
      else if base = 10 then (0, out @ show_nat 10 (uint v))
      else if base = 16 then (0, out @ ''0x'' @ show_nat 16 (uint v))
      else (1, out))"

fun bin_loop :: "string \<Rightarrow> 64 word \<Rightarrow> 64 word option" where
  "bin_loop [] tmp = Some tmp"
| "bin_loop (b # rest) tmp =
     (let tmp = push_bit 1 tmp
      in if b = CHR ''0'' then bin_loop rest tmp
         else if b = CHR ''1'' then bin_loop rest (tmp + 1)
         else None)"

text \<open>The return code, and the value stored through \<^verbatim>\<open>out\<close> when the code is zero.\<close>

definition ari_uint64_decode :: "string \<Rightarrow> int \<times> 64 word option" where
  "ari_uint64_decode inp =
     (if 2 \<le> length inp \<and> inp ! 0 = CHR ''0'' \<and> inp ! 1 = CHR ''b''
      then (case bin_loop (drop 2 inp) 0 of None \<Rightarrow> (2, None) | Some tmp \<Rightarrow> (0, Some tmp))
      else (let (tmp, numend) = strtoul inp 0
            in if numend \<noteq> length inp then (2, None) else (0, Some (word_of_int tmp))))"

section \<open>Time codecs\<close>

text \<open>
  \<^verbatim>\<open>struct timespec\<close>: \<^verbatim>\<open>tv_sec\<close> is a \<^verbatim>\<open>time_t\<close>, \<^verbatim>\<open>tv_nsec\<close> a \<^verbatim>\<open>long\<close>, both 64-bit
  signed. \<open>s64\<close> is the conversion of an integer to that type (two's complement
  wrap-around), \<open>u64\<close> the conversion to \<^verbatim>\<open>unsigned long\<close> (\<^verbatim>\<open>subsec_t\<close>).
\<close>

record timespec =
  tv_sec :: int
  tv_nsec :: int

definition u64 :: "int \<Rightarrow> int" where
  "u64 x = x mod 2 ^ 64"

definition s64 :: "int \<Rightarrow> int" where
  "s64 x = (x + 2 ^ 63) mod 2 ^ 64 - 2 ^ 63"

text \<open>
  An \<^verbatim>\<open>ari_data_t\<close> is the list of its \<^verbatim>\<open>len\<close> bytes (empty for a null pointer).
  \<^verbatim>\<open>text_real_len\<close> ignores one terminating NUL.
\<close>

definition text_real_len :: "string \<Rightarrow> nat" where
  "text_real_len data =
     (if data = [] then 0
      else if last data = CHR 0x00 then length data - 1 else length data)"

text \<open>
  A \<^verbatim>\<open>const char *\<close> into a text is the list of the bytes from the pointer to the end
  of the buffer, so \<^verbatim>\<open>curs + n\<close> is \<open>drop n curs\<close> and \<^verbatim>\<open>p < q\<close> holds when \<open>p\<close> is the
  longer list. A read at the end of the buffer sees the terminating NUL of the text.
\<close>

definition peek :: "string \<Rightarrow> char" where
  "peek curs = (case curs of [] \<Rightarrow> CHR 0x00 | c # _ \<Rightarrow> c)"

text \<open>
  \<^verbatim>\<open>subsec_encode\<close>: nothing for zero; otherwise trailing zeros are trimmed and the rest
  is printed with \<^verbatim>\<open>".%.*u"\<close>, which reads the low 32 bits of its argument. The loop
  runs on a value that is not zero; the model's guard \<open>0 < subsec\<close> says so.
\<close>

function subsec_trim :: "int \<Rightarrow> int \<Rightarrow> int \<times> int" where
  "subsec_trim subsec digits =
     (if 0 < subsec \<and> subsec mod 10 = 0 then subsec_trim (subsec div 10) (digits - 1)
      else (subsec, digits))"
  by pat_completeness auto
termination
  by (relation "measure (\<lambda>(subsec, digits). nat subsec)") auto

declare subsec_trim.simps [simp del]

definition subsec_encode :: "string \<Rightarrow> int \<Rightarrow> string" where
  "subsec_encode out subsec =
     (if subsec = 0 then out
      else (let (subsec, digits) = subsec_trim subsec 9
            in out @ [CHR ''.''] @ zero_pad (nat digits) (show_nat 10 (subsec mod 2 ^ 32))))"

text \<open>
  \<^verbatim>\<open>subsec_decode(&subsec, &curs, end)\<close>: the return code, then \<^verbatim>\<open>subsec\<close> and \<^verbatim>\<open>curs\<close>
  after the call.
\<close>

function pad_subsec :: "int \<Rightarrow> nat \<Rightarrow> int" where
  "pad_subsec subsec digits =
     (if digits < 9 then pad_subsec (u64 (subsec * 10)) (Suc digits) else subsec)"
  by pat_completeness auto
termination
  by (relation "measure (\<lambda>(subsec, digits). 9 - digits)") auto

declare pad_subsec.simps [simp del]

definition subsec_decode :: "int \<Rightarrow> string \<Rightarrow> string \<Rightarrow> int \<times> int \<times> string" where
  "subsec_decode subsec curs end =
     (if length curs = length end then (0, subsec, curs)
      else if peek curs \<noteq> CHR ''.'' then (2, subsec, curs)
      else (let curs = drop 1 curs
            in if length end < length curs
               then (let (v, digits) = strtoul curs 10
                     in if digits = 0 then (2, v, curs)
                        else if 9 < digits then (4, v, curs)
                        else (0, pad_subsec v digits, drop digits curs))
               else (0, subsec, curs)))"

text \<open>\<^verbatim>\<open>decfrac_encode\<close>: the seconds with \<^verbatim>\<open>%ld\<close>, then the subseconds.\<close>

definition decfrac_encode :: "string \<Rightarrow> timespec \<Rightarrow> int \<times> string" where
  "decfrac_encode out inp = (0, subsec_encode (out @ show_int (tv_sec inp)) (u64 (tv_nsec inp)))"

subsection \<open>ISO 8601 duration\<close>

definition TIMEPERIOD_DAY :: int where "TIMEPERIOD_DAY = 24 * 3600"
definition TIMEPERIOD_HOUR :: int where "TIMEPERIOD_HOUR = 3600"
definition TIMEPERIOD_MINUTE :: int where "TIMEPERIOD_MINUTE = 60"

text \<open>
  One of the three blocks of \<^verbatim>\<open>timeperiod_encode\<close> that take a unit out of
  \<^verbatim>\<open>fullsec\<close>: the output and \<^verbatim>\<open>fullsec\<close> after it. The division only runs on a
  positive \<^verbatim>\<open>fullsec\<close>, where C's and HOL's agree.
\<close>

definition encode_unit :: "int \<Rightarrow> char \<Rightarrow> string \<times> int \<Rightarrow> string \<times> int" where
  "encode_unit unit letter st =
     (case st of (out, fullsec) \<Rightarrow>
        if unit \<le> fullsec
        then (out @ show_int (fullsec div unit) @ [letter], fullsec mod unit)
        else (out, fullsec))"

definition timeperiod_encode :: "string \<Rightarrow> timespec \<Rightarrow> int \<times> string" where
  "timeperiod_encode out inp =
     (if tv_sec inp = 0 \<and> tv_nsec inp = 0 then (0, out @ ''PT0S'')
      else (let fullsec = tv_sec inp;
                subsec = u64 (tv_nsec inp);
                (out, fullsec) = (if fullsec < 0 then (out @ [CHR ''-''], s64 (- fullsec))
                                  else (out, fullsec));
                out = out @ [CHR ''P''];
                (out, fullsec) = encode_unit TIMEPERIOD_DAY (CHR ''D'') (out, fullsec);
                out = out @ [CHR ''T''];
                (out, fullsec) = encode_unit TIMEPERIOD_HOUR (CHR ''H'') (out, fullsec);
                (out, fullsec) = encode_unit TIMEPERIOD_MINUTE (CHR ''M'') (out, fullsec);
                out = (if fullsec \<noteq> 0 \<or> subsec \<noteq> 0
                       then subsec_encode (out @ show_int fullsec) subsec @ [CHR ''S'']
                       else out)
            in (0, out)))"

text \<open>
  One of the three blocks of \<^verbatim>\<open>timeperiod_decode\<close> that look for a unit letter with
  \<^verbatim>\<open>strchr\<close> and, when it is there, add the number at the cursor: \<open>None\<close> is
  \<^verbatim>\<open>return 2\<close>, otherwise \<^verbatim>\<open>fullsec\<close> and \<^verbatim>\<open>curs\<close> after the block. The product is an
  \<^verbatim>\<open>unsigned long\<close>, the sum is stored into the signed \<^verbatim>\<open>time_t\<close>.
\<close>

definition decode_unit :: "int \<Rightarrow> char \<Rightarrow> int \<times> string \<Rightarrow> (int \<times> string) option" where
  "decode_unit unit letter st =
     (case st of (fullsec, curs) \<Rightarrow>
        (case strchr curs letter of
           None \<Rightarrow> Some (fullsec, curs)
         | Some partend \<Rightarrow>
             (let (v, numend) = strtoul curs 10
              in if numend = 0 then None
                 else Some (s64 (fullsec + unit * v), drop (partend + 1) curs))))"

text \<open>
  The seconds block: the number, then \<^verbatim>\<open>subsec_decode\<close> up to the letter \<^verbatim>\<open>S\<close>.
  The result is \<^verbatim>\<open>fullsec\<close>, \<^verbatim>\<open>subsec\<close> and \<^verbatim>\<open>curs\<close>.
\<close>

definition decode_seconds :: "int \<times> string \<Rightarrow> (int \<times> int \<times> string) option" where
  "decode_seconds st =
     (case st of (fullsec, curs) \<Rightarrow>
        (case strchr curs (CHR ''S'') of
           None \<Rightarrow> Some (fullsec, 0, curs)
         | Some partend \<Rightarrow>
             (let (v, numend) = strtoul curs 10
              in if numend = 0 then None
                 else (case subsec_decode 0 (drop numend curs) (drop partend curs) of
                         (rc, subsec, _) \<Rightarrow>
                           if rc \<noteq> 0 then None
                           else Some (s64 (fullsec + v), subsec, drop (partend + 1) curs)))))"

text \<open>The return code, and the value stored through \<^verbatim>\<open>out\<close> when the code is zero.\<close>

definition timeperiod_decode :: "string \<Rightarrow> int \<times> timespec option" where
  "timeperiod_decode inp =
     (let in_len = text_real_len inp;
          curs = inp;
          end = drop in_len inp;
          sign_neg = (peek curs = CHR ''-'');
          curs = (if peek curs = CHR ''-'' \<or> peek curs = CHR ''+'' then drop 1 curs else curs)
      in if peek curs \<noteq> CHR ''P'' then (2, None)
         else (case decode_unit TIMEPERIOD_DAY (CHR ''D'') (0, drop 1 curs) of
            None \<Rightarrow> (2, None)
          | Some (fullsec, curs) \<Rightarrow>
              if peek curs \<noteq> CHR ''T'' then (2, None)
              else (case decode_unit TIMEPERIOD_HOUR (CHR ''H'') (fullsec, drop 1 curs) of
                 None \<Rightarrow> (2, None)
               | Some st \<Rightarrow>
                  (case decode_unit TIMEPERIOD_MINUTE (CHR ''M'') st of
                     None \<Rightarrow> (2, None)
                   | Some st \<Rightarrow>
                      (case decode_seconds st of
                         None \<Rightarrow> (2, None)
                       | Some (fullsec, subsec, curs) \<Rightarrow>
                           if length end < length curs then (3, None)
                           else (let fullsec = (if sign_neg then s64 (- fullsec) else fullsec)
                                 in (0, Some \<lparr>tv_sec = fullsec, tv_nsec = s64 subsec\<rparr>)))))))"

section \<open>Percent encoding: \<^verbatim>\<open>uri_percent_encode\<close>, \<^verbatim>\<open>uri_percent_decode\<close>\<close>

definition unreserved :: string where
  "unreserved = ''ABCDEFGHIJKLMNOPQRSTUVWXYZabcdefghijklmnopqrstuvwxyz0123456789_.-~''"

text \<open>\<^verbatim>\<open>"%02X"\<close> of a byte.\<close>

definition hex2 :: "char \<Rightarrow> string" where
  "hex2 c = zero_pad 2 (show_nat 16 (of_char c))"

text \<open>
  The loop of \<^verbatim>\<open>uri_percent_encode\<close>. \<open>curs\<close> and \<open>end\<close> are the pointers (the bytes
  of the memory from the pointer on), \<open>out\<close> the output so far.
\<close>

function percent_encode_loop :: "string \<Rightarrow> string \<Rightarrow> string \<Rightarrow> string \<Rightarrow> string" where
  "percent_encode_loop allsafe end curs out =
     (if length curs \<le> length end then out
      else (let partlen = strspn curs allsafe;
                out = (if partlen \<noteq> 0 then out @ printf_s partlen curs else out);
                curs = drop partlen curs
            in if length curs \<le> length end then out
               else percent_encode_loop allsafe end (drop 1 curs)
                      (out @ CHR ''%'' # hex2 (peek curs))))"
  by pat_completeness auto
termination
  by (relation "measure (\<lambda>(allsafe, end, curs, out). length curs)") auto

declare percent_encode_loop.simps [simp del]

text \<open>
  The arguments are not null. \<^verbatim>\<open>safe\<close> is a C string, so its bytes up to the first NUL
  count. \<open>inp\<close> is the \<^verbatim>\<open>len\<close> bytes of the slice and \<open>after\<close> the bytes that follow them
  in memory: \<^verbatim>\<open>strspn\<close> and \<^verbatim>\<open>%.*s\<close> read a NUL-terminated text from \<^verbatim>\<open>curs\<close> and the
  loop does not clip \<^verbatim>\<open>partlen\<close> to \<^verbatim>\<open>end - curs\<close>, so where the slice has no terminator
  the loop reads on, and copies, into \<open>after\<close>. The result is the return code and
  \<^verbatim>\<open>out\<close> after the call.
\<close>

definition uri_percent_encode :: "string \<Rightarrow> string \<Rightarrow> string \<Rightarrow> string \<Rightarrow> int \<times> string" where
  "uri_percent_encode out inp after safe =
     (let in_len = text_real_len inp;
          allsafe = unreserved @ cstr safe;
          mem = inp @ after
      in (0, percent_encode_loop allsafe (drop in_len mem) mem out))"





section \<open>The type registry: \<^verbatim>\<open>ari_type_to_name\<close>, \<^verbatim>\<open>ari_type_from_name\<close>\<close>

text \<open>
  The enumeration \<^verbatim>\<open>ari_type_t\<close>. Its header is not among the sources, so the integer
  value of each enumerator is a parameter \<open>tc\<close> of every function that converts one to
  \<^verbatim>\<open>int32_t\<close>.
\<close>

datatype ari_type =
    ARI_TYPE_LITERAL | ARI_TYPE_NULL | ARI_TYPE_BOOL | ARI_TYPE_BYTE | ARI_TYPE_INT
  | ARI_TYPE_UINT | ARI_TYPE_VAST | ARI_TYPE_UVAST | ARI_TYPE_REAL32 | ARI_TYPE_REAL64
  | ARI_TYPE_TEXTSTR | ARI_TYPE_BYTESTR | ARI_TYPE_TP | ARI_TYPE_TD | ARI_TYPE_LABEL
  | ARI_TYPE_CBOR | ARI_TYPE_ARITYPE | ARI_TYPE_AC | ARI_TYPE_AM | ARI_TYPE_TBL
  | ARI_TYPE_EXECSET | ARI_TYPE_RPTSET | ARI_TYPE_OBJECT | ARI_TYPE_IDENT | ARI_TYPE_CONST
  | ARI_TYPE_CTRL

definition ari_type_names :: "(ari_type \<times> string) list" where
  "ari_type_names =
    [(ARI_TYPE_LITERAL, ''LITERAL''), (ARI_TYPE_NULL, ''NULL''), (ARI_TYPE_BOOL, ''BOOL''),
     (ARI_TYPE_BYTE, ''BYTE''), (ARI_TYPE_INT, ''INT''), (ARI_TYPE_UINT, ''UINT''),
     (ARI_TYPE_VAST, ''VAST''), (ARI_TYPE_UVAST, ''UVAST''), (ARI_TYPE_REAL32, ''REAL32''),
     (ARI_TYPE_REAL64, ''REAL64''), (ARI_TYPE_TEXTSTR, ''TEXTSTR''),
     (ARI_TYPE_BYTESTR, ''BYTESTR''), (ARI_TYPE_TP, ''TP''), (ARI_TYPE_TD, ''TD''),
     (ARI_TYPE_LABEL, ''LABEL''), (ARI_TYPE_CBOR, ''CBOR''), (ARI_TYPE_ARITYPE, ''ARITYPE''),
     (ARI_TYPE_AC, ''AC''), (ARI_TYPE_AM, ''AM''), (ARI_TYPE_TBL, ''TBL''),
     (ARI_TYPE_EXECSET, ''EXECSET''), (ARI_TYPE_RPTSET, ''RPTSET''),
     (ARI_TYPE_OBJECT, ''OBJECT''), (ARI_TYPE_IDENT, ''IDENT''), (ARI_TYPE_CONST, ''CONST''),
     (ARI_TYPE_CTRL, ''CTRL'')]"

text \<open>\<^verbatim>\<open>strcasecmp(a, b) == 0\<close> in the "C" locale, on NUL-terminated texts.\<close>

definition tolower :: "char \<Rightarrow> char" where
  "tolower c = (case index_of c ''ABCDEFGHIJKLMNOPQRSTUVWXYZ'' of
                  None \<Rightarrow> c | Some i \<Rightarrow> ''abcdefghijklmnopqrstuvwxyz'' ! i)"

definition strcasecmp_eq :: "string \<Rightarrow> string \<Rightarrow> bool" where
  "strcasecmp_eq a b = (map tolower (cstr a) = map tolower (cstr b))"

subsection \<open>The linear scans (built without \<^verbatim>\<open>ENABLE_LUT_CACHE\<close>)\<close>

fun scan_to_name :: "(ari_type \<Rightarrow> int) \<Rightarrow> (ari_type \<times> string) list \<Rightarrow> int \<Rightarrow> string option" where
  "scan_to_name tc [] typenum = None"
| "scan_to_name tc (curs # rest) typenum =
     (if tc (fst curs) = typenum then Some (snd curs) else scan_to_name tc rest typenum)"

text \<open>The name, or \<open>None\<close> for \<^verbatim>\<open>NULL\<close>.\<close>

definition ari_type_to_name :: "(ari_type \<Rightarrow> int) \<Rightarrow> int \<Rightarrow> string option" where
  "ari_type_to_name tc typenum = scan_to_name tc ari_type_names typenum"

text \<open>
  The scan of \<^verbatim>\<open>ari_type_from_name\<close> returns \<^verbatim>\<open>curs->type\<close> at a match and \<^verbatim>\<open>NULL\<close>,
  the integer zero, at the end. It never writes through \<^verbatim>\<open>typenum\<close>; the result is
  the returned integer and \<^verbatim>\<open>*typenum\<close> after the call.
\<close>

fun scan_from_name :: "(ari_type \<Rightarrow> int) \<Rightarrow> (ari_type \<times> string) list \<Rightarrow> string \<Rightarrow> int" where
  "scan_from_name tc [] name = 0"
| "scan_from_name tc (curs # rest) name =
     (if strcasecmp_eq (snd curs) name then tc (fst curs) else scan_from_name tc rest name)"

definition ari_type_from_name :: "(ari_type \<Rightarrow> int) \<Rightarrow> int \<Rightarrow> string \<Rightarrow> int \<times> int" where
  "ari_type_from_name tc typenum name = (scan_from_name tc ari_type_names name, typenum)"

subsection \<open>The dictionaries (built with \<^verbatim>\<open>ENABLE_LUT_CACHE\<close>)\<close>

text \<open>
  A dictionary is the list of its entries, with the key equality of its oplist:
  \<^verbatim>\<open>set_at\<close> replaces the value of an equal key or adds the entry, \<^verbatim>\<open>get\<close> finds the
  entry of an equal key. The hash function of the oplist is not modelled.
  \<^verbatim>\<open>pthread_once\<close> runs \<^verbatim>\<open>_ari_type_dict_init\<close> before the first lookup, so every
  lookup sees the dictionaries it builds.
\<close>

fun dict_set_at :: "('k \<Rightarrow> 'k \<Rightarrow> bool) \<Rightarrow> ('k \<times> 'v) list \<Rightarrow> 'k \<Rightarrow> 'v \<Rightarrow> ('k \<times> 'v) list" where
  "dict_set_at eq [] k v = [(k, v)]"
| "dict_set_at eq (e # es) k v =
     (if eq (fst e) k then (fst e, v) # es else e # dict_set_at eq es k v)"

fun dict_get :: "('k \<Rightarrow> 'k \<Rightarrow> bool) \<Rightarrow> ('k \<times> 'v) list \<Rightarrow> 'k \<Rightarrow> 'v option" where
  "dict_get eq [] k = None"
| "dict_get eq (e # es) k = (if eq (fst e) k then Some (snd e) else dict_get eq es k)"

definition the_default :: "'a \<Rightarrow> 'a option \<Rightarrow> 'a" where
  "the_default d x = (case x of None \<Rightarrow> d | Some v \<Rightarrow> v)"

fun ari_type_dict_init ::
  "(ari_type \<Rightarrow> int) \<Rightarrow> (ari_type \<times> string) list \<Rightarrow>
     (int \<times> string) list \<times> (string \<times> ari_type) list \<Rightarrow>
     (int \<times> string) list \<times> (string \<times> ari_type) list" where
  "ari_type_dict_init tc [] dicts = dicts"
| "ari_type_dict_init tc (curs # rest) (id_dict, name_dict) =
     ari_type_dict_init tc rest
       (dict_set_at (=) id_dict (tc (fst curs)) (snd curs),
        dict_set_at strcasecmp_eq name_dict (snd curs) (fst curs))"

definition ari_type_to_name_lut :: "(ari_type \<Rightarrow> int) \<Rightarrow> int \<Rightarrow> string option" where
  "ari_type_to_name_lut tc typenum =
     dict_get (=) (fst (ari_type_dict_init tc ari_type_names ([], []))) typenum"

text \<open>
  Here \<^verbatim>\<open>typenum\<close> may be null (\<open>None\<close>); the result is the return code and
  \<^verbatim>\<open>*typenum\<close> after the call.
\<close>

definition ari_type_from_name_lut ::
  "(ari_type \<Rightarrow> int) \<Rightarrow> int option \<Rightarrow> string \<Rightarrow> int \<times> int option" where
  "ari_type_from_name_lut tc typenum name =
     (let found = dict_get strcasecmp_eq (snd (ari_type_dict_init tc ari_type_names ([], []))) name
      in (if found = None then 1 else 0,
          case (typenum, found) of (Some _, Some t) \<Rightarrow> Some (tc t) | _ \<Rightarrow> typenum))"

section \<open>The ARI value model\<close>

text \<open>
  The headers that declare the structures are not among the sources; the fields are
  those the functions below read and write. \<^verbatim>\<open>ari_t\<close> is a union tagged by
  \<^verbatim>\<open>is_ref\<close>: a literal \<^verbatim>\<open>ari_lit_t\<close> or a reference \<^verbatim>\<open>ari_ref_t\<close>. The \<^verbatim>\<open>value\<close> union of
  a literal and the container union of \<^verbatim>\<open>ari_params_t\<close> are the member that was last
  written; the fields that say which member is meant (\<^verbatim>\<open>prim_type\<close>, \<^verbatim>\<open>ari_type\<close>,
  \<^verbatim>\<open>state\<close>) are kept beside it, as in the structures. A container is the sequence of
  its items in iteration order. A \<^verbatim>\<open>double\<close> is its 64-bit pattern.
\<close>

datatype ari_prim_type =
    ARI_PRIM_UNDEFINED | ARI_PRIM_NULL | ARI_PRIM_BOOL | ARI_PRIM_UINT64 | ARI_PRIM_INT64
  | ARI_PRIM_FLOAT64 | ARI_PRIM_TSTR | ARI_PRIM_BSTR | ARI_PRIM_TIMESPEC | ARI_PRIM_OTHER

datatype ari_idseg = ARI_IDSEG_NULL | ARI_IDSEG_TEXT string | ARI_IDSEG_INT int

record ari_objpath =
  ns_id :: ari_idseg
  type_id :: ari_idseg
  obj_id :: ari_idseg
  has_ari_type :: bool
  ari_type :: ari_type

datatype ari_param_state = ARI_PARAMS_NONE | ARI_PARAMS_AC | ARI_PARAMS_AM

datatype ari =
    ARI_LIT ari_lit
  | ARI_REF ari_ref
and ari_lit =
    Lit (lit_has_ari_type: bool) (lit_ari_type: ari_type) (prim_type: ari_prim_type)
        (lit_value: ari_value)
and ari_ref =
    Ref (ref_objpath: ari_objpath) (ref_params: ari_params)
and ari_params =
    Params (params_state: ari_param_state) (params_container: ari_value)
and ari_value =
    as_none
  | as_bool bool
  | as_uint64 "64 word"
  | as_int64 "64 word"
  | as_float64 "64 word"
  | as_data string
  | as_timespec timespec
  | as_ac "ari list"
  | as_am "(ari \<times> ari) list"
  | as_tbl nat "ari list"
  | as_execset ari "ari list"
  | as_rptset ari ari "ari_report list"
and ari_report =
    Report (rpt_reltime: ari) (rpt_source: ari) (rpt_items: "ari list")

text \<open>\<^verbatim>\<open>ARI_INIT_UNDEFINED\<close>, the value of a fresh \<^verbatim>\<open>ari_t\<close>.\<close>

definition ARI_INIT_UNDEFINED :: ari where
  "ARI_INIT_UNDEFINED = ARI_LIT (Lit False ARI_TYPE_LITERAL ARI_PRIM_UNDEFINED as_none)"

definition is_ref :: "ari \<Rightarrow> bool" where
  "is_ref a = (case a of ARI_REF _ \<Rightarrow> True | ARI_LIT _ \<Rightarrow> False)"

section \<open>The tree walker: \<^verbatim>\<open>ari_visit\<close>\<close>

text \<open>
  A callback gets the node, the context and the state behind \<^verbatim>\<open>user_data\<close>, and gives
  its return code and the state after it. An absent callback is \<open>None\<close>.
\<close>

record visit_ctx =
  parent :: "ari option"
  is_map_key :: bool

record 'u ari_visitor =
  visit_ari :: "(ari \<Rightarrow> visit_ctx \<Rightarrow> 'u \<Rightarrow> int \<times> 'u) option"
  visit_ref :: "(ari_ref \<Rightarrow> visit_ctx \<Rightarrow> 'u \<Rightarrow> int \<times> 'u) option"
  visit_objpath :: "(ari_objpath \<Rightarrow> visit_ctx \<Rightarrow> 'u \<Rightarrow> int \<times> 'u) option"
  visit_lit :: "(ari_lit \<Rightarrow> visit_ctx \<Rightarrow> 'u \<Rightarrow> int \<times> 'u) option"

text \<open>
  The local \<^verbatim>\<open>retval\<close> of \<^verbatim>\<open>ari_visit_ari\<close> has no initialiser, and the function ends
  with \<^verbatim>\<open>return retval\<close>. A return code is therefore \<open>Some\<close> integer or \<open>None\<close>, the
  indeterminate value of a \<^verbatim>\<open>retval\<close> that nothing was assigned to. \<^verbatim>\<open>CHKERRVAL(retval)\<close>
  returns \<^verbatim>\<open>retval\<close> when it is not zero. The language does not say how that test
  falls on an indeterminate value: a build that finds the stack's contents there takes
  it for non-zero and returns, a build that assumes zero goes on. \<open>indet_zero\<close> is
  that choice of the build, the same at every test, and every function below takes it
  as its first argument. The cases of a \<^verbatim>\<open>switch\<close> read the container the tag names
  (the invariant of the value model); where the union holds another member the model
  visits nothing.
\<close>

definition nonzero :: "bool \<Rightarrow> int option \<Rightarrow> bool" where
  "nonzero indet_zero retval = (case retval of Some r \<Rightarrow> r \<noteq> 0 | None \<Rightarrow> \<not> indet_zero)"

text \<open>
  \<open>call_opt\<close> is the pattern \<^verbatim>\<open>if (visitor->f) { retval = visitor->f(node, ctx); }\<close>:
  \<^verbatim>\<open>retval\<close> and the state after it. The test that follows the call reads the code the
  callback gave.
\<close>

definition call_opt ::
  "('n \<Rightarrow> visit_ctx \<Rightarrow> 'u \<Rightarrow> int \<times> 'u) option \<Rightarrow> 'n \<Rightarrow> visit_ctx \<Rightarrow> int option \<Rightarrow> 'u
     \<Rightarrow> int option \<times> 'u" where
  "call_opt f node ctx retval u =
     (case f of None \<Rightarrow> (retval, u)
      | Some g \<Rightarrow> (case g node ctx u of (r, u') \<Rightarrow> (Some r, u')))"

function
  ari_visit_ari :: "bool \<Rightarrow> ari \<Rightarrow> 'u ari_visitor \<Rightarrow> visit_ctx \<Rightarrow> 'u \<Rightarrow> int option \<times> 'u" and
  ari_visit_ac :: "bool \<Rightarrow> ari list \<Rightarrow> 'u ari_visitor \<Rightarrow> visit_ctx \<Rightarrow> 'u \<Rightarrow> int option \<times> 'u" and
  ari_visit_am :: "bool \<Rightarrow> (ari \<times> ari) list \<Rightarrow> 'u ari_visitor \<Rightarrow> visit_ctx \<Rightarrow> 'u \<Rightarrow> int option \<times> 'u" and
  ari_visit_tbl :: "bool \<Rightarrow> ari list \<Rightarrow> 'u ari_visitor \<Rightarrow> visit_ctx \<Rightarrow> 'u \<Rightarrow> int option \<times> 'u" and
  ari_visit_execset :: "bool \<Rightarrow> ari list \<Rightarrow> 'u ari_visitor \<Rightarrow> visit_ctx \<Rightarrow> 'u \<Rightarrow> int option \<times> 'u" and
  ari_visit_report :: "bool \<Rightarrow> ari_report \<Rightarrow> 'u ari_visitor \<Rightarrow> visit_ctx \<Rightarrow> 'u \<Rightarrow> int option \<times> 'u" and
  ari_visit_rptset :: "bool \<Rightarrow> ari \<Rightarrow> ari \<Rightarrow> ari_report list \<Rightarrow> 'u ari_visitor \<Rightarrow> visit_ctx \<Rightarrow> 'u \<Rightarrow> int option \<times> 'u" and
  ari_visit_reports :: "bool \<Rightarrow> ari_report list \<Rightarrow> 'u ari_visitor \<Rightarrow> visit_ctx \<Rightarrow> 'u \<Rightarrow> int option \<times> 'u"
where
  "ari_visit_ari indet_zero (ARI_REF (Ref path (Params st ctr))) visitor ctx u =
     (case call_opt (visit_ari visitor) (ARI_REF (Ref path (Params st ctr))) ctx None u of
        (retval, u) \<Rightarrow>
      if visit_ari visitor \<noteq> None \<and> retval \<noteq> Some 0 then (retval, u)
      else (let sub_ctx = \<lparr>parent = Some (ARI_REF (Ref path (Params st ctr))), is_map_key = False\<rparr>
        in case call_opt (visit_ref visitor) (Ref path (Params st ctr)) sub_ctx retval u of
        (retval, u) \<Rightarrow>
      if visit_ref visitor \<noteq> None \<and> retval \<noteq> Some 0 then (retval, u)
      else (case call_opt (visit_objpath visitor) path sub_ctx retval u of
        (retval, u) \<Rightarrow>
      if visit_objpath visitor \<noteq> None \<and> retval \<noteq> Some 0 then (retval, u)
      else if st = ARI_PARAMS_AC
        then (case ctr of as_ac items \<Rightarrow> ari_visit_ac indet_zero items visitor sub_ctx u
              | _ \<Rightarrow> (retval, u))
      else if st = ARI_PARAMS_AM
        then (case ctr of as_am pairs \<Rightarrow> ari_visit_am indet_zero pairs visitor sub_ctx u
              | _ \<Rightarrow> (retval, u))
      else (retval, u))))"
| "ari_visit_ari indet_zero (ARI_LIT (Lit has_type type prim val)) visitor ctx u =
     (case call_opt (visit_ari visitor) (ARI_LIT (Lit has_type type prim val)) ctx None u of
        (retval, u) \<Rightarrow>
      if visit_ari visitor \<noteq> None \<and> retval \<noteq> Some 0 then (retval, u)
      else (let sub_ctx = \<lparr>parent = Some (ARI_LIT (Lit has_type type prim val)), is_map_key = False\<rparr>
        in case call_opt (visit_lit visitor) (Lit has_type type prim val) sub_ctx retval u of
        (retval, u) \<Rightarrow>
      if visit_lit visitor \<noteq> None \<and> retval \<noteq> Some 0 then (retval, u)
      else if \<not> has_type then (retval, u)
      else if type = ARI_TYPE_AC
        then (case val of as_ac items \<Rightarrow> ari_visit_ac indet_zero items visitor sub_ctx u
              | _ \<Rightarrow> (retval, u))
      else if type = ARI_TYPE_AM
        then (case val of as_am pairs \<Rightarrow> ari_visit_am indet_zero pairs visitor sub_ctx u
              | _ \<Rightarrow> (retval, u))
      else if type = ARI_TYPE_TBL
        then (case val of as_tbl ncols items \<Rightarrow> ari_visit_tbl indet_zero items visitor sub_ctx u
              | _ \<Rightarrow> (retval, u))
      else if type = ARI_TYPE_EXECSET
        then (case val of as_execset nonce targets \<Rightarrow> ari_visit_execset indet_zero targets visitor sub_ctx u
              | _ \<Rightarrow> (retval, u))
      else if type = ARI_TYPE_RPTSET
        then (case val of as_rptset nonce reftime reports \<Rightarrow>
                ari_visit_rptset indet_zero nonce reftime reports visitor sub_ctx u
              | _ \<Rightarrow> (retval, u))
      else (retval, u)))"
| "ari_visit_ac indet_zero [] visitor ctx u = (Some 0, u)"
| "ari_visit_ac indet_zero (item # rest) visitor ctx u =
     (case ari_visit_ari indet_zero item visitor ctx u of (retval, u) \<Rightarrow>
      if nonzero indet_zero retval then (retval, u) else ari_visit_ac indet_zero rest visitor ctx u)"
| "ari_visit_am indet_zero [] visitor ctx u = (Some 0, u)"
| "ari_visit_am indet_zero (pair # rest) visitor ctx u =
     (case ari_visit_ari indet_zero (fst pair) visitor (ctx\<lparr>is_map_key := True\<rparr>) u of (retval, u) \<Rightarrow>
      if nonzero indet_zero retval then (retval, u)
      else (case ari_visit_ari indet_zero (snd pair) visitor (ctx\<lparr>is_map_key := False\<rparr>) u of (retval, u) \<Rightarrow>
      if nonzero indet_zero retval then (retval, u)
      else ari_visit_am indet_zero rest visitor ctx u))"
| "ari_visit_tbl indet_zero [] visitor ctx u = (Some 0, u)"
| "ari_visit_tbl indet_zero (item # rest) visitor ctx u =
     (case ari_visit_ari indet_zero item visitor ctx u of (retval, u) \<Rightarrow>
      if nonzero indet_zero retval then (retval, u) else ari_visit_tbl indet_zero rest visitor ctx u)"
| "ari_visit_execset indet_zero [] visitor ctx u = (Some 0, u)"
| "ari_visit_execset indet_zero (item # rest) visitor ctx u =
     (case ari_visit_ari indet_zero item visitor ctx u of (retval, u) \<Rightarrow>
      if nonzero indet_zero retval then (retval, u) else ari_visit_execset indet_zero rest visitor ctx u)"
| "ari_visit_report indet_zero (Report rt src its) visitor ctx u =
     (case ari_visit_ari indet_zero rt visitor ctx u of (retval, u) \<Rightarrow>
      if nonzero indet_zero retval then (retval, u)
      else (case ari_visit_ari indet_zero src visitor ctx u of (retval, u) \<Rightarrow>
      if nonzero indet_zero retval then (retval, u)
      else ari_visit_ac indet_zero its visitor ctx u))"
| "ari_visit_rptset indet_zero nonce reftime reports visitor ctx u =
     (case ari_visit_ari indet_zero nonce visitor ctx u of (retval, u) \<Rightarrow>
      if nonzero indet_zero retval then (retval, u)
      else (case ari_visit_ari indet_zero reftime visitor ctx u of (retval, u) \<Rightarrow>
      if nonzero indet_zero retval then (retval, u)
      else ari_visit_reports indet_zero reports visitor ctx u))"
| "ari_visit_reports indet_zero [] visitor ctx u = (Some 0, u)"
| "ari_visit_reports indet_zero (rpt # rest) visitor ctx u =
     (case ari_visit_report indet_zero rpt visitor ctx u of (retval, u) \<Rightarrow>
      if nonzero indet_zero retval then (retval, u) else ari_visit_reports indet_zero rest visitor ctx u)"
  by pat_completeness auto
termination
  by (relation "measure (case_sum
        (case_sum (case_sum (\<lambda>(iz, a, _). size a) (\<lambda>(iz, xs, _). size_list size xs))
                  (case_sum (\<lambda>(iz, ps, _). size_list (size_prod size size) ps)
                            (\<lambda>(iz, xs, _). size_list size xs)))
        (case_sum (case_sum (\<lambda>(iz, xs, _). size_list size xs) (\<lambda>(iz, r, _). size r))
                  (case_sum (\<lambda>(iz, n, r, rs, _). size n + size r + size_list size rs + 1)
                            (\<lambda>(iz, rs, _). size_list size rs))))")
     auto

text \<open>\<^verbatim>\<open>ari_visit\<close>: both arguments are not null; the walk starts with no parent.\<close>

definition ari_visit :: "bool \<Rightarrow> ari \<Rightarrow> 'u ari_visitor \<Rightarrow> 'u \<Rightarrow> int option \<times> 'u" where
  "ari_visit indet_zero a visitor user_data =
     ari_visit_ari indet_zero a visitor \<lparr>parent = None, is_map_key = False\<rparr> user_data"

section \<open>Structural equality: \<^verbatim>\<open>ari_equal\<close>\<close>

text \<open>
  The tests on a \<^verbatim>\<open>double\<close>, read off its bit pattern: \<^verbatim>\<open>isnan\<close>, \<^verbatim>\<open>isinf\<close>, the sign,
  and \<^verbatim>\<open>==\<close> (no NaN equals anything; the two zeros are equal).
\<close>

definition isnan :: "64 word \<Rightarrow> bool" where
  "isnan x = (x AND 0x7FF0000000000000 = 0x7FF0000000000000 \<and> x AND 0x000FFFFFFFFFFFFF \<noteq> 0)"

definition isinf :: "64 word \<Rightarrow> bool" where
  "isinf x = (x AND 0x7FFFFFFFFFFFFFFF = 0x7FF0000000000000)"

definition double_negative :: "64 word \<Rightarrow> bool" where
  "double_negative x = (\<not> isnan x \<and> x AND 0x8000000000000000 \<noteq> 0 \<and> x AND 0x7FFFFFFFFFFFFFFF \<noteq> 0)"

definition double_eq :: "64 word \<Rightarrow> 64 word \<Rightarrow> bool" where
  "double_eq x y =
     (\<not> isnan x \<and> \<not> isnan y \<and>
      (x = y \<or> (x AND 0x7FFFFFFFFFFFFFFF = 0 \<and> y AND 0x7FFFFFFFFFFFFFFF = 0)))"

text \<open>
  Modelled from the spec: \<^verbatim>\<open>ari_idseg_equal\<close>, whose source is missing. "Two segments
  are equal when forms match and contents are byte-equal (TEXT) or integer-equal (INT)."
\<close>

fun ari_idseg_equal :: "ari_idseg \<Rightarrow> ari_idseg \<Rightarrow> bool" where
  "ari_idseg_equal ARI_IDSEG_NULL ARI_IDSEG_NULL = True"
| "ari_idseg_equal (ARI_IDSEG_TEXT a) (ARI_IDSEG_TEXT b) = (a = b)"
| "ari_idseg_equal (ARI_IDSEG_INT a) (ARI_IDSEG_INT b) = (a = b)"
| "ari_idseg_equal _ _ = False"

text \<open>
  Modelled from the spec: \<^verbatim>\<open>ari_data_equal\<close>, whose source is missing; the byte
  sequences are equal.
\<close>

definition ari_data_equal :: "string \<Rightarrow> string \<Rightarrow> bool" where
  "ari_data_equal a b = (a = b)"

definition ari_objpath_equal :: "ari_objpath \<Rightarrow> ari_objpath \<Rightarrow> bool" where
  "ari_objpath_equal left right =
     (let type_equal =
            (if has_ari_type left \<and> has_ari_type right then ari_type left = ari_type right
             else ari_idseg_equal (type_id left) (type_id right))
      in ari_idseg_equal (ns_id left) (ns_id right) \<and> type_equal
         \<and> ari_idseg_equal (obj_id left) (obj_id right))"

text \<open>
  The second \<^verbatim>\<open>switch\<close> of \<^verbatim>\<open>ari_equal\<close>, on \<^verbatim>\<open>prim_type\<close>: whether the primitive values
  agree. \<^verbatim>\<open>M_MEMCMP1_DEFAULT\<close> compares the bytes of the two \<^verbatim>\<open>timespec\<close> structures.
  A value that is not the member \<^verbatim>\<open>prim_type\<close> names is outside the value model; the
  model takes such values as different.
\<close>

definition prim_value_equal :: "ari_prim_type \<Rightarrow> ari_value \<Rightarrow> ari_value \<Rightarrow> bool" where
  "prim_value_equal prim l r =
     (case prim of
        ARI_PRIM_UNDEFINED \<Rightarrow> True
      | ARI_PRIM_NULL \<Rightarrow> True
      | ARI_PRIM_BOOL \<Rightarrow>
          (case l of as_bool a \<Rightarrow> (case r of as_bool b \<Rightarrow> a = b | _ \<Rightarrow> False) | _ \<Rightarrow> False)
      | ARI_PRIM_UINT64 \<Rightarrow>
          (case l of as_uint64 a \<Rightarrow> (case r of as_uint64 b \<Rightarrow> a = b | _ \<Rightarrow> False) | _ \<Rightarrow> False)
      | ARI_PRIM_INT64 \<Rightarrow>
          (case l of as_int64 a \<Rightarrow> (case r of as_int64 b \<Rightarrow> a = b | _ \<Rightarrow> False) | _ \<Rightarrow> False)
      | ARI_PRIM_FLOAT64 \<Rightarrow>
          (case l of as_float64 a \<Rightarrow>
             (case r of as_float64 b \<Rightarrow>
                if isnan a \<noteq> isnan b then False
                else if \<not> isnan a \<and> \<not> double_eq a b then False
                else True
              | _ \<Rightarrow> False)
           | _ \<Rightarrow> False)
      | ARI_PRIM_TSTR \<Rightarrow>
          (case l of as_data a \<Rightarrow> (case r of as_data b \<Rightarrow> ari_data_equal a b | _ \<Rightarrow> False)
           | _ \<Rightarrow> False)
      | ARI_PRIM_BSTR \<Rightarrow>
          (case l of as_data a \<Rightarrow> (case r of as_data b \<Rightarrow> ari_data_equal a b | _ \<Rightarrow> False)
           | _ \<Rightarrow> False)
      | ARI_PRIM_TIMESPEC \<Rightarrow>
          (case l of as_timespec a \<Rightarrow>
             (case r of as_timespec b \<Rightarrow> tv_sec a = tv_sec b \<and> tv_nsec a = tv_nsec b
              | _ \<Rightarrow> False)
           | _ \<Rightarrow> False)
      | ARI_PRIM_OTHER \<Rightarrow> True)"

text \<open>
  \<^verbatim>\<open>ari_equal\<close>, \<^verbatim>\<open>ari_params_equal\<close> (its cases are written out in the reference
  branch) and the container equalities it calls.

  Modelled from the spec: \<^verbatim>\<open>ari_ac_equal\<close>, \<^verbatim>\<open>ari_am_equal\<close>, \<^verbatim>\<open>ari_tbl_equal\<close>,
  \<^verbatim>\<open>ari_execset_equal\<close>, \<^verbatim>\<open>ari_rptset_equal\<close> and the equality of reports, whose sources
  are missing. "AC element-wise; AM key-set equal and per-key value equal"; "TBL equal
  \<open>ncols\<close> and ordered cells; Report and RPTSET field-wise". \<open>am_all\<close> and \<open>am_has\<close> are
  the two loops of the AM rule: every pair of the left map has a pair of the right map
  with an equal key and an equal value.
\<close>

function
  ari_equal :: "ari \<Rightarrow> ari \<Rightarrow> bool" and
  ari_ac_equal :: "ari list \<Rightarrow> ari list \<Rightarrow> bool" and
  ari_am_equal :: "(ari \<times> ari) list \<Rightarrow> (ari \<times> ari) list \<Rightarrow> bool" and
  am_all :: "(ari \<times> ari) list \<Rightarrow> (ari \<times> ari) list \<Rightarrow> bool" and
  am_has :: "ari \<Rightarrow> ari \<Rightarrow> (ari \<times> ari) list \<Rightarrow> bool" and
  ari_tbl_equal :: "nat \<Rightarrow> ari list \<Rightarrow> nat \<Rightarrow> ari list \<Rightarrow> bool" and
  ari_execset_equal :: "ari \<Rightarrow> ari list \<Rightarrow> ari \<Rightarrow> ari list \<Rightarrow> bool" and
  ari_report_equal :: "ari_report \<Rightarrow> ari_report \<Rightarrow> bool" and
  ari_report_list_equal :: "ari_report list \<Rightarrow> ari_report list \<Rightarrow> bool" and
  ari_rptset_equal :: "ari \<Rightarrow> ari \<Rightarrow> ari_report list \<Rightarrow> ari \<Rightarrow> ari \<Rightarrow> ari_report list \<Rightarrow> bool"
where
  "ari_equal (ARI_REF (Ref lpath (Params lst lctr))) right =
     (case right of
        ARI_LIT _ \<Rightarrow> False
      | ARI_REF rref \<Rightarrow>
          ari_objpath_equal lpath (ref_objpath rref) \<and>
          (if lst \<noteq> params_state (ref_params rref) then False
           else if lst = ARI_PARAMS_NONE then True
           else if lst = ARI_PARAMS_AC
             then (case lctr of
                     as_ac litems \<Rightarrow>
                       (case params_container (ref_params rref) of
                          as_ac ritems \<Rightarrow> ari_ac_equal litems ritems | _ \<Rightarrow> False)
                   | _ \<Rightarrow> False)
           else (case lctr of
                   as_am lpairs \<Rightarrow>
                     (case params_container (ref_params rref) of
                        as_am rpairs \<Rightarrow> ari_am_equal lpairs rpairs | _ \<Rightarrow> False)
                 | _ \<Rightarrow> False)))"
| "ari_equal (ARI_LIT (Lit lhas ltype lprim lval)) right =
     (case right of
        ARI_REF _ \<Rightarrow> False
      | ARI_LIT rlit \<Rightarrow>
          if lhas \<noteq> lit_has_ari_type rlit then False
          else if lhas \<and> ltype \<noteq> lit_ari_type rlit then False
          else if lhas \<and> ltype = ARI_TYPE_AC \<and>
                  \<not> (case lval of
                        as_ac litems \<Rightarrow>
                          (case lit_value rlit of
                             as_ac ritems \<Rightarrow> ari_ac_equal litems ritems | _ \<Rightarrow> False)
                      | _ \<Rightarrow> False) then False
          else if lhas \<and> ltype = ARI_TYPE_AM \<and>
                  \<not> (case lval of
                        as_am lpairs \<Rightarrow>
                          (case lit_value rlit of
                             as_am rpairs \<Rightarrow> ari_am_equal lpairs rpairs | _ \<Rightarrow> False)
                      | _ \<Rightarrow> False) then False
          else if lhas \<and> ltype = ARI_TYPE_TBL \<and>
                  \<not> (case lval of
                        as_tbl lncols litems \<Rightarrow>
                          (case lit_value rlit of
                             as_tbl rncols ritems \<Rightarrow> ari_tbl_equal lncols litems rncols ritems
                           | _ \<Rightarrow> False)
                      | _ \<Rightarrow> False) then False
          else if lhas \<and> ltype = ARI_TYPE_EXECSET \<and>
                  \<not> (case lval of
                        as_execset lnonce ltargets \<Rightarrow>
                          (case lit_value rlit of
                             as_execset rnonce rtargets \<Rightarrow>
                               ari_execset_equal lnonce ltargets rnonce rtargets
                           | _ \<Rightarrow> False)
                      | _ \<Rightarrow> False) then False
          else if lhas \<and> ltype = ARI_TYPE_RPTSET \<and>
                  \<not> (case lval of
                        as_rptset lnonce lreftime lreports \<Rightarrow>
                          (case lit_value rlit of
                             as_rptset rnonce rreftime rreports \<Rightarrow>
                               ari_rptset_equal lnonce lreftime lreports rnonce rreftime rreports
                           | _ \<Rightarrow> False)
                      | _ \<Rightarrow> False) then False
          else if lprim \<noteq> prim_type rlit then False
          else prim_value_equal lprim lval (lit_value rlit))"
| "ari_ac_equal [] right = (right = [])"
| "ari_ac_equal (l # lrest) right =
     (case right of [] \<Rightarrow> False | r # rrest \<Rightarrow> ari_equal l r \<and> ari_ac_equal lrest rrest)"
| "ari_am_equal left right = (length left = length right \<and> am_all left right)"
| "am_all [] right = True"
| "am_all (pair # rest) right = (am_has (fst pair) (snd pair) right \<and> am_all rest right)"
| "am_has k v [] = False"
| "am_has k v (pair # rest) = ((ari_equal k (fst pair) \<and> ari_equal v (snd pair)) \<or> am_has k v rest)"
| "ari_tbl_equal lncols litems rncols ritems = (lncols = rncols \<and> ari_ac_equal litems ritems)"
| "ari_execset_equal lnonce ltargets rnonce rtargets =
     (ari_equal lnonce rnonce \<and> ari_ac_equal ltargets rtargets)"
| "ari_report_equal (Report lt ls li) right =
     (ari_equal lt (rpt_reltime right) \<and> ari_equal ls (rpt_source right)
      \<and> ari_ac_equal li (rpt_items right))"
| "ari_report_list_equal [] right = (right = [])"
| "ari_report_list_equal (l # lrest) right =
     (case right of [] \<Rightarrow> False
      | r # rrest \<Rightarrow> ari_report_equal l r \<and> ari_report_list_equal lrest rrest)"
| "ari_rptset_equal lnonce lreftime lreports rnonce rreftime rreports =
     (ari_equal lnonce rnonce \<and> ari_equal lreftime rreftime
      \<and> ari_report_list_equal lreports rreports)"
  by pat_completeness auto
termination
  by (relation "measures [case_sum
        (case_sum
           (case_sum (\<lambda>(l, r). 2 * size l) (\<lambda>(l, r). 2 * size_list size l))
           (case_sum (\<lambda>(l, r). 2 * size_list (size_prod size size) l + 1)
              (case_sum (\<lambda>(l, r). 2 * size_list (size_prod size size) l)
                        (\<lambda>(k, v, r). 2 * (size k + size v) + 1))))
        (case_sum
           (case_sum (\<lambda>(ln, l, rn, r). 2 * size_list size l + 1)
                     (\<lambda>(ln, lt, rn, r). 2 * (size ln + size_list size lt) + 1))
           (case_sum (\<lambda>(l, r). 2 * size l)
              (case_sum (\<lambda>(l, r). 2 * size_list size l)
                        (\<lambda>(ln, lr, ls, rn, rr, rs).
                           2 * (size ln + size lr + size_list size ls) + 1)))),
      case_sum
        (case_sum
           (case_sum (\<lambda>_. 0) (\<lambda>_. 0))
           (case_sum (\<lambda>_. 0) (case_sum (\<lambda>_. 0) (\<lambda>(k, v, r). length r))))
        (\<lambda>_. 0)]")
     auto

section \<open>Hashing: \<^verbatim>\<open>ari_hash\<close>\<close>

text \<open>
  The hash macros (\<^verbatim>\<open>M_HASH_DECL\<close>, \<^verbatim>\<open>M_HASH_UP\<close>, \<^verbatim>\<open>M_HASH_FINAL\<close>, \<^verbatim>\<open>M_HASH_DEFAULT\<close>,
  \<^verbatim>\<open>M_HASH_POD_DEFAULT\<close>) come from a library that is not among the sources, and so do
  \<^verbatim>\<open>ari_idseg_hash\<close>, \<^verbatim>\<open>ari_data_hash\<close> and the enumerators' values. They are the fields
  of a parameter: the initial accumulator, the combination step, the final step, and
  the hash of a value of each C type that \<^verbatim>\<open>ari_hash_visit_lit\<close> hashes. A hash is a
  \<^verbatim>\<open>size_t\<close>, taken as 64 bits wide.
\<close>

record hash_env =
  hash_init :: "64 word"
  hash_up :: "64 word \<Rightarrow> 64 word \<Rightarrow> 64 word"
  hash_final :: "64 word \<Rightarrow> 64 word"
  hash_default_bool :: "bool \<Rightarrow> 64 word"
  hash_default_ari_type :: "ari_type \<Rightarrow> 64 word"
  hash_default_prim_type :: "ari_prim_type \<Rightarrow> 64 word"
  hash_default_size :: "nat \<Rightarrow> 64 word"
  hash_default_uint64 :: "64 word \<Rightarrow> 64 word"
  hash_default_int64 :: "64 word \<Rightarrow> 64 word"
  hash_default_float64 :: "64 word \<Rightarrow> 64 word"
  hash_pod_bool :: "bool \<Rightarrow> 64 word"
  hash_pod_timespec :: "timespec \<Rightarrow> 64 word"
  data_hash :: "string \<Rightarrow> 64 word"
  idseg_hash :: "ari_idseg \<Rightarrow> 64 word"
  type_value :: "ari_type \<Rightarrow> int"

text \<open>
  The two callbacks of the hash visitor: the state behind \<^verbatim>\<open>user_data\<close> is the
  accumulator. \<^verbatim>\<open>path->ari_type\<close> goes into \<^verbatim>\<open>M_HASH_UP\<close> as it is, converted to
  \<^verbatim>\<open>size_t\<close>.
\<close>

definition ari_hash_visit_objpath ::
  "hash_env \<Rightarrow> ari_objpath \<Rightarrow> visit_ctx \<Rightarrow> 64 word \<Rightarrow> int \<times> 64 word" where
  "ari_hash_visit_objpath h path ctx accum =
     (let accum = hash_up h accum (idseg_hash h (ns_id path));
          accum = (if has_ari_type path then hash_up h accum (word_of_int (type_value h (ari_type path)))
                   else hash_up h accum (idseg_hash h (type_id path)));
          accum = hash_up h accum (idseg_hash h (obj_id path))
      in (0, accum))"

definition ari_hash_visit_lit ::
  "hash_env \<Rightarrow> ari_lit \<Rightarrow> visit_ctx \<Rightarrow> 64 word \<Rightarrow> int \<times> 64 word" where
  "ari_hash_visit_lit h obj ctx accum =
     (let accum = hash_up h accum (hash_default_bool h (lit_has_ari_type obj));
          accum = (if lit_has_ari_type obj
                   then (let accum = hash_up h accum (hash_default_ari_type h (lit_ari_type obj))
                         in if lit_ari_type obj = ARI_TYPE_TBL
                            then (case lit_value obj of
                                    as_tbl ncols _ \<Rightarrow> hash_up h accum (hash_default_size h ncols)
                                  | _ \<Rightarrow> accum)
                            else accum)
                   else accum);
          accum = hash_up h accum (hash_default_prim_type h (prim_type obj));
          accum = (case prim_type obj of
                     ARI_PRIM_BOOL \<Rightarrow>
                       (case lit_value obj of as_bool b \<Rightarrow> hash_up h accum (hash_pod_bool h b)
                        | _ \<Rightarrow> accum)
                   | ARI_PRIM_UINT64 \<Rightarrow>
                       (case lit_value obj of
                          as_uint64 v \<Rightarrow> hash_up h accum (hash_default_uint64 h v)
                        | _ \<Rightarrow> accum)
                   | ARI_PRIM_INT64 \<Rightarrow>
                       (case lit_value obj of
                          as_int64 v \<Rightarrow> hash_up h accum (hash_default_int64 h v)
                        | _ \<Rightarrow> accum)
                   | ARI_PRIM_FLOAT64 \<Rightarrow>
                       (case lit_value obj of
                          as_float64 v \<Rightarrow> hash_up h accum (hash_default_float64 h v)
                        | _ \<Rightarrow> accum)
                   | ARI_PRIM_TSTR \<Rightarrow>
                       (case lit_value obj of as_data d \<Rightarrow> hash_up h accum (data_hash h d)
                        | _ \<Rightarrow> accum)
                   | ARI_PRIM_BSTR \<Rightarrow>
                       (case lit_value obj of as_data d \<Rightarrow> hash_up h accum (data_hash h d)
                        | _ \<Rightarrow> accum)
                   | ARI_PRIM_TIMESPEC \<Rightarrow>
                       (case lit_value obj of
                          as_timespec t \<Rightarrow> hash_up h accum (hash_pod_timespec h t)
                        | _ \<Rightarrow> accum)
                   | _ \<Rightarrow> accum)
      in (0, accum))"

definition hash_visitor :: "hash_env \<Rightarrow> 64 word ari_visitor" where
  "hash_visitor h =
     \<lparr>visit_ari = None, visit_ref = None,
      visit_objpath = Some (ari_hash_visit_objpath h),
      visit_lit = Some (ari_hash_visit_lit h)\<rparr>"

text \<open>
  The return code of \<^verbatim>\<open>ari_visit\<close> is not read. \<open>indet_zero\<close> is the walker's
  argument of that name.
\<close>

definition ari_hash :: "bool \<Rightarrow> hash_env \<Rightarrow> ari \<Rightarrow> 64 word" where
  "ari_hash indet_zero h a =
     hash_final h (snd (ari_visit indet_zero a (hash_visitor h) (hash_init h)))"

section \<open>The translator: \<^verbatim>\<open>ari_translate\<close>\<close>

text \<open>
  A mapper gets the output object as it is, the input object and the state behind
  \<^verbatim>\<open>user_data\<close>, and gives its return code, the output object and the state after it.
\<close>

record 'u ari_translator =
  map_ari :: "(ari \<Rightarrow> ari \<Rightarrow> 'u \<Rightarrow> int \<times> ari \<times> 'u) option"
  map_objpath :: "(ari_objpath \<Rightarrow> ari_objpath \<Rightarrow> 'u \<Rightarrow> int \<times> ari_objpath \<times> 'u) option"
  map_lit :: "(ari_lit \<Rightarrow> ari_lit \<Rightarrow> 'u \<Rightarrow> int \<times> ari_lit \<times> 'u) option"

text \<open>
  Writes through \<^verbatim>\<open>out\<close>. The bytes of a member of the union that was never written
  are those of \<^verbatim>\<open>ARI_INIT_UNDEFINED\<close>, taken as zero: no segments, no type, no
  parameters. A write to the member that \<^verbatim>\<open>is_ref\<close> does not select is not modelled.
\<close>

definition ref_zero :: ari_ref where
  "ref_zero = Ref \<lparr>ns_id = ARI_IDSEG_NULL, type_id = ARI_IDSEG_NULL, obj_id = ARI_IDSEG_NULL,
                   has_ari_type = False, ari_type = ARI_TYPE_LITERAL\<rparr>
                  (Params ARI_PARAMS_NONE as_none)"

definition lit_zero :: ari_lit where
  "lit_zero = Lit False ARI_TYPE_LITERAL ARI_PRIM_UNDEFINED as_none"

definition set_is_ref :: "ari \<Rightarrow> bool \<Rightarrow> ari" where
  "set_is_ref out b =
     (case out of
        ARI_REF r \<Rightarrow> if b then ARI_REF r else ARI_LIT lit_zero
      | ARI_LIT l \<Rightarrow> if b then ARI_REF ref_zero else ARI_LIT l)"

definition as_ref :: "ari \<Rightarrow> ari_ref" where
  "as_ref out = (case out of ARI_REF r \<Rightarrow> r | ARI_LIT _ \<Rightarrow> ref_zero)"

definition as_lit :: "ari \<Rightarrow> ari_lit" where
  "as_lit out = (case out of ARI_LIT l \<Rightarrow> l | ARI_REF _ \<Rightarrow> lit_zero)"

definition put_objpath :: "ari \<Rightarrow> ari_objpath \<Rightarrow> ari" where
  "put_objpath out p =
     (case out of ARI_REF r \<Rightarrow> ARI_REF (Ref p (ref_params r)) | ARI_LIT l \<Rightarrow> ARI_LIT l)"

definition put_params :: "ari \<Rightarrow> ari_params \<Rightarrow> ari" where
  "put_params out ps =
     (case out of ARI_REF r \<Rightarrow> ARI_REF (Ref (ref_objpath r) ps) | ARI_LIT l \<Rightarrow> ARI_LIT l)"

definition put_lit :: "ari \<Rightarrow> ari_lit \<Rightarrow> ari" where
  "put_lit out l = (case out of ARI_LIT _ \<Rightarrow> ARI_LIT l | ARI_REF r \<Rightarrow> ARI_REF r)"

text \<open>
  Modelled from the spec: \<^verbatim>\<open>ari_lit_init_container\<close>, whose source is missing. The
  containers "require the corresponding container handle and the tag": the literal
  gets the tag and a new, empty container.
\<close>

definition ari_lit_init_container :: "ari_type \<Rightarrow> ari_lit" where
  "ari_lit_init_container ctype =
     Lit True ctype ARI_PRIM_OTHER
       (if ctype = ARI_TYPE_AC then as_ac []
        else if ctype = ARI_TYPE_AM then as_am []
        else if ctype = ARI_TYPE_TBL then as_tbl 0 []
        else as_none)"

text \<open>
  \<^verbatim>\<open>ari_translate\<close> and the three loops. The local \<^verbatim>\<open>retval\<close> has no initialiser, as in
  the walker, so the return code is \<open>Some\<close> integer or \<open>None\<close>, and \<open>indet_zero\<close> says
  how \<^verbatim>\<open>CHKERRVAL(retval)\<close> and \<^verbatim>\<open>if (retval)\<close> fall on an indeterminate code. The
  loops get the output container filled so far: \<^verbatim>\<open>ari_map_ac\<close> and \<^verbatim>\<open>ari_map_tbl\<close> add the new item before
  they test the return code; \<^verbatim>\<open>ari_map_am\<close> gets or creates the entry of the translated
  key (keys are those \<^verbatim>\<open>ari_equal\<close> takes for equal; a new entry goes last) and
  translates the value into it.
\<close>

function
  ari_translate :: "bool \<Rightarrow> ari \<Rightarrow> ari \<Rightarrow> 'u ari_translator \<Rightarrow> 'u \<Rightarrow> int option \<times> ari \<times> 'u" and
  ari_map_ac :: "bool \<Rightarrow> ari list \<Rightarrow> ari list \<Rightarrow> 'u ari_translator \<Rightarrow> 'u \<Rightarrow> int option \<times> ari list \<times> 'u" and
  ari_map_am :: "bool \<Rightarrow> (ari \<times> ari) list \<Rightarrow> (ari \<times> ari) list \<Rightarrow> 'u ari_translator \<Rightarrow> 'u
                  \<Rightarrow> int option \<times> (ari \<times> ari) list \<times> 'u" and
  ari_map_tbl :: "bool \<Rightarrow> ari list \<Rightarrow> ari list \<Rightarrow> 'u ari_translator \<Rightarrow> 'u \<Rightarrow> int option \<times> ari list \<times> 'u"
where
  "ari_translate indet_zero out (ARI_REF (Ref path (Params st ctr))) translator u =
     (case (case map_ari translator of
              None \<Rightarrow> (None, set_is_ref out True, u)
            | Some f \<Rightarrow> (case f out (ARI_REF (Ref path (Params st ctr))) u of
                          (r, out, u) \<Rightarrow> (Some r, out, u))) of
        (retval, out, u) \<Rightarrow>
      if map_ari translator \<noteq> None \<and> retval \<noteq> Some 0 then (retval, out, u)
      else (case (case map_objpath translator of
                    None \<Rightarrow> (retval, put_objpath out path, u)
                  | Some g \<Rightarrow> (case g (ref_objpath (as_ref out)) path u of
                                (r, p, u) \<Rightarrow> (Some r, put_objpath out p, u))) of
        (retval, out, u) \<Rightarrow>
      if map_objpath translator \<noteq> None \<and> retval \<noteq> Some 0 then (retval, out, u)
      else if st = ARI_PARAMS_NONE
        then (retval, put_params out (Params ARI_PARAMS_NONE (params_container (ref_params (as_ref out)))), u)
      else if st = ARI_PARAMS_AC
        then (case ctr of
                as_ac items \<Rightarrow>
                  (case ari_map_ac indet_zero [] items translator u of
                     (retval, tmp, u) \<Rightarrow>
                       if nonzero indet_zero retval then (retval, out, u)
                       else (retval, put_params out (Params ARI_PARAMS_NONE (as_ac tmp)), u))
              | _ \<Rightarrow> (retval, out, u))
      else (case ctr of
              as_am pairs \<Rightarrow>
                (case ari_map_am indet_zero [] pairs translator u of
                   (retval, tmp, u) \<Rightarrow>
                     if nonzero indet_zero retval then (retval, out, u)
                     else (retval, put_params out (Params ARI_PARAMS_NONE (as_am tmp)), u))
            | _ \<Rightarrow> (retval, out, u))))"
| "ari_translate indet_zero out (ARI_LIT (Lit has_type type prim val)) translator u =
     (case (case map_ari translator of
              None \<Rightarrow> (None, set_is_ref out False, u)
            | Some f \<Rightarrow> (case f out (ARI_LIT (Lit has_type type prim val)) u of
                          (r, out, u) \<Rightarrow> (Some r, out, u))) of
        (retval, out, u) \<Rightarrow>
      if map_ari translator \<noteq> None \<and> retval \<noteq> Some 0 then (retval, out, u)
      else (case (case map_lit translator of
                    None \<Rightarrow> (retval, put_lit out (Lit has_type type prim val), u)
                  | Some g \<Rightarrow> (case g (as_lit out) (Lit has_type type prim val) u of
                                (r, l, u) \<Rightarrow> (Some r, put_lit out l, u))) of
        (retval, out, u) \<Rightarrow>
      if map_lit translator \<noteq> None \<and> retval \<noteq> Some 0 then (retval, out, u)
      else if \<not> has_type then (retval, out, u)
      else if type = ARI_TYPE_AC
        then (case val of
                as_ac items \<Rightarrow>
                  (case ari_map_ac indet_zero [] items translator u of
                     (retval, tmp, u) \<Rightarrow>
                       (retval, put_lit out (Lit True ARI_TYPE_AC ARI_PRIM_OTHER (as_ac tmp)), u))
              | _ \<Rightarrow> (retval, put_lit out (ari_lit_init_container ARI_TYPE_AC), u))
      else if type = ARI_TYPE_AM
        then (case val of
                as_am pairs \<Rightarrow>
                  (case ari_map_am indet_zero [] pairs translator u of
                     (retval, tmp, u) \<Rightarrow>
                       (retval, put_lit out (Lit True ARI_TYPE_AM ARI_PRIM_OTHER (as_am tmp)), u))
              | _ \<Rightarrow> (retval, put_lit out (ari_lit_init_container ARI_TYPE_AM), u))
      else if type = ARI_TYPE_TBL
        then (case val of
                as_tbl ncols items \<Rightarrow>
                  (case ari_map_tbl indet_zero [] items translator u of
                     (retval, tmp, u) \<Rightarrow>
                       (retval, put_lit out (Lit True ARI_TYPE_TBL ARI_PRIM_OTHER (as_tbl ncols tmp)), u))
              | _ \<Rightarrow> (retval, put_lit out (ari_lit_init_container ARI_TYPE_TBL), u))
      else (retval, out, u)))"
| "ari_map_ac indet_zero out [] translator u = (Some 0, out, u)"
| "ari_map_ac indet_zero out (in_item # rest) translator u =
     (case ari_translate indet_zero ARI_INIT_UNDEFINED in_item translator u of
        (retval, out_item, u) \<Rightarrow>
          if nonzero indet_zero retval then (retval, out @ [out_item], u)
          else ari_map_ac indet_zero (out @ [out_item]) rest translator u)"
| "ari_map_am indet_zero out [] translator u = (Some 0, out, u)"
| "ari_map_am indet_zero out (pair # rest) translator u =
     (case ari_translate indet_zero ARI_INIT_UNDEFINED (fst pair) translator u of
        (retval, out_key, u) \<Rightarrow>
          (let out = (case dict_get ari_equal out out_key of
                        None \<Rightarrow> out @ [(out_key, ARI_INIT_UNDEFINED)]
                      | Some _ \<Rightarrow> out)
           in if nonzero indet_zero retval then (retval, out, u)
              else (case ari_translate indet_zero (the_default ARI_INIT_UNDEFINED (dict_get ari_equal out out_key))
                           (snd pair) translator u of
                      (retval, out_val, u) \<Rightarrow>
                        if nonzero indet_zero retval
                        then (retval, dict_set_at ari_equal out out_key out_val, u)
                        else ari_map_am indet_zero (dict_set_at ari_equal out out_key out_val) rest translator u)))"
| "ari_map_tbl indet_zero out [] translator u = (Some 0, out, u)"
| "ari_map_tbl indet_zero out (in_item # rest) translator u =
     (case ari_translate indet_zero ARI_INIT_UNDEFINED in_item translator u of
        (retval, out_item, u) \<Rightarrow>
          if nonzero indet_zero retval then (retval, out @ [out_item], u)
          else ari_map_tbl indet_zero (out @ [out_item]) rest translator u)"
  by pat_completeness auto
termination
  by (relation "measure (case_sum
        (case_sum (\<lambda>(iz, out, a, _). size a) (\<lambda>(iz, out, xs, _). size_list size xs))
        (case_sum (\<lambda>(iz, out, ps, _). size_list (size_prod size size) ps)
                  (\<lambda>(iz, out, xs, _). size_list size xs)))")
     auto

section \<open>String escaping and byte-string forms\<close>

text \<open>
  The string library's Unicode iterator (\<^verbatim>\<open>string_it\<close>, \<^verbatim>\<open>string_cref\<close>) and
  \<^verbatim>\<open>string_push_u\<close> are not among the sources. They are modelled as UTF-8 decoding and
  encoding by lead byte and continuation bytes; a byte that starts no sequence gives the
  library's error value, taken here as \<open>0xFFFFFFFF\<close>. The finer rejections of the library
  (overlong forms, surrogates) are not modelled, and the claims below only read texts
  without them.
\<close>

definition is_cont :: "char \<Rightarrow> bool" where
  "is_cont c = (128 \<le> (of_char c :: int) \<and> (of_char c :: int) < 192)"

definition cont_bits :: "char \<Rightarrow> int" where
  "cont_bits c = of_char c - 128"

definition UNICODE_ERROR :: int where
  "UNICODE_ERROR = 0xFFFFFFFF"

fun utf8_decode :: "string \<Rightarrow> int list" where
  "utf8_decode [] = []"
| "utf8_decode [a] =
     (if (of_char a :: int) < 128 then [of_char a] else [UNICODE_ERROR])"
| "utf8_decode [a, b] =
     (if (of_char a :: int) < 128 then of_char a # utf8_decode [b]
      else if 192 \<le> (of_char a :: int) \<and> (of_char a :: int) < 224 \<and> is_cont b
        then [(of_char a - 192) * 64 + cont_bits b]
      else UNICODE_ERROR # utf8_decode [b])"
| "utf8_decode [a, b, c] =
     (if (of_char a :: int) < 128 then of_char a # utf8_decode [b, c]
      else if 192 \<le> (of_char a :: int) \<and> (of_char a :: int) < 224 \<and> is_cont b
        then ((of_char a - 192) * 64 + cont_bits b) # utf8_decode [c]
      else if 224 \<le> (of_char a :: int) \<and> (of_char a :: int) < 240 \<and> is_cont b \<and> is_cont c
        then [((of_char a - 224) * 64 + cont_bits b) * 64 + cont_bits c]
      else UNICODE_ERROR # utf8_decode [b, c])"
| "utf8_decode (a # b # c # d # rest) =
     (if (of_char a :: int) < 128 then of_char a # utf8_decode (b # c # d # rest)
      else if 192 \<le> (of_char a :: int) \<and> (of_char a :: int) < 224 \<and> is_cont b
        then ((of_char a - 192) * 64 + cont_bits b) # utf8_decode (c # d # rest)
      else if 224 \<le> (of_char a :: int) \<and> (of_char a :: int) < 240 \<and> is_cont b \<and> is_cont c
        then (((of_char a - 224) * 64 + cont_bits b) * 64 + cont_bits c) # utf8_decode (d # rest)
      else if 240 \<le> (of_char a :: int) \<and> (of_char a :: int) < 248
              \<and> is_cont b \<and> is_cont c \<and> is_cont d
        then ((((of_char a - 240) * 64 + cont_bits b) * 64 + cont_bits c) * 64 + cont_bits d)
             # utf8_decode rest
      else UNICODE_ERROR # utf8_decode (b # c # d # rest))"

definition utf8_valid :: "string \<Rightarrow> bool" where
  "utf8_valid s = (UNICODE_ERROR \<notin> set (utf8_decode s))"

definition string_push_u :: "string \<Rightarrow> int \<Rightarrow> string" where
  "string_push_u out u =
     (if u < 128 then out @ [char_of u]
      else if u < 2048 then out @ [char_of (192 + u div 64), char_of (128 + u mod 64)]
      else if u < 65536
        then out @ [char_of (224 + u div 4096), char_of (128 + u div 64 mod 64),
                    char_of (128 + u mod 64)]
      else out @ [char_of (240 + u div 262144 mod 8), char_of (128 + u div 4096 mod 64),
                  char_of (128 + u div 64 mod 64), char_of (128 + u mod 64)])"

text \<open>\<^verbatim>\<open>"\\u%04X"\<close> of a 16-bit value.\<close>

definition hex4 :: "int \<Rightarrow> string" where
  "hex4 v = CHR 0x5C # CHR ''u'' # zero_pad 4 (show_nat 16 v)"

text \<open>
  One step of the loop of \<^verbatim>\<open>slash_escape\<close>, for the code point \<open>chr\<close>. The surrogate
  pair is computed in \<^verbatim>\<open>uint32_t\<close> and narrowed to \<^verbatim>\<open>uint16_t\<close>.
\<close>

definition slash_escape_chr :: "char \<Rightarrow> string \<Rightarrow> int \<Rightarrow> string" where
  "slash_escape_chr quote out chr =
     (if chr = of_char quote then out @ [CHR 0x5C, quote]
      else if chr = 0x08 then out @ [CHR 0x5C, CHR ''b'']
      else if chr = 0x0C then out @ [CHR 0x5C, CHR ''f'']
      else if chr = 0x0A then out @ [CHR 0x5C, CHR ''n'']
      else if chr = 0x0D then out @ [CHR 0x5C, CHR ''r'']
      else if chr = 0x09 then out @ [CHR 0x5C, CHR ''t'']
      else if chr \<le> 0xFF \<and> isprint chr then string_push_u out chr
      else if chr \<le> 0xD7FF \<or> (0xE000 \<le> chr \<and> chr \<le> 0xFFFF)
        then out @ hex4 (chr mod 65536)
      else (let uprime = (chr - 0x10000) mod 2 ^ 32;
                high = (0xD800 + uprime div 1024) mod 65536;
                low = (0xDC00 + uprime mod 1024) mod 65536
            in out @ hex4 high @ hex4 low))"

text \<open>
  \<^verbatim>\<open>slash_escape\<close>: nothing for data of length zero; otherwise the text at \<^verbatim>\<open>in->ptr\<close>
  up to its NUL is walked by code points. It always returns zero.
\<close>

definition slash_escape :: "string \<Rightarrow> string \<Rightarrow> char \<Rightarrow> int \<times> string" where
  "slash_escape out inp quote =
     (if length inp = 0 then (0, out)
      else (0, foldl (slash_escape_chr quote) out (utf8_decode (cstr inp))))"

text \<open>
  \<^verbatim>\<open>take_hex_2byte\<close>, as \<^verbatim>\<open>take_hex_1byte\<close> with four characters and a \<^verbatim>\<open>uint16_t\<close>.
\<close>

definition take_hex_2byte :: "string \<Rightarrow> string \<Rightarrow> int \<times> int \<times> string" where
  "take_hex_2byte curs end =
     (if length curs < length end + 4 then (1, 0, curs)
      else (let buf = take 4 curs;
                (v, numend) = strtoul buf 16
            in (if numend < 4 then 2 else 0, v mod 65536, drop 4 curs)))"

text \<open>
  The \<^verbatim>\<open>u\<close> case of \<^verbatim>\<open>slash_unescape\<close>, with the cursor after the letter: \<open>None\<close> is
  \<^verbatim>\<open>retval = 5; break\<close>, otherwise the code point and the cursor after it. \<^verbatim>\<open>unival\<close> is a
  32-bit unsigned value.
\<close>

definition unescape_u :: "string \<Rightarrow> string \<Rightarrow> (int \<times> string) option" where
  "unescape_u curs end =
     (case take_hex_2byte curs end of
        (rc, val, curs) \<Rightarrow>
          if rc \<noteq> 0 then None
          else if 0xD800 \<le> val \<and> val \<le> 0xDFFF
            then (let unival = push_bit 10 (word_of_int (val - 0xD800) :: 32 word)
                  in if length curs \<le> length end + 2 then None
                     else if peek curs \<noteq> CHR 0x5C then None
                     else if peek (drop 1 curs) \<noteq> CHR ''u'' then None
                     else (case take_hex_2byte (drop 2 curs) end of
                             (rc, val, curs) \<Rightarrow>
                               if rc \<noteq> 0 then None
                               else Some (uint ((unival OR word_of_int (val - 0xDC00)) + 0x10000),
                                          curs)))
          else Some (val, curs))"

text \<open>The loop of \<^verbatim>\<open>slash_unescape\<close>: \<^verbatim>\<open>retval\<close> and the output at its end.\<close>

function slash_unescape_loop :: "string \<Rightarrow> string \<Rightarrow> string \<Rightarrow> int \<times> string" where
  "slash_unescape_loop end curs out =
     (if length curs \<le> length end then (0, out)
      else (let partlen = (case strchr curs (CHR 0x5C) of
                             None \<Rightarrow> length curs - length end
                           | Some partend \<Rightarrow> partend);
                out = (if partlen \<noteq> 0 then out @ printf_s partlen curs else out)
            in if length curs - length end < partlen + 1 then (0, out)
               else if length curs - length end = partlen + 1 then (3, out)
               else (let curs = drop (partlen + 1) curs
                     in if peek curs = CHR ''b'' then slash_unescape_loop end (drop 1 curs) (out @ [CHR 0x08])
                        else if peek curs = CHR ''f'' then slash_unescape_loop end (drop 1 curs) (out @ [CHR 0x0C])
                        else if peek curs = CHR ''n'' then slash_unescape_loop end (drop 1 curs) (out @ [CHR 0x0A])
                        else if peek curs = CHR ''r'' then slash_unescape_loop end (drop 1 curs) (out @ [CHR 0x0D])
                        else if peek curs = CHR ''t'' then slash_unescape_loop end (drop 1 curs) (out @ [CHR 0x09])
                        else if peek curs = CHR ''u''
                          then (case unescape_u (drop 1 curs) end of
                                  None \<Rightarrow> (5, out)
                                | Some (unival, rest) \<Rightarrow>
                                    slash_unescape_loop end rest (string_push_u out unival))
                        else slash_unescape_loop end (drop 1 curs) (out @ [peek curs]))))"
  by pat_completeness auto

lemma unescape_u_advances:
  assumes "unescape_u curs end = Some (v, rest)"
  shows "length rest < length curs"
proof -
  have h: "\<And>c rc val r. take_hex_2byte c end = (rc, val, r) \<Longrightarrow> rc = 0 \<Longrightarrow> length r < length c"
    by (auto simp: take_hex_2byte_def Let_def split: if_splits prod.splits)
  obtain rc val r where t: "take_hex_2byte curs end = (rc, val, r)"
    by (cases "take_hex_2byte curs end") auto
  show ?thesis
  proof (cases "rc = 0")
    case False
    with assms t show ?thesis by (simp add: unescape_u_def)
  next
    case True
    note r = h [OF t True]
    show ?thesis
    proof (cases "0xD800 \<le> val \<and> val \<le> 0xDFFF")
      case False
      with assms t True r show ?thesis by (auto simp: unescape_u_def)
    next
      case sur: True
      obtain rc2 val2 r2 where t2: "take_hex_2byte (drop 2 r) end = (rc2, val2, r2)"
        by (cases "take_hex_2byte (drop 2 r) end") auto
      show ?thesis
      proof (cases "rc2 = 0")
        case False
        with assms t True sur t2 show ?thesis
          by (auto simp: unescape_u_def Let_def split: if_splits)
      next
        case z: True
        have "length r2 < length (drop 2 r)" by (rule h [OF t2 z])
        with assms t True sur t2 z r show ?thesis
          by (auto simp: unescape_u_def Let_def split: if_splits)
      qed
    qed
  qed
qed

termination slash_unescape_loop
  by (relation "measure (\<lambda>(end, curs, out). length curs)")
     (auto dest!: unescape_u_advances)

declare slash_unescape_loop.simps [simp del]

text \<open>
  \<^verbatim>\<open>slash_unescape\<close>: the input gets a terminating NUL when it has none, so the loop
  reads \<^verbatim>\<open>in_len\<close> bytes followed by a NUL.
\<close>

definition slash_unescape :: "string \<Rightarrow> string \<Rightarrow> int \<times> string" where
  "slash_unescape out inp =
     (let in_len = text_real_len inp
      in if in_len = 0 then (0, out)
         else slash_unescape_loop [CHR 0x00] (take in_len inp @ [CHR 0x00]) out)"

subsection \<open>Identity test, UTF-8 test, base16 and base64\<close>

definition id_text_first :: string where
  "id_text_first = ''ABCDEFGHIJKLMNOPQRSTUVWXYZabcdefghijklmnopqrstuvwxyz_''"

definition id_text_rest :: string where
  "id_text_rest = ''ABCDEFGHIJKLMNOPQRSTUVWXYZabcdefghijklmnopqrstuvwxyz0123456789_.-''"

definition ari_text_is_identity :: "string \<Rightarrow> bool" where
  "ari_text_is_identity text =
     (let in_len = text_real_len text
      in if in_len < 1 then False
         else if strchr id_text_first (peek text) = None then False
         else if strspn (drop 1 text) id_text_rest < in_len - 1 then False
         else True)"

text \<open>\<^verbatim>\<open>memchr\<close> must find the first NUL at the last byte.\<close>

definition ari_data_is_utf8 :: "string \<Rightarrow> bool" where
  "ari_data_is_utf8 inp =
     (if length inp = 0 then False
      else if index_of (CHR 0x00) inp \<noteq> Some (length inp - 1) then False
      else utf8_valid (cstr inp))"

definition base16_encode :: "string \<Rightarrow> string \<Rightarrow> bool \<Rightarrow> int \<times> string" where
  "base16_encode out inp uppercase =
     (0, out @ concat (map (\<lambda>c. if uppercase then hex2 c else map tolower (hex2 c)) inp))"

definition base64_alphabet :: string where
  "base64_alphabet = ''ABCDEFGHIJKLMNOPQRSTUVWXYZabcdefghijklmnopqrstuvwxyz0123456789+/''"

definition base64url_alphabet :: string where
  "base64url_alphabet = ''ABCDEFGHIJKLMNOPQRSTUVWXYZabcdefghijklmnopqrstuvwxyz0123456789-_''"

text \<open>
  The loop of \<^verbatim>\<open>base64_encode\<close> takes three bytes at a time; \<^verbatim>\<open>out_len\<close> reaches zero
  after the last group, which is padded when the input ran out.
\<close>

fun base64_groups :: "string \<Rightarrow> string \<Rightarrow> string" where
  "base64_groups abet [] = []"
| "base64_groups abet [a] =
     [abet ! nat (of_char a div 4 mod 64), abet ! nat (of_char a * 16 mod 64), CHR ''='', CHR ''='']"
| "base64_groups abet [a, b] =
     [abet ! nat (of_char a div 4 mod 64),
      abet ! nat ((of_char a * 16 mod 256 + of_char b div 16) mod 64),
      abet ! nat (of_char b * 4 mod 64), CHR ''='']"
| "base64_groups abet (a # b # c # rest) =
     [abet ! nat (of_char a div 4 mod 64),
      abet ! nat ((of_char a * 16 mod 256 + of_char b div 16) mod 64),
      abet ! nat ((of_char b * 4 mod 256 + of_char c div 64) mod 64),
      abet ! nat (of_char c mod 64)] @ base64_groups abet rest"

definition base64_encode :: "string \<Rightarrow> string \<Rightarrow> bool \<Rightarrow> int \<times> string" where
  "base64_encode out inp useurl =
     (0, out @ base64_groups (if useurl then base64url_alphabet else base64_alphabet) inp)"

subsection \<open>Numbers with a fraction, and UTC timestamps\<close>

text \<open>
  The float formats of \<^verbatim>\<open>printf\<close> are a parameter \<open>printf_double\<close>: the text for a format
  letter and the bits of a finite value. NaN and the infinities never reach it.
\<close>

definition ari_float64_encode ::
  "(char \<Rightarrow> 64 word \<Rightarrow> string) \<Rightarrow> string \<Rightarrow> 64 word \<Rightarrow> char \<Rightarrow> int \<times> string" where
  "ari_float64_encode printf_double out v form =
     (if isnan v then (0, out @ ''NaN'')
      else if isinf v
        then (0, out @ [if v AND 0x8000000000000000 \<noteq> 0 then CHR ''-'' else CHR ''+''] @ ''Infinity'')
      else if form = CHR ''f'' then (0, out @ printf_double (CHR ''f'') v)
      else if form = CHR ''g'' then (0, out @ printf_double (CHR ''g'') v)
      else if form = CHR ''e'' then (0, out @ printf_double (CHR ''e'') v)
      else if form = CHR ''a'' then (0, out @ printf_double (CHR ''a'') v)
      else (1, out))"

text \<open>
  \<^verbatim>\<open>gmtime_r\<close>: the calendar date and time of day of a POSIX time in UTC, or \<open>None\<close>
  (a null result) when the year does not fit \<^verbatim>\<open>tm_year\<close>. The year is the calendar
  year, \<^verbatim>\<open>tm_year + 1900\<close>; the month counts from 1.
\<close>

record tm =
  tm_year :: int
  tm_mon :: int
  tm_mday :: int
  tm_hour :: int
  tm_min :: int
  tm_sec :: int

definition gmtime_r :: "int \<Rightarrow> tm option" where
  "gmtime_r t =
     (let days = t div 86400;
          secs = t mod 86400;
          z = days + 719468;
          era = z div 146097;
          doe = z mod 146097;
          yoe = (doe - doe div 1460 + doe div 36524 - doe div 146096) div 365;
          doy = doe - (365 * yoe + yoe div 4 - yoe div 100);
          mp = (5 * doy + 2) div 153;
          d = doy - (153 * mp + 2) div 5 + 1;
          m = (if mp < 10 then mp + 3 else mp - 9);
          y = yoe + era * 400 + (if m \<le> 2 then 1 else 0)
      in if y - 1900 < - (2 ^ 31) \<or> 2 ^ 31 \<le> y - 1900 then None
         else Some \<lparr>tm_year = y, tm_mon = m, tm_mday = d, tm_hour = secs div 3600,
                    tm_min = secs mod 3600 div 60, tm_sec = secs mod 60\<rparr>)"

text \<open>
  \<^verbatim>\<open>strftime\<close> with one of the two formats of \<^verbatim>\<open>utctime_encode\<close> into \<^verbatim>\<open>char fullsec[20]\<close>:
  \<open>None\<close> when the text and its NUL do not fit, which leaves the array indeterminate.
\<close>

definition strftime_utc :: "bool \<Rightarrow> tm \<Rightarrow> string option" where
  "strftime_utc usesep parts =
     (let d2 = (\<lambda>v. zero_pad 2 (show_nat 10 v));
          text = (if usesep
                  then show_int (tm_year parts) @ ''-'' @ d2 (tm_mon parts) @ ''-'' @ d2 (tm_mday parts)
                       @ ''T'' @ d2 (tm_hour parts) @ '':'' @ d2 (tm_min parts) @ '':''
                       @ d2 (tm_sec parts)
                  else show_int (tm_year parts) @ d2 (tm_mon parts) @ d2 (tm_mday parts)
                       @ ''T'' @ d2 (tm_hour parts) @ d2 (tm_min parts) @ d2 (tm_sec parts))
      in if length text < 20 then Some text else None)"

definition dtn_epoch :: int where
  "dtn_epoch = 946684800"

text \<open>
  \<^verbatim>\<open>utctime_encode\<close>. \<open>junk\<close> stands for the contents of \<^verbatim>\<open>fullsec\<close> when \<^verbatim>\<open>strftime\<close>
  wrote nothing; the function does not test for it.
\<close>

definition utctime_encode :: "string \<Rightarrow> string \<Rightarrow> timespec \<Rightarrow> bool \<Rightarrow> int \<times> string" where
  "utctime_encode junk out inp usesep =
     (case gmtime_r (s64 (dtn_epoch + tv_sec inp)) of
        None \<Rightarrow> (2, out)
      | Some parts \<Rightarrow>
          (let out = out @ cstr (the_default junk (strftime_utc usesep parts));
               out = subsec_encode out (u64 (tv_nsec inp))
           in (0, out @ [CHR ''Z''])))"

section \<open>The text encoder: \<^verbatim>\<open>ari_text_encode\<close>\<close>

datatype ari_text_scheme_prefix =
  ARI_TEXT_SCHEME_NONE | ARI_TEXT_SCHEME_FIRST | ARI_TEXT_SCHEME_ALL

datatype ari_text_aritype =
  ARI_TEXT_ARITYPE_ORIG | ARI_TEXT_ARITYPE_TEXT | ARI_TEXT_ARITYPE_INT

datatype ari_bstr_form =
  ARI_TEXT_BSTR_RAW | ARI_TEXT_BSTR_BASE16 | ARI_TEXT_BSTR_BASE64URL

text \<open>
  \<^verbatim>\<open>ari_text_enc_opts_t\<close>. \<^verbatim>\<open>int_base\<close> is an enumeration that the encoder casts to
  \<^verbatim>\<open>int\<close>; it is kept as the integer, so that a base other than 2, 10 and 16 can be
  written.
\<close>

record ari_text_enc_opts =
  scheme_prefix :: ari_text_scheme_prefix
  show_ari_type :: ari_text_aritype
  int_base :: int
  float_form :: char
  text_identity :: bool
  bstr_form :: ari_bstr_form
  time_text :: bool

definition ARI_TEXT_ENC_OPTS_DEFAULT :: ari_text_enc_opts where
  "ARI_TEXT_ENC_OPTS_DEFAULT =
     \<lparr>scheme_prefix = ARI_TEXT_SCHEME_FIRST, show_ari_type = ARI_TEXT_ARITYPE_TEXT,
      int_base = 10, float_form = CHR ''g'', text_identity = True,
      bstr_form = ARI_TEXT_BSTR_BASE16, time_text = True\<rparr>"

text \<open>
  What the encoder takes from outside the sources: the values of the enumerators of
  \<^verbatim>\<open>ari_type_t\<close>, the float formats of \<^verbatim>\<open>printf\<close>, the contents of an array that
  \<^verbatim>\<open>strftime\<close> did not write, and the text of a \<^verbatim>\<open>PRId64\<close> conversion that is given
  an enumerator. An enumerator is passed to \<^verbatim>\<open>printf\<close> as an \<^verbatim>\<open>int\<close>, and the conversion
  reads 64 bits: what it prints for a value is left to the platform (a negative value
  need not come out negative).
\<close>

record platform =
  pf_type_code :: "ari_type \<Rightarrow> int"
  pf_printf_double :: "char \<Rightarrow> 64 word \<Rightarrow> string"
  pf_fullsec :: string
  pf_printf_enum :: "int \<Rightarrow> string"

text \<open>\<^verbatim>\<open>ari_text_enc_state_t\<close>; the options are those behind the pointer \<^verbatim>\<open>opts\<close>.\<close>

record ari_text_enc_state =
  enc_out :: string
  enc_depth :: int
  enc_opts :: ari_text_enc_opts

definition uri_safe :: string where
  "uri_safe = [CHR 0x21, CHR 0x27, CHR ''+'', CHR '':'', CHR ''@'']"

definition push :: "ari_text_enc_state \<Rightarrow> string \<Rightarrow> ari_text_enc_state" where
  "push st s = st\<lparr>enc_out := enc_out st @ s\<rparr>"

text \<open>
  The view of \<^verbatim>\<open>ari_text_percent_helper\<close> holds the text of \<^verbatim>\<open>buf\<close> and its NUL, at which
  every read of the encoder stops; of the memory after the view nothing is given.
\<close>

definition ari_text_percent_helper :: "string \<Rightarrow> string \<Rightarrow> int \<times> string" where
  "ari_text_percent_helper out buf = uri_percent_encode out (buf @ [CHR 0x00]) [] uri_safe"

definition ari_text_encode_prefix :: "ari_text_enc_state \<Rightarrow> ari_text_enc_state" where
  "ari_text_encode_prefix st =
     (case scheme_prefix (enc_opts st) of
        ARI_TEXT_SCHEME_NONE \<Rightarrow> st
      | ARI_TEXT_SCHEME_FIRST \<Rightarrow> if enc_depth st > 0 then st else push st ''ari:''
      | ARI_TEXT_SCHEME_ALL \<Rightarrow> push st ''ari:'')"

definition ari_text_encode_idseg :: "ari_text_enc_state \<Rightarrow> ari_idseg \<Rightarrow> int \<times> ari_text_enc_state" where
  "ari_text_encode_idseg st obj =
     (case obj of
        ARI_IDSEG_NULL \<Rightarrow> (0, st)
      | ARI_IDSEG_TEXT t \<Rightarrow> (0, push st t)
      | ARI_IDSEG_INT i \<Rightarrow> (0, push st (show_int i)))"

text \<open>
  \<^verbatim>\<open>ari_text_encode_aritype\<close>, with \<^verbatim>\<open>ari_type_to_name\<close> of the build that scans the
  table. \<open>idseg\<close> is \<open>None\<close> for a null pointer.
\<close>

definition ari_text_encode_aritype ::
  "platform \<Rightarrow> ari_text_enc_state \<Rightarrow> ari_type \<Rightarrow> ari_idseg option \<Rightarrow> ari_text_enc_state" where
  "ari_text_encode_aritype pf st val idseg =
     (let by_name = (\<lambda>name. case name of
                       Some n \<Rightarrow> push st n
                     | None \<Rightarrow> push st (pf_printf_enum pf (pf_type_code pf val)))
      in case show_ari_type (enc_opts st) of
           ARI_TEXT_ARITYPE_TEXT \<Rightarrow> by_name (ari_type_to_name (pf_type_code pf) (pf_type_code pf val))
         | ARI_TEXT_ARITYPE_INT \<Rightarrow> by_name None
         | ARI_TEXT_ARITYPE_ORIG \<Rightarrow>
             (case idseg of
                Some seg \<Rightarrow> snd (ari_text_encode_idseg st seg)
              | None \<Rightarrow> by_name (ari_type_to_name (pf_type_code pf) (pf_type_code pf val))))"

text \<open>
  The members of the \<^verbatim>\<open>value\<close> union that the encoder reads. A literal whose value is
  not the member read is outside the value model; the zero bytes are read then.
\<close>

definition val_timespec :: "ari_value \<Rightarrow> timespec" where
  "val_timespec v = (case v of as_timespec t \<Rightarrow> t | _ \<Rightarrow> \<lparr>tv_sec = 0, tv_nsec = 0\<rparr>)"

definition val_bool :: "ari_value \<Rightarrow> bool" where
  "val_bool v = (case v of as_bool b \<Rightarrow> b | _ \<Rightarrow> False)"

definition val_word :: "ari_value \<Rightarrow> 64 word" where
  "val_word v = (case v of as_uint64 w \<Rightarrow> w | as_int64 w \<Rightarrow> w | as_float64 w \<Rightarrow> w | _ \<Rightarrow> 0)"

definition val_data :: "ari_value \<Rightarrow> string" where
  "val_data v = (case v of as_data d \<Rightarrow> d | _ \<Rightarrow> [])"

text \<open>
  The second \<^verbatim>\<open>switch\<close> of \<^verbatim>\<open>ari_text_encode_lit\<close>, on \<^verbatim>\<open>prim_type\<close>, to the end of the
  function. The result of \<^verbatim>\<open>ari_float64_encode\<close> is not read. The negation of the least
  \<^verbatim>\<open>int64_t\<close> wraps. The data of a text string is read as a C string, up to its first
  NUL; the model gives that read the bytes of the data only, so the data of a text
  string is taken to hold its terminator.
\<close>

definition ari_text_encode_prim ::
  "platform \<Rightarrow> ari_text_enc_state \<Rightarrow> ari_prim_type \<Rightarrow> ari_value \<Rightarrow> int \<times> ari_text_enc_state" where
  "ari_text_encode_prim pf st prim val =
     (case prim of
        ARI_PRIM_UNDEFINED \<Rightarrow> (0, push st ''undefined'')
      | ARI_PRIM_NULL \<Rightarrow> (0, push st ''null'')
      | ARI_PRIM_BOOL \<Rightarrow> (0, push st (if val_bool val then ''true'' else ''false''))
      | ARI_PRIM_UINT64 \<Rightarrow>
          (case ari_uint64_encode (enc_out st) (val_word val) (int_base (enc_opts st)) of
             (rc, out) \<Rightarrow> if rc \<noteq> 0 then (2, st\<lparr>enc_out := out\<rparr>) else (0, st\<lparr>enc_out := out\<rparr>))
      | ARI_PRIM_INT64 \<Rightarrow>
          (let neg = (sint (val_word val) < 0);
               absval = (if neg then - val_word val else val_word val);
               st = (if neg then push st ''-'' else st)
           in case ari_uint64_encode (enc_out st) absval (int_base (enc_opts st)) of
                (rc, out) \<Rightarrow> if rc \<noteq> 0 then (2, st\<lparr>enc_out := out\<rparr>) else (0, st\<lparr>enc_out := out\<rparr>))
      | ARI_PRIM_FLOAT64 \<Rightarrow>
          (0, st\<lparr>enc_out := snd (ari_float64_encode (pf_printf_double pf) (enc_out st) (val_word val)
                                   (float_form (enc_opts st)))\<rparr>)
      | ARI_PRIM_TSTR \<Rightarrow>
          (if text_identity (enc_opts st) \<and> ari_text_is_identity (val_data val)
           then (0, push st (cstr (val_data val)))
           else (let buf = [CHR 0x22];
                     buf = snd (slash_escape buf (val_data val) (CHR 0x22));
                     buf = buf @ [CHR 0x22]
                 in (0, st\<lparr>enc_out := snd (ari_text_percent_helper (enc_out st) buf)\<rparr>)))
      | ARI_PRIM_BSTR \<Rightarrow>
          (case bstr_form (enc_opts st) of
             ARI_TEXT_BSTR_RAW \<Rightarrow>
               (let terminated = val_data val @ [CHR 0x00]
                in if ari_data_is_utf8 terminated
                   then (let buf = [CHR 0x27];
                             buf = snd (slash_escape buf terminated (CHR 0x27));
                             buf = buf @ [CHR 0x27]
                         in (0, st\<lparr>enc_out := snd (ari_text_percent_helper (enc_out st) buf)\<rparr>))
                   else (0, push (st\<lparr>enc_out := snd (base16_encode (enc_out st @ [CHR ''h'', CHR 0x27])
                                                         (val_data val) True)\<rparr>) [CHR 0x27]))
           | ARI_TEXT_BSTR_BASE16 \<Rightarrow>
               (0, push (st\<lparr>enc_out := snd (base16_encode (enc_out st @ [CHR ''h'', CHR 0x27])
                                              (val_data val) True)\<rparr>) [CHR 0x27])
           | ARI_TEXT_BSTR_BASE64URL \<Rightarrow>
               (0, push (st\<lparr>enc_out := snd (base64_encode (enc_out st @ ''b64'' @ [CHR 0x27])
                                              (val_data val) True)\<rparr>) [CHR 0x27]))
      | ARI_PRIM_TIMESPEC \<Rightarrow> (0, st)
      | ARI_PRIM_OTHER \<Rightarrow> (0, st))"

text \<open>
  The cases \<^verbatim>\<open>ARI_TYPE_TP\<close> and \<^verbatim>\<open>ARI_TYPE_TD\<close> of the first \<^verbatim>\<open>switch\<close>: the return code
  of the codec and the state after it.
\<close>

definition ari_text_encode_time ::
  "platform \<Rightarrow> ari_text_enc_state \<Rightarrow> bool \<Rightarrow> timespec \<Rightarrow> int \<times> ari_text_enc_state" where
  "ari_text_encode_time pf st is_tp ts =
     (case (if \<not> time_text (enc_opts st) then decfrac_encode (enc_out st) ts
            else if is_tp then utctime_encode (pf_fullsec pf) (enc_out st) ts False
            else timeperiod_encode (enc_out st) ts) of
        (rc, out) \<Rightarrow> (rc, st\<lparr>enc_out := out\<rparr>))"

text \<open>The rows that the two loops of \<^verbatim>\<open>ari_text_encode_tbl\<close> walk with one iterator.\<close>

primrec tbl_rows :: "nat \<Rightarrow> nat \<Rightarrow> ari list \<Rightarrow> ari list list" where
  "tbl_rows 0 ncols items = []"
| "tbl_rows (Suc nrows) ncols items = take ncols items # tbl_rows nrows ncols (drop ncols items)"

text \<open>
  The encoder proper. Each function gives its return code and the state after it.
  \<open>encode_items\<close> is the loop over a list of ARIs that \<^verbatim>\<open>ari_text_encode_ac\<close>,
  \<^verbatim>\<open>ari_text_encode_execset\<close>, \<^verbatim>\<open>ari_text_encode_report\<close> and the inner loop of
  \<^verbatim>\<open>ari_text_encode_tbl\<close> have in common, \<open>encode_pairs\<close> the loop of
  \<^verbatim>\<open>ari_text_encode_am\<close>, \<open>encode_rows\<close> the outer loop of \<^verbatim>\<open>ari_text_encode_tbl\<close>, and
  \<open>encode_reports\<close> the loop of \<^verbatim>\<open>ari_text_encode_rptset\<close>; \<open>sep\<close> is the local of that
  name, and the code they give is \<^verbatim>\<open>retval\<close> at the end of the loop.
\<close>

function
  ari_text_encode_stream :: "platform \<Rightarrow> ari_text_enc_state \<Rightarrow> ari \<Rightarrow> int \<times> ari_text_enc_state" and
  ari_text_encode_lit :: "platform \<Rightarrow> ari_text_enc_state \<Rightarrow> ari_lit \<Rightarrow> int \<times> ari_text_enc_state" and
  ari_text_encode_objref :: "platform \<Rightarrow> ari_text_enc_state \<Rightarrow> ari_ref \<Rightarrow> int \<times> ari_text_enc_state" and
  ari_text_encode_ac :: "platform \<Rightarrow> ari_text_enc_state \<Rightarrow> ari list \<Rightarrow> int \<times> ari_text_enc_state" and
  ari_text_encode_am :: "platform \<Rightarrow> ari_text_enc_state \<Rightarrow> (ari \<times> ari) list \<Rightarrow> int \<times> ari_text_enc_state" and
  ari_text_encode_tbl :: "platform \<Rightarrow> ari_text_enc_state \<Rightarrow> nat \<Rightarrow> ari list \<Rightarrow> int \<times> ari_text_enc_state" and
  ari_text_encode_execset :: "platform \<Rightarrow> ari_text_enc_state \<Rightarrow> ari \<Rightarrow> ari list \<Rightarrow> int \<times> ari_text_enc_state" and
  ari_text_encode_report :: "platform \<Rightarrow> ari_text_enc_state \<Rightarrow> ari_report \<Rightarrow> int \<times> ari_text_enc_state" and
  ari_text_encode_rptset :: "platform \<Rightarrow> ari_text_enc_state \<Rightarrow> ari \<Rightarrow> ari \<Rightarrow> ari_report list
                               \<Rightarrow> int \<times> ari_text_enc_state" and
  encode_items :: "platform \<Rightarrow> ari_text_enc_state \<Rightarrow> bool \<Rightarrow> ari list \<Rightarrow> int \<times> ari_text_enc_state" and
  encode_pairs :: "platform \<Rightarrow> ari_text_enc_state \<Rightarrow> bool \<Rightarrow> (ari \<times> ari) list \<Rightarrow> int \<times> ari_text_enc_state" and
  encode_rows :: "platform \<Rightarrow> ari_text_enc_state \<Rightarrow> ari list list \<Rightarrow> int \<times> ari_text_enc_state" and
  encode_reports :: "platform \<Rightarrow> ari_text_enc_state \<Rightarrow> ari_report list \<Rightarrow> int \<times> ari_text_enc_state"
where
  "ari_text_encode_stream pf st (ARI_REF obj) =
     (case ari_text_encode_objref pf st obj of (ret, st) \<Rightarrow> (0, st))"
| "ari_text_encode_stream pf st (ARI_LIT obj) =
     (case ari_text_encode_lit pf st obj of (ret, st) \<Rightarrow> (0, st))"
| "ari_text_encode_lit pf st (Lit has_type type prim val) =
     (let st = ari_text_encode_prefix st
      in if \<not> has_type then ari_text_encode_prim pf st prim val
         else (let st = push st ''/'';
                   st = ari_text_encode_aritype pf st type None;
                   st = push st ''/''
               in if type = ARI_TYPE_TP \<or> type = ARI_TYPE_TD
                    then (case ari_text_encode_time pf st (type = ARI_TYPE_TP) (val_timespec val) of
                            (rc, st) \<Rightarrow> if rc \<noteq> 0 then (2, st)
                                         else ari_text_encode_prim pf st prim val)
                  else if type = ARI_TYPE_AC
                    then (case val of
                            as_ac items \<Rightarrow>
                              (case ari_text_encode_ac pf st items of
                                 (ret, st) \<Rightarrow> ari_text_encode_prim pf st prim val)
                          | _ \<Rightarrow> ari_text_encode_prim pf st prim val)
                  else if type = ARI_TYPE_AM
                    then (case val of
                            as_am pairs \<Rightarrow>
                              (case ari_text_encode_am pf st pairs of
                                 (ret, st) \<Rightarrow> ari_text_encode_prim pf st prim val)
                          | _ \<Rightarrow> ari_text_encode_prim pf st prim val)
                  else if type = ARI_TYPE_TBL
                    then (case val of
                            as_tbl ncols items \<Rightarrow>
                              (case ari_text_encode_tbl pf st ncols items of
                                 (ret, st) \<Rightarrow> ari_text_encode_prim pf st prim val)
                          | _ \<Rightarrow> ari_text_encode_prim pf st prim val)
                  else if type = ARI_TYPE_EXECSET
                    then (case val of
                            as_execset nonce targets \<Rightarrow>
                              (case ari_text_encode_execset pf st nonce targets of
                                 (ret, st) \<Rightarrow> ari_text_encode_prim pf st prim val)
                          | _ \<Rightarrow> ari_text_encode_prim pf st prim val)
                  else if type = ARI_TYPE_RPTSET
                    then (case val of
                            as_rptset nonce reftime reports \<Rightarrow>
                              (case ari_text_encode_rptset pf st nonce reftime reports of
                                 (ret, st) \<Rightarrow> ari_text_encode_prim pf st prim val)
                          | _ \<Rightarrow> ari_text_encode_prim pf st prim val)
                  else ari_text_encode_prim pf st prim val))"
| "ari_text_encode_objref pf st (Ref path (Params state ctr)) =
     (let st = ari_text_encode_prefix st;
          st = push st ''//'';
          st = snd (ari_text_encode_idseg st (ns_id path));
          st = push st ''/''
      in if type_id path = ARI_IDSEG_NULL then (0, st)
         else (let st = (if has_ari_type path
                         then ari_text_encode_aritype pf st (ari_type path) (Some (type_id path))
                         else snd (ari_text_encode_idseg st (type_id path)));
                   st = push st ''/'';
                   st = snd (ari_text_encode_idseg st (obj_id path))
               in if state = ARI_PARAMS_AC
                    then (case ctr of
                            as_ac items \<Rightarrow> (0, snd (ari_text_encode_ac pf st items))
                          | _ \<Rightarrow> (0, st))
                  else if state = ARI_PARAMS_AM
                    then (case ctr of
                            as_am pairs \<Rightarrow> (0, snd (ari_text_encode_am pf st pairs))
                          | _ \<Rightarrow> (0, st))
                  else (0, st)))"
| "ari_text_encode_ac pf st items =
     (let st = st\<lparr>enc_depth := enc_depth st + 1\<rparr>;
          st = push st ''(''
      in case encode_items pf st False items of
           (retval, st) \<Rightarrow> (retval, push (st\<lparr>enc_depth := enc_depth st - 1\<rparr>) '')''))"
| "ari_text_encode_am pf st pairs =
     (let st = st\<lparr>enc_depth := enc_depth st + 1\<rparr>;
          st = push st ''(''
      in case encode_pairs pf st False pairs of
           (retval, st) \<Rightarrow> (retval, push (st\<lparr>enc_depth := enc_depth st - 1\<rparr>) '')''))"
| "ari_text_encode_tbl pf st ncols items =
     (let st = push st (''c='' @ show_nat 10 (int ncols) @ '';'')
      in if ncols = 0 then (0, st)
         else (let st = st\<lparr>enc_depth := enc_depth st + 1\<rparr>
               in case encode_rows pf st (tbl_rows (length items div ncols) ncols items) of
                    (retval, st) \<Rightarrow> (retval, st\<lparr>enc_depth := enc_depth st - 1\<rparr>)))"
| "ari_text_encode_execset pf st nonce targets =
     (let saveopts = enc_opts st;
          st = st\<lparr>enc_opts := (enc_opts st)\<lparr>scheme_prefix := ARI_TEXT_SCHEME_NONE\<rparr>\<rparr>;
          st = push st ''n=''
      in case ari_text_encode_stream pf st nonce of
           (ret, st) \<Rightarrow>
      (let st = push st '';'';
           st = st\<lparr>enc_opts := saveopts\<rparr>;
           st = st\<lparr>enc_depth := enc_depth st + 1\<rparr>;
           st = push st ''(''
       in case encode_items pf st False targets of
            (retval, st) \<Rightarrow> (retval, push (st\<lparr>enc_depth := enc_depth st - 1\<rparr>) '')'')))"
| "ari_text_encode_report pf st (Report reltime source items) =
     (let st = push st ''('';
          saveopts = enc_opts st;
          st = st\<lparr>enc_opts := (enc_opts st)\<lparr>scheme_prefix := ARI_TEXT_SCHEME_NONE\<rparr>\<rparr>;
          st = push st ''t=''
      in case ari_text_encode_stream pf st reltime of
           (ret, st) \<Rightarrow>
      (let st = push st '';'';
           st = push st ''s=''
       in case ari_text_encode_stream pf st source of
            (ret, st) \<Rightarrow>
      (let st = push st '';'';
           st = st\<lparr>enc_opts := saveopts\<rparr>;
           st = push st ''(''
       in case encode_items pf st False items of
            (retval, st) \<Rightarrow> (retval, push (push st '')'') '')''))))"
| "ari_text_encode_rptset pf st nonce reftime reports =
     (let st = st\<lparr>enc_depth := enc_depth st + 1\<rparr>;
          saveopts = enc_opts st;
          st = st\<lparr>enc_opts := (enc_opts st)\<lparr>scheme_prefix := ARI_TEXT_SCHEME_NONE\<rparr>\<rparr>;
          st = push st ''n=''
      in case ari_text_encode_stream pf st nonce of
           (ret, st) \<Rightarrow>
      (let st = push st '';'';
           st = push st ''r=''
       in case ari_text_encode_stream pf st reftime of
            (ret, st) \<Rightarrow>
      (let st = push st '';'';
           st = st\<lparr>enc_opts := saveopts\<rparr>
       in case encode_reports pf st reports of
            (retval, st) \<Rightarrow> (retval, st\<lparr>enc_depth := enc_depth st - 1\<rparr>))))"
| "encode_items pf st sep [] = (0, st)"
| "encode_items pf st sep (item # rest) =
     (let st = (if sep then push st '','' else st)
      in case ari_text_encode_stream pf st item of
           (ret, st) \<Rightarrow> if ret \<noteq> 0 then (2, st) else encode_items pf st True rest)"
| "encode_pairs pf st sep [] = (0, st)"
| "encode_pairs pf st sep (pair # rest) =
     (let st = (if sep then push st '','' else st)
      in case ari_text_encode_stream pf st (fst pair) of
           (ret, st) \<Rightarrow>
             if ret \<noteq> 0 then (2, st)
             else (case ari_text_encode_stream pf (push st ''='') (snd pair) of
                     (ret, st) \<Rightarrow> if ret \<noteq> 0 then (2, st) else encode_pairs pf st True rest))"
| "encode_rows pf st [] = (0, st)"
| "encode_rows pf st (row # rest) =
     (case encode_items pf (push st ''('') False row of
        (retval, st) \<Rightarrow>
          if retval \<noteq> 0 then (retval, push st '')'') else encode_rows pf (push st '')'') rest)"
| "encode_reports pf st [] = (0, st)"
| "encode_reports pf st (rpt # rest) =
     (case ari_text_encode_report pf st rpt of
        (ret, st) \<Rightarrow> if ret \<noteq> 0 then (2, st) else encode_reports pf st rest)"
  by pat_completeness auto

lemma tbl_rows_size:
  "sum_list (map (size_list size) (tbl_rows nrows ncols items)) \<le> size_list size items"
proof (induction nrows arbitrary: items)
  case 0
  show ?case by simp
next
  case (Suc n)
  have "size_list size items = size_list size (take ncols items @ drop ncols items)"
    by simp
  also have "\<dots> = size_list size (take ncols items) + size_list size (drop ncols items)"
    by (simp only: size_list_append)
  finally show ?case using Suc [of "drop ncols items"] by simp
qed

termination ari_text_encode_stream
  by (relation "measures [case_sum
        (case_sum
           (case_sum (\<lambda>(pf, st, a). size a)
                     (case_sum (\<lambda>(pf, st, l). size l) (\<lambda>(pf, st, r). size r)))
           (case_sum (\<lambda>(pf, st, xs). size_list size xs + 1)
                     (case_sum (\<lambda>(pf, st, ps). size_list (size_prod size size) ps + 1)
                               (\<lambda>(pf, st, n, xs). size_list size xs + 1))))
        (case_sum
           (case_sum (\<lambda>(pf, st, n, xs). size n + size_list size xs + 1)
                     (case_sum (\<lambda>(pf, st, r). size r)
                               (\<lambda>(pf, st, n, r, rs). size n + size r + size_list size rs + 1)))
           (case_sum
              (case_sum (\<lambda>(pf, st, sep, xs). size_list size xs)
                        (\<lambda>(pf, st, sep, ps). size_list (size_prod size size) ps))
              (case_sum (\<lambda>(pf, st, rows). sum_list (map (size_list size) rows))
                        (\<lambda>(pf, st, rs). size_list size rs)))),
      case_sum (\<lambda>_. 0)
        (case_sum (\<lambda>_. 0)
           (case_sum (\<lambda>_. 0)
              (case_sum (\<lambda>(pf, st, rows). length rows + 1) (\<lambda>_. 0))))]")
     (auto simp: le_imp_less_Suc [OF tbl_rows_size])

text \<open>
  \<^verbatim>\<open>ari_text_encode\<close>: the return code and the caller's \<^verbatim>\<open>text\<close>, which is the text that
  was given when the function returns before \<^verbatim>\<open>string_move\<close>.
\<close>

definition ari_text_encode ::
  "platform \<Rightarrow> string \<Rightarrow> ari \<Rightarrow> ari_text_enc_opts \<Rightarrow> int \<times> string" where
  "ari_text_encode pf text a opts =
     (case ari_text_encode_stream pf \<lparr>enc_out = [], enc_depth = 0, enc_opts = opts\<rparr> a of
        (rc, st) \<Rightarrow> if rc \<noteq> 0 then (2, text) else (0, enc_out st))"

section \<open>Notions the proofs use\<close>

text \<open>The decimal digits, and the pieces of text \<^verbatim>\<open>timeperiod_encode\<close> produces.\<close>

definition dec_digits :: "char set" where
  "dec_digits = set ''0123456789''"

definition unit_text :: "int \<Rightarrow> char \<Rightarrow> int \<Rightarrow> string" where
  "unit_text unit letter fullsec =
     (if unit \<le> fullsec then show_int (fullsec div unit) @ [letter] else [])"

definition unit_rest :: "int \<Rightarrow> int \<Rightarrow> int" where
  "unit_rest unit fullsec = (if unit \<le> fullsec then fullsec mod unit else fullsec)"

definition sec_text :: "int \<Rightarrow> int \<Rightarrow> string" where
  "sec_text fullsec subsec =
     (if fullsec \<noteq> 0 \<or> subsec \<noteq> 0
      then show_int fullsec @ subsec_encode [] subsec @ [CHR ''S''] else [])"



text \<open>
  The digits of a number in the words of the specification: \<open>digits_value\<close> reads a
  text of digits of a base, upper case for those above nine, and \<open>minimal_digits\<close>
  says that a text is the shortest one for a value: not empty, no leading zero
  unless it is the single digit of zero.
\<close>

fun digits_value :: "int \<Rightarrow> string \<Rightarrow> int \<Rightarrow> int option" where
  "digits_value base [] acc = Some acc"
| "digits_value base (c # cs) acc =
     (case index_of c (take (nat base) ''0123456789ABCDEF'') of
        None \<Rightarrow> None
      | Some d \<Rightarrow> digits_value base cs (acc * base + int d))"

definition minimal_digits :: "int \<Rightarrow> string \<Rightarrow> int \<Rightarrow> bool" where
  "minimal_digits base ds v =
     (ds \<noteq> [] \<and> (ds = ''0'' \<or> hd ds \<noteq> CHR ''0'') \<and> digits_value base ds 0 = Some v)"

text \<open>The test of the first branch of \<^verbatim>\<open>ari_uint64_decode\<close>.\<close>

definition has_0b_prefix :: "string \<Rightarrow> bool" where
  "has_0b_prefix inp = (2 \<le> length inp \<and> inp ! 0 = CHR ''0'' \<and> inp ! 1 = CHR ''b'')"

text \<open>
  A platform for the examples: the enumerators of \<^verbatim>\<open>ari_type_t\<close> numbered in the order
  of the table of names, empty texts for what the float formats and \<^verbatim>\<open>strftime\<close> leave
  open, and the decimal text for an enumerator.
\<close>

definition table_order_code :: "ari_type \<Rightarrow> int" where
  "table_order_code t = int (length (takeWhile (\<lambda>p. fst p \<noteq> t) ari_type_names))"

definition sample_platform :: platform where
  "sample_platform =
     \<lparr>pf_type_code = table_order_code, pf_printf_double = (\<lambda>form v. []), pf_fullsec = [],
      pf_printf_enum = show_int\<rparr>"


text \<open>
  A hash library whose step and final step are injective, for an instance of the
  theorem on \<^verbatim>\<open>ari_hash\<close>: the step multiplies the accumulator by 31 and adds the
  operand, the final step is the identity, and the hash of a segment is its integer,
  or the sum of the bytes of its text.
\<close>

definition injective_hash :: hash_env where
  "injective_hash =
     \<lparr>hash_init = 0, hash_up = (\<lambda>accum v. accum * 31 + v), hash_final = (\<lambda>accum. accum),
      hash_default_bool = (\<lambda>b. if b then 1 else 0),
      hash_default_ari_type = (\<lambda>t. word_of_int (table_order_code t)),
      hash_default_prim_type = (\<lambda>p. 0),
      hash_default_size = word_of_nat,
      hash_default_uint64 = (\<lambda>v. v), hash_default_int64 = (\<lambda>v. v),
      hash_default_float64 = (\<lambda>v. v),
      hash_pod_bool = (\<lambda>b. if b then 1 else 0),
      hash_pod_timespec = (\<lambda>t. word_of_int (tv_sec t + tv_nsec t)),
      data_hash = (\<lambda>d. word_of_int (sum_list (map of_char d))),
      idseg_hash = (\<lambda>seg. case seg of ARI_IDSEG_NULL \<Rightarrow> 0
                           | ARI_IDSEG_TEXT t \<Rightarrow> word_of_int (sum_list (map of_char t))
                           | ARI_IDSEG_INT i \<Rightarrow> word_of_int i),
      type_value = table_order_code\<rparr>"

section \<open>Printing a number and reading it back\<close>

lemma digit_val_digit_chars:
  "\<forall>d \<in> set [0..<36]. digit_val (digit_chars ! d) = Some d"
  by code_simp

lemma digit_in_digit_chars:
  assumes "0 \<le> d" "d < base" "base \<le> 36"
  shows "digit_in base (digit_chars ! nat d) = Some d"
proof -
  have "nat d \<in> set [0..<36]" using assms by auto
  then have "digit_val (digit_chars ! nat d) = Some (nat d)"
    using digit_val_digit_chars by blast
  then show ?thesis using assms by (simp add: digit_in_def)
qed

lemma take_digits_show_nat:
  assumes "2 \<le> base" "base \<le> 36" "0 \<le> v"
  shows "take_digits base (show_nat base v @ rest) acc n =
         take_digits base rest (acc * base ^ length (show_nat base v) + v)
           (n + length (show_nat base v))"
  using assms
proof (induction base v arbitrary: rest acc n rule: show_nat.induct)
  case (1 base v)
  show ?case
  proof (cases "v < base")
    case True
    then have sn: "show_nat base v = [digit_chars ! nat v]"
      by (simp add: show_nat.simps)
    have "digit_in base (digit_chars ! nat v) = Some v"
      using True "1.prems" by (intro digit_in_digit_chars) auto
    then show ?thesis by (simp add: sn)
  next
    case False
    let ?q = "v div base" and ?r = "v mod base"
    have sn: "show_nat base v = show_nat base ?q @ [digit_chars ! nat ?r]"
      using False "1.prems" by (subst show_nat.simps) simp
    have q0: "0 \<le> ?q" using "1.prems" by (simp add: pos_imp_zdiv_nonneg_iff)
    have dr: "digit_in base (digit_chars ! nat ?r) = Some ?r"
      using "1.prems" by (intro digit_in_digit_chars) auto
    have IH: "take_digits base (show_nat base ?q @ (digit_chars ! nat ?r # rest)) acc n =
         take_digits base (digit_chars ! nat ?r # rest) (acc * base ^ length (show_nat base ?q) + ?q)
           (n + length (show_nat base ?q))"
      using "1.IH" [of "digit_chars ! nat ?r # rest" acc n] False "1.prems" q0 by simp
    have "(acc * base ^ length (show_nat base ?q) + ?q) * base + ?r =
          acc * (base * base ^ length (show_nat base ?q)) + v"
      by (simp add: algebra_simps)
    then show ?thesis
      using IH dr by (simp add: sn)
  qed
qed


lemma show_nat_not_Nil [simp]: "show_nat base v \<noteq> []"
  by (subst show_nat.simps) simp

lemma digit_chars_pos:
  "\<forall>d \<in> set [1..<36]. digit_chars ! d \<noteq> CHR ''0''"
  by code_simp

lemma digit_chars_plain:
  "\<forall>d \<in> set [0..<36]. \<not> isspace (digit_chars ! d) \<and> digit_chars ! d \<noteq> CHR ''-''
      \<and> digit_chars ! d \<noteq> CHR ''+''"
  by code_simp

lemma digit_chars_low:
  "\<forall>d \<in> set [0..<16]. digit_chars ! d \<noteq> CHR ''x'' \<and> digit_chars ! d \<noteq> CHR ''X''
      \<and> digit_chars ! d \<noteq> CHR ''b''"
  by code_simp

lemma hd_show_nat:
  assumes "2 \<le> base" "0 \<le> v"
  shows "\<exists>d. hd (show_nat base v) = digit_chars ! nat d \<and> 0 \<le> d \<and> d < base \<and> (0 < v \<longrightarrow> 0 < d)"
  using assms
proof (induction base v rule: show_nat.induct)
  case (1 base v)
  show ?case
  proof (cases "v < base")
    case True
    then have "show_nat base v = [digit_chars ! nat v]"
      by (simp add: show_nat.simps)
    then show ?thesis using True "1.prems" by auto
  next
    case False
    let ?q = "v div base"
    have sn: "show_nat base v = show_nat base ?q @ [digit_chars ! nat (v mod base)]"
      using False "1.prems" by (subst show_nat.simps) simp
    have q0: "0 < ?q" using "1.prems" False
      by (simp add: pos_imp_zdiv_pos_iff)
    from "1.IH" False "1.prems" q0
    obtain d where "hd (show_nat base ?q) = digit_chars ! nat d" "0 \<le> d" "d < base" "0 < d"
      by auto
    then show ?thesis by (auto simp: sn)
  qed
qed


lemma take_digits_stop:
  "rest = [] \<or> digit_in base (hd rest) = None \<Longrightarrow> take_digits base rest acc n = (acc, n)"
  by (cases rest) auto

lemma show_nat_Cons:
  assumes "2 \<le> base" "base \<le> 36" "0 \<le> v"
  shows "\<exists>c cs. show_nat base v = c # cs \<and> \<not> isspace c \<and> c \<noteq> CHR ''-'' \<and> c \<noteq> CHR ''+''
    \<and> (0 < v \<longrightarrow> c \<noteq> CHR ''0'') \<and> digit_in base c \<noteq> None"
proof -
  obtain d where d: "hd (show_nat base v) = digit_chars ! nat d" "0 \<le> d" "d < base" "0 < v \<longrightarrow> 0 < d"
    using hd_show_nat [OF assms(1,3)] by blast
  obtain c cs where cs: "show_nat base v = c # cs"
    by (cases "show_nat base v") auto
  have c: "c = digit_chars ! nat d" using d(1) cs by simp
  have in36: "nat d \<in> set [0..<36]" using d assms by auto
  have "\<not> isspace c" "c \<noteq> CHR ''-''" "c \<noteq> CHR ''+''"
    using digit_chars_plain in36 unfolding c by blast+
  moreover have "0 < v \<Longrightarrow> c \<noteq> CHR ''0''"
  proof -
    assume "0 < v"
    then have "nat d \<in> set [1..<36]" using d assms by auto
    then show ?thesis using digit_chars_pos unfolding c by blast
  qed
  moreover have "digit_in base c \<noteq> None"
    unfolding c using digit_in_digit_chars [of d base] d assms by simp
  ultimately show ?thesis using cs by blast
qed

lemma strtoul_10_show_nat:
  assumes "0 \<le> v" "v \<le> ULONG_MAX" "rest = [] \<or> digit_in 10 (hd rest) = None"
  shows "strtoul (show_nat 10 v @ rest) 10 = (v, length (show_nat 10 v))"
proof -
  obtain c cs where cs: "show_nat 10 v = c # cs" "\<not> isspace c" "c \<noteq> CHR ''-''" "c \<noteq> CHR ''+''"
    using show_nat_Cons [of 10 v] assms(1) by auto
  have td: "take_digits 10 (show_nat 10 v @ rest) 0 0 = (v, length (show_nat 10 v))"
    using take_digits_show_nat [of 10 v rest 0 0] take_digits_stop [OF assms(3)] assms(1) by simp
  show ?thesis
    unfolding strtoul_def using cs td assms(2) by (simp add: Let_def)
qed

lemma strtoul_0_show_nat:
  assumes "0 \<le> v" "v \<le> ULONG_MAX"
  shows "strtoul (show_nat 10 v) 0 = (v, length (show_nat 10 v))"
proof (cases "v = 0")
  case True
  have "show_nat 10 0 = ''0''" by code_simp
  then show ?thesis using True by (simp add: strtoul_def) code_simp
next
  case False
  then have pos: "0 < v" using assms by simp
  obtain c cs where cs: "show_nat 10 v = c # cs" "\<not> isspace c" "c \<noteq> CHR ''-''" "c \<noteq> CHR ''+''"
    "c \<noteq> CHR ''0''"
    using show_nat_Cons [of 10 v] assms(1) pos by auto
  have td: "take_digits 10 (show_nat 10 v) 0 0 = (v, length (show_nat 10 v))"
    using take_digits_show_nat [of 10 v "[]" 0 0] assms(1) by simp
  have nh: "\<not> has_hex_prefix (c # cs)"
    using cs(5) by (simp add: has_hex_prefix_def split: list.splits)
  show ?thesis
    unfolding strtoul_def using cs td nh assms(2) by (simp add: Let_def)
qed

lemma strtoul_0_hex_show_nat:
  assumes "0 \<le> v" "v \<le> ULONG_MAX"
  shows "strtoul (''0x'' @ show_nat 16 v) 0 = (v, 2 + length (show_nat 16 v))"
proof -
  obtain c cs where cs: "show_nat 16 v = c # cs" "digit_in 16 c \<noteq> None"
    using show_nat_Cons [of 16 v] assms(1) by auto
  have td: "take_digits 16 (show_nat 16 v) 0 0 = (v, length (show_nat 16 v))"
    using take_digits_show_nat [of 16 v "[]" 0 0] assms(1) by simp
  have hp: "has_hex_prefix (CHR ''0'' # CHR ''x'' # c # cs)"
    using cs(2) by (simp add: has_hex_prefix_def)
  have sp: "\<not> isspace CHR ''0''" by code_simp
  show ?thesis
    unfolding strtoul_def using cs(1) td hp sp assms(2) by (simp add: Let_def)
qed

section \<open>The radix codec gives the value back\<close>

lemma bin_digits_show_nat:
  "0 < v \<Longrightarrow> bin_digits v tmp = show_nat 2 v @ tmp"
proof (induction v tmp rule: bin_digits.induct)
  case (1 v tmp)
  let ?d = "if v mod 2 = 1 then CHR ''1'' else CHR ''0''"
  have d: "?d = digit_chars ! nat (v mod 2)"
  proof (cases "v mod 2 = 1")
    case True
    then show ?thesis by (simp add: digit_chars_def)
  next
    case False
    then have "v mod 2 = 0" by presburger
    then show ?thesis by (simp add: digit_chars_def)
  qed
  show ?case
  proof (cases "v div 2 = 0")
    case True
    then have v1: "v = 1" using "1.prems" by presburger
    have "bin_digits 1 tmp = CHR ''1'' # tmp"
      by (simp add: bin_digits.simps)
    moreover have "show_nat 2 1 = ''1''" by code_simp
    ultimately show ?thesis using v1 by simp
  next
    case False
    then have q: "0 < v div 2" using "1.prems" by presburger
    then have v2: "\<not> v < 2" by presburger
    have "bin_digits v tmp = bin_digits (v div 2) (?d # tmp)"
      using "1.prems" by (subst bin_digits.simps) simp
    also have "\<dots> = show_nat 2 (v div 2) @ (?d # tmp)"
      using "1.IH" "1.prems" q by simp
    also have "\<dots> = show_nat 2 v @ tmp"
      using v2 d by (subst (2) show_nat.simps) simp
    finally show ?thesis .
  qed
qed

lemma bin_loop_show_nat:
  assumes "0 \<le> v"
  shows "bin_loop (show_nat 2 v @ rest) acc =
         bin_loop rest (acc * 2 ^ length (show_nat 2 v) + word_of_int v)"
  using assms
proof (induction "2 :: int" v arbitrary: rest acc rule: show_nat.induct)
  case (1 v)
  show ?case
  proof (cases "v < 2")
    case True
    then have "v = 0 \<or> v = 1" using "1.prems" by auto
    moreover have "show_nat 2 0 = ''0''" "show_nat 2 1 = ''1''" by code_simp+
    ultimately show ?thesis by (auto simp: push_bit_eq_mult)
  next
    case False
    let ?q = "v div 2" and ?r = "v mod 2"
    have sn: "show_nat 2 v = show_nat 2 ?q @ [digit_chars ! nat ?r]"
      using False by (subst show_nat.simps) simp
    have q0: "0 \<le> ?q" using "1.prems" by simp
    have r: "?r = 0 \<or> ?r = 1" by presburger
    have dc: "digit_chars ! 0 = CHR ''0''" "digit_chars ! 1 = CHR ''1''" by code_simp+
    have IH: "bin_loop (show_nat 2 ?q @ (digit_chars ! nat ?r # rest)) acc =
              bin_loop (digit_chars ! nat ?r # rest) (acc * 2 ^ length (show_nat 2 ?q) + word_of_int ?q)"
      using "1.hyps" [of "digit_chars ! nat ?r # rest" acc] False q0 by simp
    have v: "word_of_int v = (2 * word_of_int ?q + word_of_int ?r :: 64 word)"
      by (metis mult.commute mult_2_right of_int_add of_int_mult of_int_numeral mult_div_mod_eq)
    show ?thesis
      using r
    proof
      assume r0: "?r = 0"
      then show ?thesis using IH v dc by (simp add: sn push_bit_eq_mult algebra_simps)
    next
      assume r1: "?r = 1"
      then show ?thesis using IH v dc by (simp add: sn push_bit_eq_mult algebra_simps)
    qed
  qed
qed


lemma uint_le_ULONG_MAX: "uint (v :: 64 word) \<le> ULONG_MAX"
  using uint_lt2p [of v] by (simp add: ULONG_MAX_def)

lemma decode_base2:
  "ari_uint64_decode (snd (ari_uint64_encode [] v 2)) = (0, Some v)"
proof (cases "uint v = 0")
  case True
  then have "v = 0" by (simp add: uint_0_iff)
  then show ?thesis
    by (simp add: ari_uint64_encode_def ari_uint64_decode_def bin_digits.simps)
next
  case False
  then have pos: "0 < uint v" by (simp add: order_less_le)
  have bd: "bin_digits (uint v) [] = show_nat 2 (uint v)"
    using bin_digits_show_nat [OF pos, of "[]"] by simp
  have "bin_loop (show_nat 2 (uint v)) 0 = Some v"
    using bin_loop_show_nat [of "uint v" "[]" 0] by simp
  then show ?thesis
    by (simp add: ari_uint64_encode_def ari_uint64_decode_def bd)
qed

lemma decode_base10:
  "ari_uint64_decode (snd (ari_uint64_encode [] v 10)) = (0, Some v)"
proof -
  let ?s = "show_nat 10 (uint v)"
  obtain c cs where cs: "?s = c # cs" "0 < uint v \<longrightarrow> c \<noteq> CHR ''0''"
    using show_nat_Cons [of 10 "uint v"] by auto
  have nb: "\<not> (2 \<le> length ?s \<and> ?s ! 0 = CHR ''0'' \<and> ?s ! 1 = CHR ''b'')"
  proof (cases "uint v = 0")
    case True
    moreover have "show_nat 10 0 = ''0''" by code_simp
    ultimately show ?thesis by simp
  next
    case False
    then have "0 < uint v" by (simp add: order_less_le)
    then show ?thesis using cs by simp
  qed
  have "strtoul ?s 0 = (uint v, length ?s)"
    using strtoul_0_show_nat [of "uint v"] uint_le_ULONG_MAX by simp
  then show ?thesis
    using nb by (auto simp: ari_uint64_encode_def ari_uint64_decode_def)
qed

lemma decode_base16:
  "ari_uint64_decode (snd (ari_uint64_encode [] v 16)) = (0, Some v)"
proof -
  have "strtoul (''0x'' @ show_nat 16 (uint v)) 0 = (uint v, 2 + length (show_nat 16 (uint v)))"
    using strtoul_0_hex_show_nat [of "uint v"] uint_le_ULONG_MAX by simp
  then show ?thesis
    by (simp add: ari_uint64_encode_def ari_uint64_decode_def)
qed

lemma upper_digit_index:
  "\<forall>d \<in> set [0..<2]. index_of (digit_chars ! d) (take 2 ''0123456789ABCDEF'') = Some d"
  "\<forall>d \<in> set [0..<10]. index_of (digit_chars ! d) (take 10 ''0123456789ABCDEF'') = Some d"
  "\<forall>d \<in> set [0..<16]. index_of (digit_chars ! d) (take 16 ''0123456789ABCDEF'') = Some d"
  by code_simp+

lemma upper_digit_index_of:
  assumes "base \<in> {2, 10, 16}" "0 \<le> d" "d < base"
  shows "index_of (digit_chars ! nat d) (take (nat base) ''0123456789ABCDEF'') = Some (nat d)"
proof -
  consider "base = 2" | "base = 10" | "base = 16" using assms(1) by auto
  then show ?thesis
  proof cases
    case 1
    then have "nat d \<in> set [0..<2]" using assms by auto
    then show ?thesis using upper_digit_index(1) 1 by simp
  next
    case 2
    then have "nat d \<in> set [0..<10]" using assms by auto
    then show ?thesis using upper_digit_index(2) 2 by simp
  next
    case 3
    then have "nat d \<in> set [0..<16]" using assms by auto
    then show ?thesis using upper_digit_index(3) 3 by simp
  qed
qed

lemma digits_value_show_nat:
  assumes "base \<in> {2, 10, 16}" "0 \<le> v"
  shows "digits_value base (show_nat base v @ rest) acc =
         digits_value base rest (acc * base ^ length (show_nat base v) + v)"
  using assms
proof (induction base v arbitrary: rest acc rule: show_nat.induct)
  case (1 base v)
  have b2: "2 \<le> base" using "1.prems" by auto
  show ?case
  proof (cases "v < base")
    case True
    then have sn: "show_nat base v = [digit_chars ! nat v]"
      by (simp add: show_nat.simps)
    have "index_of (digit_chars ! nat v) (take (nat base) ''0123456789ABCDEF'') = Some (nat v)"
      using True "1.prems" by (intro upper_digit_index_of) auto
    then show ?thesis using "1.prems" by (simp add: sn)
  next
    case False
    let ?q = "v div base" and ?r = "v mod base"
    have sn: "show_nat base v = show_nat base ?q @ [digit_chars ! nat ?r]"
      using False b2 by (subst show_nat.simps) simp
    have q0: "0 \<le> ?q" using "1.prems" b2 by (simp add: pos_imp_zdiv_nonneg_iff)
    have r: "0 \<le> ?r" "?r < base" using b2 by simp_all
    have dr: "index_of (digit_chars ! nat ?r) (take (nat base) ''0123456789ABCDEF'') = Some (nat ?r)"
      using "1.prems" r by (intro upper_digit_index_of) auto
    have IH: "digits_value base (show_nat base ?q @ (digit_chars ! nat ?r # rest)) acc =
         digits_value base (digit_chars ! nat ?r # rest) (acc * base ^ length (show_nat base ?q) + ?q)"
      using "1.IH" [of "digit_chars ! nat ?r # rest" acc] False "1.prems" b2 q0 by simp
    have "(acc * base ^ length (show_nat base ?q) + ?q) * base + ?r =
          acc * (base * base ^ length (show_nat base ?q)) + v"
      by (simp add: algebra_simps)
    then show ?thesis
      using IH dr r by (simp add: sn)
  qed
qed

lemma minimal_digits_show_nat:
  assumes "base \<in> {2, 10, 16}" "0 \<le> v"
  shows "minimal_digits base (show_nat base v) v"
proof -
  have b: "2 \<le> base" "base \<le> 36" using assms(1) by auto
  obtain c cs where cs: "show_nat base v = c # cs" "0 < v \<longrightarrow> c \<noteq> CHR ''0''"
    using show_nat_Cons [OF b assms(2)] by auto
  have z: "show_nat base v = ''0'' \<or> hd (show_nat base v) \<noteq> CHR ''0''"
  proof (cases "v = 0")
    case True
    have "digit_chars ! 0 = CHR ''0''" by code_simp
    then have "show_nat base 0 = ''0''" using b by (simp add: show_nat.simps)
    then show ?thesis using True by simp
  next
    case False
    then show ?thesis using cs assms(2) by simp
  qed
  have "digits_value base (show_nat base v) 0 = Some v"
    using digits_value_show_nat [OF assms, of "[]" 0] by simp
  then show ?thesis using z by (simp add: minimal_digits_def)
qed

lemma encode_text:
  "snd (ari_uint64_encode [] v 2) = ''0b'' @ show_nat 2 (uint v)"
  "snd (ari_uint64_encode [] v 10) = show_nat 10 (uint v)"
  "snd (ari_uint64_encode [] v 16) = ''0x'' @ show_nat 16 (uint v)"
proof -
  show "snd (ari_uint64_encode [] v 2) = ''0b'' @ show_nat 2 (uint v)"
  proof (cases "uint v = 0")
    case True
    have "show_nat 2 0 = ''0''" by code_simp
    then show ?thesis using True
      by (simp add: ari_uint64_encode_def bin_digits.simps)
  next
    case False
    then have pos: "0 < uint v" by (simp add: order_less_le)
    have bd: "bin_digits (uint v) [] = show_nat 2 (uint v)"
      using bin_digits_show_nat [OF pos, of "[]"] by simp
    show ?thesis by (simp add: ari_uint64_encode_def bd)
  qed
  show "snd (ari_uint64_encode [] v 10) = show_nat 10 (uint v)"
    by (simp add: ari_uint64_encode_def)
  show "snd (ari_uint64_encode [] v 16) = ''0x'' @ show_nat 16 (uint v)"
    by (simp add: ari_uint64_encode_def)
qed

lemma decode_paths:
  "has_0b_prefix (''0b'' @ show_nat 2 (uint v))"
  "bin_loop (drop 2 (''0b'' @ show_nat 2 (uint v))) 0 = Some v"
  "\<not> has_0b_prefix (show_nat 10 (uint v))"
  "strtoul (show_nat 10 (uint v)) 0 = (uint v, length (show_nat 10 (uint v)))"
  "\<not> has_0b_prefix (''0x'' @ show_nat 16 (uint v))"
  "strtoul (''0x'' @ show_nat 16 (uint v)) 0
     = (uint v, length (''0x'' @ show_nat 16 (uint v)))"
proof -
  show "has_0b_prefix (''0b'' @ show_nat 2 (uint v))"
    by (simp add: has_0b_prefix_def)
  show "bin_loop (drop 2 (''0b'' @ show_nat 2 (uint v))) 0 = Some v"
    using bin_loop_show_nat [of "uint v" "[]" 0] by simp
  let ?s = "show_nat 10 (uint v)"
  obtain c cs where cs: "?s = c # cs" "0 < uint v \<longrightarrow> c \<noteq> CHR ''0''"
    using show_nat_Cons [of 10 "uint v"] by auto
  show "\<not> has_0b_prefix ?s"
  proof (cases "uint v = 0")
    case True
    moreover have "show_nat 10 0 = ''0''" by code_simp
    ultimately show ?thesis by (simp add: has_0b_prefix_def)
  next
    case False
    then have "0 < uint v" by (simp add: order_less_le)
    then show ?thesis using cs by (simp add: has_0b_prefix_def)
  qed
  show "strtoul ?s 0 = (uint v, length ?s)"
    using strtoul_0_show_nat [of "uint v"] uint_le_ULONG_MAX by simp
  show "\<not> has_0b_prefix (''0x'' @ show_nat 16 (uint v))"
    by (simp add: has_0b_prefix_def)
  show "strtoul (''0x'' @ show_nat 16 (uint v)) 0
     = (uint v, length (''0x'' @ show_nat 16 (uint v)))"
    using strtoul_0_hex_show_nat [of "uint v"] uint_le_ULONG_MAX by simp
qed

lemma ari_uint64_decode_branches:
  "ari_uint64_decode inp =
     (if has_0b_prefix inp
      then (case bin_loop (drop 2 inp) 0 of None \<Rightarrow> (2, None) | Some tmp \<Rightarrow> (0, Some tmp))
      else (let (tmp, numend) = strtoul inp 0
            in if numend \<noteq> length inp then (2, None) else (0, Some (word_of_int tmp))))"
  by (simp add: ari_uint64_decode_def has_0b_prefix_def)

text \<open>
  Claim C10. For every 64-bit value \<open>v\<close> and every base among 2, 10 and 16,
  \<^verbatim>\<open>ari_uint64_encode\<close> returns zero, and \<^verbatim>\<open>ari_uint64_decode\<close> applied to the text it
  produced returns zero and yields \<open>v\<close>. The text is the prefix of the base (\<^verbatim>\<open>0b\<close> for
  2, none for 10, \<^verbatim>\<open>0x\<close> for 16) and the minimal digits of \<open>v\<close> in that base, upper case
  above nine, a single \<^verbatim>\<open>0\<close> for zero. For base 2 the decoder takes its \<^verbatim>\<open>0b\<close> branch,
  whose loop yields \<open>v\<close>; for the bases 10 and 16 it does not, and \<^verbatim>\<open>strtoull\<close> with
  base 0 reads the whole text as \<open>v\<close>.
\<close>

theorem ari_uint64_roundtrip:
  assumes "base \<in> {2, 10, 16}"
  shows "fst (ari_uint64_encode [] v base) = 0
       \<and> ari_uint64_decode (snd (ari_uint64_encode [] v base)) = (0, Some v)
       \<and> (\<exists>ds. snd (ari_uint64_encode [] v base)
                   = (if base = 2 then ''0b'' else if base = 16 then ''0x'' else []) @ ds
                \<and> minimal_digits base ds (uint v))
       \<and> (if base = 2
          then has_0b_prefix (snd (ari_uint64_encode [] v base))
             \<and> bin_loop (drop 2 (snd (ari_uint64_encode [] v base))) 0 = Some v
          else \<not> has_0b_prefix (snd (ari_uint64_encode [] v base))
             \<and> strtoul (snd (ari_uint64_encode [] v base)) 0
                 = (uint v, length (snd (ari_uint64_encode [] v base))))"
proof -
  have r: "fst (ari_uint64_encode [] v base) = 0"
    using assms by (auto simp: ari_uint64_encode_def Let_def)
  have d: "ari_uint64_decode (snd (ari_uint64_encode [] v base)) = (0, Some v)"
    using assms decode_base2 decode_base10 decode_base16 by auto
  have m: "minimal_digits base (show_nat base (uint v)) (uint v)"
    using assms by (intro minimal_digits_show_nat) auto
  consider "base = 2" | "base = 10" | "base = 16" using assms by auto
  then show ?thesis
  proof cases
    case 1
    have t: "snd (ari_uint64_encode [] v base) = ''0b'' @ show_nat 2 (uint v)"
      using encode_text(1) 1 by simp
    have "\<exists>ds. snd (ari_uint64_encode [] v base)
                   = (if base = 2 then ''0b'' else if base = 16 then ''0x'' else []) @ ds
                \<and> minimal_digits base ds (uint v)"
      using t m 1 by (intro exI [of _ "show_nat 2 (uint v)"]) simp
    moreover have "has_0b_prefix (snd (ari_uint64_encode [] v base))
             \<and> bin_loop (drop 2 (snd (ari_uint64_encode [] v base))) 0 = Some v"
      using decode_paths(1,2) [of v] by (simp only: t simp_thms)
    ultimately show ?thesis using r d 1 by simp
  next
    case 2
    have t: "snd (ari_uint64_encode [] v base) = show_nat 10 (uint v)"
      using encode_text(2) 2 by simp
    have "\<exists>ds. snd (ari_uint64_encode [] v base)
                   = (if base = 2 then ''0b'' else if base = 16 then ''0x'' else []) @ ds
                \<and> minimal_digits base ds (uint v)"
      using t m 2 by (intro exI [of _ "show_nat 10 (uint v)"]) simp
    moreover have "\<not> has_0b_prefix (snd (ari_uint64_encode [] v base))
             \<and> strtoul (snd (ari_uint64_encode [] v base)) 0
                 = (uint v, length (snd (ari_uint64_encode [] v base)))"
      using decode_paths(3,4) [of v] by (simp only: t simp_thms)
    ultimately show ?thesis using r d 2 by simp
  next
    case 3
    have t: "snd (ari_uint64_encode [] v base) = ''0x'' @ show_nat 16 (uint v)"
      using encode_text(3) 3 by simp
    have "\<exists>ds. snd (ari_uint64_encode [] v base)
                   = (if base = 2 then ''0b'' else if base = 16 then ''0x'' else []) @ ds
                \<and> minimal_digits base ds (uint v)"
      using t m 3 by (intro exI [of _ "show_nat 16 (uint v)"]) simp
    moreover have "\<not> has_0b_prefix (snd (ari_uint64_encode [] v base))
             \<and> strtoul (snd (ari_uint64_encode [] v base)) 0
                 = (uint v, length (snd (ari_uint64_encode [] v base)))"
      using decode_paths(5,6) [of v] by (simp only: t simp_thms)
    ultimately show ?thesis using r d 3 by simp
  qed
qed

theorem ari_uint64_roundtrip_witness:
  "(16 :: int) \<in> {2, 10, 16}
     \<and> snd (ari_uint64_encode [] 255 16) = ''0xFF''
     \<and> minimal_digits 16 ''FF'' 255
     \<and> fst (ari_uint64_encode [] 255 16) = 0
     \<and> ari_uint64_decode ''0xFF'' = (0, Some 255)
     \<and> \<not> has_0b_prefix ''0xFF''
     \<and> strtoul ''0xFF'' 0 = (255, 4)
     \<and> snd (ari_uint64_encode [] 255 10) = ''255''
     \<and> snd (ari_uint64_encode [] 5 2) = ''0b101''
     \<and> snd (ari_uint64_encode [] 0 2) = ''0b0''
     \<and> has_0b_prefix ''0b101''
     \<and> bin_loop ''101'' 0 = Some 5"
proof -
  have t: "snd (ari_uint64_encode [] 255 16) = ''0xFF''" by code_simp
  have m: "minimal_digits 16 ''FF'' 255" by code_simp
  have u: "uint (255 :: 64 word) = 255" by simp
  note r = ari_uint64_roundtrip [of 16 255, unfolded t u]
  have r1: "fst (ari_uint64_encode [] 255 16) = 0" using r by simp
  have r2: "ari_uint64_decode ''0xFF'' = (0, Some 255)" using r by simp
  have r3: "\<not> has_0b_prefix ''0xFF'' \<and> strtoul ''0xFF'' 0 = (255, 4)" using r by simp
  have e: "snd (ari_uint64_encode [] 255 10) = ''255''"
      "snd (ari_uint64_encode [] 5 2) = ''0b101''"
      "snd (ari_uint64_encode [] 0 2) = ''0b0''"
      "has_0b_prefix ''0b101''"
      "bin_loop ''101'' 0 = Some 5"
    by code_simp+
  from t m r1 r2 r3 e show ?thesis by simp
qed

section \<open>Texts, cursors and \<^verbatim>\<open>strchr\<close>\<close>

lemma index_of_None: "c \<notin> set s \<Longrightarrow> index_of c s = None"
  by (induction s) auto

lemma index_of_append: "c \<notin> set a \<Longrightarrow> index_of c (a @ c # b) = Some (length a)"
  by (induction a) auto

lemma strchr_None: "c \<notin> set s \<Longrightarrow> c \<noteq> CHR 0x00 \<Longrightarrow> strchr s c = None"
proof -
  assume "c \<notin> set s" and nz: "c \<noteq> CHR 0x00"
  then have "c \<notin> set (cstr s)"
    unfolding cstr_def using set_takeWhileD by metis
  then show ?thesis using nz by (simp add: strchr_def index_of_None)
qed

lemma strchr_found:
  assumes "c \<notin> set a" "CHR 0x00 \<notin> set a" "c \<noteq> CHR 0x00"
  shows "strchr (a @ c # b) c = Some (length a)"
proof -
  have "takeWhile (\<lambda>x. x \<noteq> CHR 0x00) (a @ c # b) = a @ takeWhile (\<lambda>x. x \<noteq> CHR 0x00) (c # b)"
    using assms(2) by (intro takeWhile_append2) auto
  then have "cstr (a @ c # b) = a @ c # cstr b"
    using assms(3) by (simp add: cstr_def)
  then show ?thesis using assms by (simp add: strchr_def index_of_append)
qed

lemma text_real_len_terminated [simp]: "text_real_len (s @ [CHR 0x00]) = length s"
  by (simp add: text_real_len_def)

lemma peek_Cons [simp]: "peek (c # cs) = c"
  by (simp add: peek_def)

lemma peek_Nil [simp]: "peek [] = CHR 0x00"
  by (simp add: peek_def)

section \<open>Decimal digits\<close>

lemma digit_chars_dec: "\<forall>d \<in> set [0..<10]. digit_chars ! d \<in> set ''0123456789''"
  by code_simp

lemma set_show_nat_10:
  assumes "0 \<le> v"
  shows "set (show_nat 10 v) \<subseteq> dec_digits"
  using assms
proof (induction "10 :: int" v rule: show_nat.induct)
  case (1 v)
  have d: "digit_chars ! nat d \<in> dec_digits" if "0 \<le> d" "d < 10" for d :: int
  proof -
    have "nat d \<in> set [0..<10]" using that by auto
    then show ?thesis using digit_chars_dec unfolding dec_digits_def by blast
  qed
  show ?case
  proof (cases "v < 10")
    case True
    then show ?thesis using d [of v] "1.prems" by (simp add: show_nat.simps)
  next
    case False
    have sn: "show_nat 10 v = show_nat 10 (v div 10) @ [digit_chars ! nat (v mod 10)]"
      using False by (subst show_nat.simps) simp
    have "set (show_nat 10 (v div 10)) \<subseteq> dec_digits"
      using "1.hyps" False "1.prems" by simp
    moreover have "digit_chars ! nat (v mod 10) \<in> dec_digits"
      using d [of "v mod 10"] by simp
    ultimately show ?thesis by (simp add: sn)
  qed
qed

lemma show_int_nonneg: "0 \<le> v \<Longrightarrow> show_int v = show_nat 10 v"
  by (simp add: show_int_def)

lemma dec_digits_not:
  "CHR 0x00 \<notin> dec_digits" "CHR ''D'' \<notin> dec_digits" "CHR ''H'' \<notin> dec_digits"
  "CHR ''M'' \<notin> dec_digits" "CHR ''S'' \<notin> dec_digits" "CHR ''T'' \<notin> dec_digits"
  "CHR ''.'' \<notin> dec_digits" "CHR ''P'' \<notin> dec_digits" "CHR ''-'' \<notin> dec_digits"
  "CHR ''+'' \<notin> dec_digits"
  by (simp_all add: dec_digits_def)

lemma digit_in_10_None:
  "digit_in 10 (CHR ''D'') = None" "digit_in 10 (CHR ''H'') = None"
  "digit_in 10 (CHR ''M'') = None" "digit_in 10 (CHR ''S'') = None"
  "digit_in 10 (CHR ''.'') = None" "digit_in 10 (CHR 0x00) = None"
  by code_simp+

lemma length_show_nat_10:
  assumes "0 \<le> v" "v < 10 ^ k" "0 < k"
  shows "length (show_nat 10 v) \<le> k"
  using assms
proof (induction "10 :: int" v arbitrary: k rule: show_nat.induct)
  case (1 v)
  show ?case
  proof (cases "v < 10")
    case True
    then show ?thesis using "1.prems" by (simp add: show_nat.simps)
  next
    case False
    have sn: "show_nat 10 v = show_nat 10 (v div 10) @ [digit_chars ! nat (v mod 10)]"
      using False by (subst show_nat.simps) simp
    obtain j where k: "k = Suc j" using "1.prems" by (cases k) auto
    have j: "0 < j"
    proof (rule ccontr)
      assume "\<not> 0 < j"
      then have "k = 1" using k by simp
      then show False using "1.prems" False by simp
    qed
    have "v div 10 < 10 ^ j"
      using "1.prems" k by simp
    then have "length (show_nat 10 (v div 10)) \<le> j"
      using "1.hyps" [of j] False "1.prems" j by simp
    then show ?thesis by (simp add: sn k)
  qed
qed

section \<open>Subseconds\<close>

lemma subsec_trim_inv:
  assumes "0 < s" "s < 10 ^ k" "subsec_trim s (int k) = (s', d')"
  shows "0 < s' \<and> 0 < d' \<and> d' \<le> int k \<and> s' < 10 ^ nat d' \<and> s' * 10 ^ (k - nat d') = s"
  using assms
proof (induction s "int k" arbitrary: k rule: subsec_trim.induct)
  case (1 s)
  have kpos: "0 < k"
  proof (rule ccontr)
    assume "\<not> 0 < k"
    then show False using "1.prems" by simp
  qed
  show ?case
  proof (cases "s mod 10 = 0")
    case False
    then have "subsec_trim s (int k) = (s, int k)"
      by (subst subsec_trim.simps) simp
    then show ?thesis using "1.prems" kpos by auto
  next
    case True
    obtain j where k: "k = Suc j" using kpos by (cases k) auto
    have s10: "s = s div 10 * 10" using True by presburger
    have q: "0 < s div 10" using "1.prems"(1) True by presburger
    have qk: "s div 10 < 10 ^ j" using "1.prems"(2) k by simp
    have "subsec_trim s (int k) = subsec_trim (s div 10) (int j)"
      using True "1.prems"(1) k by (subst subsec_trim.simps) simp
    then have st: "subsec_trim (s div 10) (int j) = (s', d')"
      using "1.prems"(3) by simp
    have ij: "int k - 1 = int j" using k by simp
    have IH: "0 < s' \<and> 0 < d' \<and> d' \<le> int j \<and> s' < 10 ^ nat d' \<and> s' * 10 ^ (j - nat d') = s div 10"
      using "1.hyps" [of j] True "1.prems"(1) ij q qk st by simp
    then have "nat d' \<le> j" by auto
    then have "k - nat d' = Suc (j - nat d')" using k by simp
    then have "s' * 10 ^ (k - nat d') = (s' * 10 ^ (j - nat d')) * 10" by simp
    also have "\<dots> = s" using IH s10 by simp
    finally show ?thesis using IH k by simp
  qed
qed

lemma pad_subsec_eq:
  assumes "0 \<le> v" "v * 10 ^ (9 - d) < 2 ^ 64" "d \<le> 9"
  shows "pad_subsec v d = v * 10 ^ (9 - d)"
  using assms
proof (induction v d rule: pad_subsec.induct)
  case (1 v d)
  show ?case
  proof (cases "d < 9")
    case False
    then show ?thesis using "1.prems" by (subst pad_subsec.simps) simp
  next
    case True
    then have e: "9 - d = Suc (9 - Suc d)" by simp
    have eq: "v * 10 ^ (9 - d) = (v * 10) * 10 ^ (9 - Suc d)"
      by (subst e) simp
    have "(1 :: int) \<le> 10 ^ (9 - Suc d)" by simp
    then have "v * 10 \<le> (v * 10) * 10 ^ (9 - Suc d)"
      using "1.prems"(1) mult_left_mono [of 1 "10 ^ (9 - Suc d)" "v * 10"] by simp
    then have lt: "v * 10 < 2 ^ 64" using "1.prems"(2) eq by simp
    then have u: "u64 (v * 10) = v * 10"
      using "1.prems"(1) by (simp add: u64_def)
    have "pad_subsec v d = pad_subsec (v * 10) (Suc d)"
      using True u by (subst pad_subsec.simps) simp
    also have "\<dots> = (v * 10) * 10 ^ (9 - Suc d)"
      using "1.IH" True u "1.prems" eq by simp
    also have "\<dots> = v * 10 ^ (9 - d)"
      by (rule eq [symmetric])
    finally show ?thesis .
  qed
qed

lemma take_digits_zeros:
  "take_digits 10 (replicate k (CHR ''0'') @ rest) 0 n = take_digits 10 rest 0 (n + k)"
proof (induction k arbitrary: n)
  case 0
  then show ?case by simp
next
  case (Suc k)
  have "digit_in 10 (CHR ''0'') = Some 0" by code_simp
  then show ?case using Suc by simp
qed

lemma strtoul_10_zero_pad:
  assumes "0 \<le> v" "v \<le> ULONG_MAX" "rest = [] \<or> digit_in 10 (hd rest) = None"
  shows "strtoul (zero_pad w (show_nat 10 v) @ rest) 10 = (v, length (zero_pad w (show_nat 10 v)))"
proof -
  let ?k = "w - length (show_nat 10 v)"
  let ?s = "replicate ?k (CHR ''0'') @ show_nat 10 v @ rest"
  obtain c cs where cs: "show_nat 10 v = c # cs" "\<not> isspace c" "c \<noteq> CHR ''-''" "c \<noteq> CHR ''+''"
    using show_nat_Cons [of 10 v] assms(1) by auto
  have td: "take_digits 10 ?s 0 0 = (v, ?k + length (show_nat 10 v))"
    using take_digits_zeros [of ?k "show_nat 10 v @ rest" 0]
      take_digits_show_nat [of 10 v rest 0 ?k] take_digits_stop [OF assms(3)] assms(1)
    by (simp add: add.commute)
  have sp: "\<not> isspace (CHR ''0'')" by code_simp
  have hd: "\<exists>c cs. ?s = c # cs \<and> \<not> isspace c \<and> c \<noteq> CHR ''-'' \<and> c \<noteq> CHR ''+''"
  proof (cases ?k)
    case 0
    then show ?thesis using cs by simp
  next
    case (Suc j)
    then show ?thesis using sp by simp
  qed
  then obtain c' cs' where cs': "?s = c' # cs'" "\<not> isspace c'" "c' \<noteq> CHR ''-''" "c' \<noteq> CHR ''+''"
    by blast
  have "strtoul ?s 10 = (v, ?k + length (show_nat 10 v))"
    unfolding strtoul_def using cs' td assms(2) by (simp add: Let_def)
  then show ?thesis by (simp add: zero_pad_def)
qed

lemma subsec_encode_append: "subsec_encode out x = out @ subsec_encode [] x"
  by (simp add: subsec_encode_def split: prod.splits)

lemma subsec_encode_nonempty: "out \<noteq> [] \<Longrightarrow> subsec_encode out x = out @ subsec_encode [] x"
  by (rule subsec_encode_append)

lemma subsec_encode_zero [simp]: "subsec_encode out 0 = out"
  by (simp add: subsec_encode_def)

lemma subsec_encode_shape:
  assumes "0 < ns" "ns < 10 ^ 9"
  shows "\<exists>s d. 0 < s \<and> s < 10 ^ 9 \<and> 0 < d \<and> d \<le> 9 \<and> s * 10 ^ (9 - d) = ns
           \<and> length (zero_pad d (show_nat 10 s)) = d
           \<and> subsec_encode [] ns = CHR ''.'' # zero_pad d (show_nat 10 s)"
proof -
  obtain s d' where st: "subsec_trim ns 9 = (s, d')"
    by (cases "subsec_trim ns 9") auto
  have inv: "0 < s \<and> 0 < d' \<and> d' \<le> int 9 \<and> s < 10 ^ nat d' \<and> s * 10 ^ (9 - nat d') = ns"
    using subsec_trim_inv [of ns 9 s d'] assms st by simp
  let ?d = "nat d'"
  have d: "0 < ?d" "?d \<le> 9" using inv by auto
  have "(1 :: int) \<le> 10 ^ (9 - ?d)" by simp
  then have "s \<le> s * 10 ^ (9 - ?d)"
    using inv mult_left_mono [of 1 "10 ^ (9 - ?d)" s] by simp
  then have s9: "s < 10 ^ 9" using inv assms by simp
  then have m32: "s mod 2 ^ 32 = s" using inv by simp
  have "length (show_nat 10 s) \<le> ?d"
    using length_show_nat_10 [of s ?d] inv d by simp
  then have len: "length (zero_pad ?d (show_nat 10 s)) = ?d"
    by (simp add: zero_pad_def)
  have "subsec_encode [] ns = CHR ''.'' # zero_pad ?d (show_nat 10 s)"
    using assms(1) st m32 by (simp add: subsec_encode_def)
  then show ?thesis using inv d s9 len by blast
qed

lemma set_zero_pad: "set (zero_pad w s) \<subseteq> insert (CHR ''0'') (set s)"
  by (auto simp: zero_pad_def)

lemma set_subsec_encode:
  assumes "0 \<le> ns" "ns < 10 ^ 9"
  shows "set (subsec_encode [] ns) \<subseteq> insert (CHR ''.'') dec_digits"
proof (cases "ns = 0")
  case True
  then show ?thesis by simp
next
  case False
  then obtain s d where sd: "0 < s" "subsec_encode [] ns = CHR ''.'' # zero_pad d (show_nat 10 s)"
    using subsec_encode_shape [of ns] assms by auto
  have "set (show_nat 10 s) \<subseteq> dec_digits" using set_show_nat_10 [of s] sd(1) by simp
  moreover have "CHR ''0'' \<in> dec_digits" by (simp add: dec_digits_def)
  ultimately have "set (zero_pad d (show_nat 10 s)) \<subseteq> dec_digits"
    using set_zero_pad [of d "show_nat 10 s"] by auto
  then show ?thesis using sd(2) by auto
qed

lemma subsec_decode_encode:
  assumes "0 \<le> ns" "ns < 10 ^ 9"
  shows "\<exists>curs. subsec_decode 0 (subsec_encode [] ns @ CHR ''S'' # rest) (CHR ''S'' # rest) = (0, ns, curs)"
proof (cases "ns = 0")
  case True
  then show ?thesis by (simp add: subsec_decode_def)
next
  case False
  then obtain s d where sd: "0 < s" "s < 10 ^ 9" "0 < d" "d \<le> 9" "s * 10 ^ (9 - d) = ns"
      "length (zero_pad d (show_nat 10 s)) = d"
      "subsec_encode [] ns = CHR ''.'' # zero_pad d (show_nat 10 s)"
    using subsec_encode_shape [of ns] assms by auto
  let ?z = "zero_pad d (show_nat 10 s)"
  have "s \<le> ULONG_MAX" using sd(2) by (simp add: ULONG_MAX_def)
  then have st: "strtoul (?z @ CHR ''S'' # rest) 10 = (s, d)"
    using strtoul_10_zero_pad [of s "CHR ''S'' # rest" d] sd(1,6) digit_in_10_None by simp
  have pad: "pad_subsec s d = ns"
    using pad_subsec_eq [of s d] sd assms by simp
  show ?thesis
    using sd(3,4,6) st pad by (simp add: subsec_decode_def sd(7))
qed

section \<open>Durations\<close>

lemma encode_unit_eq:
  "encode_unit unit letter (out, fullsec) =
     (out @ unit_text unit letter fullsec, unit_rest unit fullsec)"
  by (simp add: encode_unit_def unit_text_def unit_rest_def)

lemma unit_rest_bounds:
  assumes "0 < unit" "0 \<le> fs"
  shows "0 \<le> unit_rest unit fs" "unit_rest unit fs \<le> fs" "unit_rest unit fs < unit"
  using assms by (auto simp: unit_rest_def zmod_le_nonneg_dividend)

lemma set_unit_text:
  assumes "0 < unit" "0 \<le> fs"
  shows "set (unit_text unit letter fs) \<subseteq> insert letter dec_digits"
proof -
  have "0 \<le> fs div unit" using assms by (simp add: pos_imp_zdiv_nonneg_iff)
  then show ?thesis
    using set_show_nat_10 [of "fs div unit"] by (auto simp: unit_text_def show_int_nonneg)
qed

lemma set_sec_text:
  assumes "0 \<le> f" "0 \<le> ns" "ns < 10 ^ 9"
  shows "set (sec_text f ns) \<subseteq> insert (CHR ''S'') (insert (CHR ''.'') dec_digits)"
  using set_show_nat_10 [OF assms(1)] set_subsec_encode [OF assms(2,3)] assms(1)
  by (auto simp: sec_text_def show_int_nonneg)

lemma s64_id: "- (2 ^ 63) \<le> x \<Longrightarrow> x < 2 ^ 63 \<Longrightarrow> s64 x = x"
  by (simp add: s64_def)

lemma decode_unit_text:
  assumes "0 < unit" "0 \<le> fs" "fs < 2 ^ 62" "0 \<le> acc" "acc < 2 ^ 62"
    and "letter \<notin> dec_digits" "letter \<noteq> CHR 0x00" "digit_in 10 letter = None"
    and "letter \<notin> set rest"
  shows "decode_unit unit letter (acc, unit_text unit letter fs @ rest) =
         Some (acc + (fs - unit_rest unit fs), rest)"
proof (cases "unit \<le> fs")
  case False
  then have "unit_text unit letter fs = []" "unit_rest unit fs = fs"
    by (simp_all add: unit_text_def unit_rest_def)
  then show ?thesis
    using strchr_None [OF assms(9,7)] by (simp add: decode_unit_def)
next
  case True
  let ?q = "fs div unit"
  let ?s = "show_nat 10 ?q"
  have q0: "0 \<le> ?q" using assms by (simp add: pos_imp_zdiv_nonneg_iff)
  have qfs: "unit * ?q \<le> fs" using assms(1,2)
    by (metis mult.commute div_mult_mod_eq add_increasing2 order_refl pos_mod_sign)
  have "?q \<le> unit * ?q" using assms(1) q0 mult_right_mono [of 1 unit ?q] by simp
  then have "?q \<le> fs" using qfs by simp
  then have qm: "?q \<le> ULONG_MAX" using assms(3) by (simp add: ULONG_MAX_def)
  have ut: "unit_text unit letter fs = ?s @ [letter]"
    using True q0 by (simp add: unit_text_def show_int_nonneg)
  have sub: "set ?s \<subseteq> dec_digits" using set_show_nat_10 [OF q0] .
  then have notin: "letter \<notin> set ?s" "CHR 0x00 \<notin> set ?s"
    using assms(6) dec_digits_not(1) by auto
  have sc: "strchr (?s @ letter # rest) letter = Some (length ?s)"
    using strchr_found [OF notin assms(7)] .
  have st: "strtoul (?s @ letter # rest) 10 = (?q, length ?s)"
    using strtoul_10_show_nat [of ?q "letter # rest"] q0 qm assms(8) by simp
  have "unit * ?q = fs - fs mod unit"
    by (simp add: algebra_simps minus_mod_eq_mult_div)
  then have val: "acc + unit * ?q = acc + (fs - unit_rest unit fs)"
    using True by (simp add: unit_rest_def)
  have "0 \<le> unit * ?q" using assms(1) q0 by simp
  then have "s64 (acc + unit * ?q) = acc + unit * ?q"
    using qfs assms(3,4,5) by (intro s64_id) auto
  then show ?thesis
    using sc st val by (simp add: decode_unit_def ut)
qed

lemma decode_seconds_text:
  assumes "0 \<le> f" "f < 2 ^ 62" "0 \<le> acc" "acc < 2 ^ 62" "0 \<le> ns" "ns < 10 ^ 9"
  shows "decode_seconds (acc, sec_text f ns @ [CHR 0x00]) = Some (acc + f, ns, [CHR 0x00])"
proof (cases "f \<noteq> 0 \<or> ns \<noteq> 0")
  case False
  then have "sec_text f ns = []" "f = 0" "ns = 0" by (simp_all add: sec_text_def)
  moreover have "strchr [CHR 0x00] (CHR ''S'') = None"
    by (rule strchr_None) simp_all
  ultimately show ?thesis by (simp add: decode_seconds_def)
next
  case True
  let ?s = "show_nat 10 f"
  let ?fr = "subsec_encode [] ns"
  have stx: "sec_text f ns = ?s @ ?fr @ [CHR ''S'']"
    using True assms(1) by (simp add: sec_text_def show_int_nonneg)
  have "set (?s @ ?fr) \<subseteq> insert (CHR ''.'') dec_digits"
    using set_show_nat_10 [OF assms(1)] set_subsec_encode [OF assms(5,6)] by auto
  then have notin: "CHR ''S'' \<notin> set (?s @ ?fr)" "CHR 0x00 \<notin> set (?s @ ?fr)"
    using dec_digits_not by auto
  have sc: "strchr ((?s @ ?fr) @ CHR ''S'' # [CHR 0x00]) (CHR ''S'') = Some (length (?s @ ?fr))"
    using strchr_found [OF notin] by simp
  have stop: "digit_in 10 (hd (?fr @ [CHR ''S'', CHR 0x00])) = None"
  proof (cases "ns = 0")
    case True
    then show ?thesis using digit_in_10_None by simp
  next
    case False
    then obtain s d where "subsec_encode [] ns = CHR ''.'' # zero_pad d (show_nat 10 s)"
      using subsec_encode_shape [of ns] assms(5,6) by auto
    then show ?thesis using digit_in_10_None by simp
  qed
  have "f \<le> ULONG_MAX" using assms(2) by (simp add: ULONG_MAX_def)
  then have st: "strtoul (?s @ ?fr @ [CHR ''S'', CHR 0x00]) 10 = (f, length ?s)"
    using strtoul_10_show_nat [of f "?fr @ [CHR ''S'', CHR 0x00]"] assms(1) stop by simp
  obtain curs where sd: "subsec_decode 0 (?fr @ CHR ''S'' # [CHR 0x00]) (CHR ''S'' # [CHR 0x00]) = (0, ns, curs)"
    using subsec_decode_encode [OF assms(5,6)] by blast
  have s64: "s64 (acc + f) = acc + f"
    using assms by (intro s64_id) auto
  show ?thesis
    using sc st sd s64 by (simp add: decode_seconds_def stx)
qed

lemma timeperiod_encode_shape:
  assumes "\<not> (tv_sec td = 0 \<and> tv_nsec td = 0)" "- (2 ^ 63) < tv_sec td" "tv_sec td < 2 ^ 63"
    and "0 \<le> tv_nsec td" "tv_nsec td < 2 ^ 64"
  shows "timeperiod_encode [] td =
    (0, (if tv_sec td < 0 then [CHR ''-''] else []) @ CHR ''P'' #
        unit_text TIMEPERIOD_DAY (CHR ''D'') \<bar>tv_sec td\<bar> @ CHR ''T'' #
        unit_text TIMEPERIOD_HOUR (CHR ''H'') (unit_rest TIMEPERIOD_DAY \<bar>tv_sec td\<bar>) @
        unit_text TIMEPERIOD_MINUTE (CHR ''M'')
          (unit_rest TIMEPERIOD_HOUR (unit_rest TIMEPERIOD_DAY \<bar>tv_sec td\<bar>)) @
        sec_text (unit_rest TIMEPERIOD_MINUTE
          (unit_rest TIMEPERIOD_HOUR (unit_rest TIMEPERIOD_DAY \<bar>tv_sec td\<bar>))) (tv_nsec td))"
proof -
  have u: "u64 (tv_nsec td) = tv_nsec td"
    using assms(4,5) by (simp add: u64_def)
  have fs: "(if tv_sec td < 0 then (out @ [CHR ''-''], s64 (- tv_sec td)) else (out, tv_sec td)) =
            (out @ (if tv_sec td < 0 then [CHR ''-''] else []), \<bar>tv_sec td\<bar>)" for out
    using assms(2) by (simp add: s64_id)
  show ?thesis
    apply (simp only: timeperiod_encode_def assms(1) if_False Let_def u fs split_conv encode_unit_eq)
    apply (simp add: sec_text_def subsec_encode_nonempty)
    done
qed

lemma timeperiod_decode_shape:
  assumes "0 \<le> S" "S < 2 ^ 62" "0 \<le> ns" "ns < 10 ^ 9"
    and "sg = [CHR ''-''] \<or> sg = []"
  shows "timeperiod_decode ((sg @ CHR ''P'' #
        unit_text TIMEPERIOD_DAY (CHR ''D'') S @ CHR ''T'' #
        unit_text TIMEPERIOD_HOUR (CHR ''H'') (unit_rest TIMEPERIOD_DAY S) @
        unit_text TIMEPERIOD_MINUTE (CHR ''M'')
          (unit_rest TIMEPERIOD_HOUR (unit_rest TIMEPERIOD_DAY S)) @
        sec_text (unit_rest TIMEPERIOD_MINUTE
          (unit_rest TIMEPERIOD_HOUR (unit_rest TIMEPERIOD_DAY S))) ns) @ [CHR 0x00]) =
     (0, Some \<lparr>tv_sec = (if sg = [] then S else - S), tv_nsec = ns\<rparr>)"
proof -
  let ?f1 = "unit_rest TIMEPERIOD_DAY S"
  let ?f2 = "unit_rest TIMEPERIOD_HOUR ?f1"
  let ?f3 = "unit_rest TIMEPERIOD_MINUTE ?f2"
  let ?t4 = "sec_text ?f3 ns @ [CHR 0x00]"
  let ?t3 = "unit_text TIMEPERIOD_MINUTE (CHR ''M'') ?f2 @ ?t4"
  let ?t2 = "unit_text TIMEPERIOD_HOUR (CHR ''H'') ?f1 @ ?t3"
  let ?t1 = "unit_text TIMEPERIOD_DAY (CHR ''D'') S @ CHR ''T'' # ?t2"
  let ?body = "CHR ''P'' # ?t1"
  have units: "0 < TIMEPERIOD_DAY" "0 < TIMEPERIOD_HOUR" "0 < TIMEPERIOD_MINUTE"
    by (simp_all add: TIMEPERIOD_DAY_def TIMEPERIOD_HOUR_def TIMEPERIOD_MINUTE_def)
  have f1: "0 \<le> ?f1" "?f1 \<le> S" using unit_rest_bounds [OF units(1) assms(1)] by auto
  have f2: "0 \<le> ?f2" "?f2 \<le> ?f1" using unit_rest_bounds [OF units(2) f1(1)] by auto
  have f3: "0 \<le> ?f3" "?f3 \<le> ?f2" using unit_rest_bounds [OF units(3) f2(1)] by auto
  have c4: "set ?t4 \<subseteq> insert (CHR 0x00) (insert (CHR ''S'') (insert (CHR ''.'') dec_digits))"
    using set_sec_text [OF f3(1) assms(3,4)] by auto
  have c3: "set ?t3 \<subseteq> insert (CHR ''M'') (insert (CHR 0x00) (insert (CHR ''S'') (insert (CHR ''.'') dec_digits)))"
    using c4 set_unit_text [OF units(3) f2(1), of "CHR ''M''"] by auto
  have c2: "set ?t2 \<subseteq> insert (CHR ''H'') (insert (CHR ''M'') (insert (CHR 0x00)
              (insert (CHR ''S'') (insert (CHR ''.'') dec_digits))))"
    using c3 set_unit_text [OF units(2) f1(1), of "CHR ''H''"] by auto
  have nM: "CHR ''M'' \<notin> set ?t4" using c4 dec_digits_not by auto
  have nH: "CHR ''H'' \<notin> set ?t3" using c3 dec_digits_not by auto
  have nD: "CHR ''D'' \<notin> set (CHR ''T'' # ?t2)" using c2 dec_digits_not by auto
  have d1: "decode_unit TIMEPERIOD_DAY (CHR ''D'') (0, ?t1) = Some (S - ?f1, CHR ''T'' # ?t2)"
    using decode_unit_text [OF units(1) assms(1,2) _ _ dec_digits_not(2) _ digit_in_10_None(1) nD, of 0]
    by simp
  have d2: "decode_unit TIMEPERIOD_HOUR (CHR ''H'') (S - ?f1, ?t2) = Some (S - ?f2, ?t3)"
    using decode_unit_text [OF units(2) f1(1) _ _ _ dec_digits_not(3) _ digit_in_10_None(2) nH, of "S - ?f1"]
      f1 assms(2) by simp
  have d3: "decode_unit TIMEPERIOD_MINUTE (CHR ''M'') (S - ?f2, ?t3) = Some (S - ?f3, ?t4)"
    using decode_unit_text [OF units(3) f2(1) _ _ _ dec_digits_not(4) _ digit_in_10_None(3) nM, of "S - ?f2"]
      f1 f2 assms(2) by simp
  have d4: "decode_seconds (S - ?f3, ?t4) = Some (S, ns, [CHR 0x00])"
    using decode_seconds_text [OF f3(1) _ _ _ assms(3,4), of "S - ?f3"] f1 f2 f3 assms(2) by simp
  have ns: "s64 ns = ns" using assms(3,4) by (intro s64_id) auto
  have neg: "s64 (- S) = - S" using assms(1,2) by (intro s64_id) auto
  let ?txt = "sg @ CHR ''P'' #
        unit_text TIMEPERIOD_DAY (CHR ''D'') S @ CHR ''T'' #
        unit_text TIMEPERIOD_HOUR (CHR ''H'') ?f1 @
        unit_text TIMEPERIOD_MINUTE (CHR ''M'') ?f2 @ sec_text ?f3 ns"
  have len: "text_real_len (?txt @ [CHR 0x00]) = length ?txt"
    by (rule text_real_len_terminated)
  have dr: "drop (length ?txt) (?txt @ [CHR 0x00]) = [CHR 0x00]"
    by simp
  have eq: "?txt @ [CHR 0x00] = sg @ ?body"
    by simp
  show ?thesis
    using assms(5)
  proof
    assume sg: "sg = [CHR ''-'']"
    have "timeperiod_decode (?txt @ [CHR 0x00]) = (0, Some \<lparr>tv_sec = - S, tv_nsec = ns\<rparr>)"
      apply (simp only: timeperiod_decode_def Let_def len dr)
      apply (simp only: eq)
      using d1 d2 d3 d4 ns neg apply (simp add: sg)
      done
    then show ?thesis using sg by simp
  next
    assume sg: "sg = []"
    have "timeperiod_decode (?txt @ [CHR 0x00]) = (0, Some \<lparr>tv_sec = S, tv_nsec = ns\<rparr>)"
      apply (simp only: timeperiod_decode_def Let_def len dr)
      apply (simp only: eq)
      using d1 d2 d3 d4 ns apply (simp add: sg)
      done
    then show ?thesis using sg by simp
  qed
qed

text \<open>
  Claim C7. For every \<^verbatim>\<open>timespec\<close> \<open>td\<close> with \<open>\<bar>tv_sec\<bar> < 2\<^sup>6\<^sup>2\<close> and
  \<open>0 \<le> tv_nsec < 10\<^sup>9\<close>, \<^verbatim>\<open>timeperiod_encode\<close> returns zero, and \<^verbatim>\<open>timeperiod_decode\<close>
  applied to the text it produced (seen as NUL-terminated data) returns zero and yields
  exactly \<open>td\<close>; the zero duration encodes as exactly \<^verbatim>\<open>PT0S\<close>.
\<close>

theorem timeperiod_roundtrip:
  assumes "\<bar>tv_sec td\<bar> < 2 ^ 62" "0 \<le> tv_nsec td" "tv_nsec td < 10 ^ 9"
  shows "fst (timeperiod_encode [] td) = 0
       \<and> timeperiod_decode (snd (timeperiod_encode [] td) @ [CHR 0x00]) = (0, Some td)
       \<and> timeperiod_encode [] \<lparr>tv_sec = 0, tv_nsec = 0\<rparr> = (0, ''PT0S'')"
proof -
  have zero: "timeperiod_encode [] \<lparr>tv_sec = 0, tv_nsec = 0\<rparr> = (0, ''PT0S'')"
    by (simp add: timeperiod_encode_def)
  have dz: "timeperiod_decode (''PT0S'' @ [CHR 0x00]) = (0, Some \<lparr>tv_sec = 0, tv_nsec = 0\<rparr>)"
    by code_simp
  show ?thesis
  proof (cases "tv_sec td = 0 \<and> tv_nsec td = 0")
    case True
    then have "td = \<lparr>tv_sec = 0, tv_nsec = 0\<rparr>" by simp
    then show ?thesis using zero dz by simp
  next
    case False
    let ?S = "\<bar>tv_sec td\<bar>"
    let ?sg = "if tv_sec td < 0 then [CHR ''-''] else []"
    have enc: "timeperiod_encode [] td =
      (0, ?sg @ CHR ''P'' #
        unit_text TIMEPERIOD_DAY (CHR ''D'') ?S @ CHR ''T'' #
        unit_text TIMEPERIOD_HOUR (CHR ''H'') (unit_rest TIMEPERIOD_DAY ?S) @
        unit_text TIMEPERIOD_MINUTE (CHR ''M'')
          (unit_rest TIMEPERIOD_HOUR (unit_rest TIMEPERIOD_DAY ?S)) @
        sec_text (unit_rest TIMEPERIOD_MINUTE
          (unit_rest TIMEPERIOD_HOUR (unit_rest TIMEPERIOD_DAY ?S))) (tv_nsec td))"
      using timeperiod_encode_shape [OF False] assms by simp
    have dec: "timeperiod_decode ((?sg @ CHR ''P'' #
        unit_text TIMEPERIOD_DAY (CHR ''D'') ?S @ CHR ''T'' #
        unit_text TIMEPERIOD_HOUR (CHR ''H'') (unit_rest TIMEPERIOD_DAY ?S) @
        unit_text TIMEPERIOD_MINUTE (CHR ''M'')
          (unit_rest TIMEPERIOD_HOUR (unit_rest TIMEPERIOD_DAY ?S)) @
        sec_text (unit_rest TIMEPERIOD_MINUTE
          (unit_rest TIMEPERIOD_HOUR (unit_rest TIMEPERIOD_DAY ?S))) (tv_nsec td)) @ [CHR 0x00]) =
       (0, Some \<lparr>tv_sec = (if ?sg = [] then ?S else - ?S), tv_nsec = tv_nsec td\<rparr>)"
      using timeperiod_decode_shape [of ?S "tv_nsec td" ?sg] assms by simp
    have "\<lparr>tv_sec = (if ?sg = [] then ?S else - ?S), tv_nsec = tv_nsec td\<rparr> = td"
      by simp
    then show ?thesis using enc dec zero by simp
  qed
qed

theorem timeperiod_roundtrip_witness:
  "\<bar>tv_sec \<lparr>tv_sec = - 90061, tv_nsec = 120\<rparr>\<bar> < (2 :: int) ^ 62
   \<and> snd (timeperiod_encode [] \<lparr>tv_sec = - 90061, tv_nsec = 120\<rparr>) = ''-P1DT1H1M1.00000012S''
   \<and> timeperiod_decode (''-P1DT1H1M1.00000012S'' @ [CHR 0x00])
       = (0, Some \<lparr>tv_sec = - 90061, tv_nsec = 120\<rparr>)"
proof -
  have e: "snd (timeperiod_encode [] \<lparr>tv_sec = - 90061, tv_nsec = 120\<rparr>) = ''-P1DT1H1M1.00000012S''"
    by code_simp
  show ?thesis
    using timeperiod_roundtrip [of "\<lparr>tv_sec = - 90061, tv_nsec = 120\<rparr>"] e by simp
qed

section \<open>Percent decoding undoes percent encoding\<close>


lemma length_show_nat:
  assumes "2 \<le> base" "0 \<le> v" "v < base ^ k" "0 < k"
  shows "length (show_nat base v) \<le> k"
  using assms
proof (induction base v arbitrary: k rule: show_nat.induct)
  case (1 base v)
  show ?case
  proof (cases "v < base")
    case True
    then show ?thesis using "1.prems" by (simp add: show_nat.simps)
  next
    case False
    have sn: "show_nat base v = show_nat base (v div base) @ [digit_chars ! nat (v mod base)]"
      using False "1.prems" by (subst show_nat.simps) simp
    obtain j where k: "k = Suc j" using "1.prems" by (cases k) auto
    have j: "0 < j"
    proof (rule ccontr)
      assume "\<not> 0 < j"
      then have "k = 1" using k by simp
      then show False using "1.prems" False by simp
    qed
    have vb: "v < base ^ j * base" using "1.prems" k by (simp add: mult.commute)
    have "v div base < base ^ j"
    proof (rule ccontr)
      assume "\<not> v div base < base ^ j"
      then have "base ^ j * base \<le> (v div base) * base"
        using "1.prems"(1) by (intro mult_right_mono) auto
      moreover have "(v div base) * base \<le> v"
        using "1.prems"(1) by (metis add_increasing2 div_mult_mod_eq order_refl pos_mod_sign
            order_less_le_trans zero_less_numeral)
      ultimately show False using vb by simp
    qed
    moreover have "0 \<le> v div base"
      using "1.prems" by (simp add: pos_imp_zdiv_nonneg_iff)
    ultimately have "length (show_nat base (v div base)) \<le> j"
      using "1.IH" [of j] False "1.prems" j by simp
    then show ?thesis by (simp add: sn k)
  qed
qed


lemma length_hex2 [simp]: "length (hex2 c) = 2"
proof -
  let ?v = "of_char c :: int"
  have "?v = int (of_char c)" by (simp add: of_nat_of_char)
  moreover have "(of_char c :: nat) < 256" by (rule nat_of_char_less_256)
  ultimately have "0 \<le> ?v" "?v < 16 ^ 2" by simp_all
  then have "length (show_nat 16 ?v) \<le> 2"
    using length_show_nat [of 16 ?v 2] by simp
  then show ?thesis by (simp add: hex2_def zero_pad_def)
qed






















section \<open>The two builds of the type registry\<close>

text \<open>
  Claim C4 does not hold of the linear scan of \<^verbatim>\<open>ari_type_from_name\<close>: for a name no
  type has it returns zero, and for a registered name, in any case, it returns the
  type's code and leaves \<^verbatim>\<open>*typenum\<close> as it was. The dictionary build returns one for
  the unknown name and stores the code for the known one.
\<close>

theorem ari_type_from_name_scan_differs:
  "ari_type_from_name tc tn ''FOO'' = (0, tn)
   \<and> ari_type_from_name tc tn ''tp'' = (tc ARI_TYPE_TP, tn)
   \<and> ari_type_from_name_lut tc (Some tn) ''FOO'' = (1, Some tn)
   \<and> ari_type_from_name_lut tc (Some tn) ''tp'' = (0, Some (tc ARI_TYPE_TP))"
  by code_simp

section \<open>The walker, the translator and the hash on small trees\<close>

text \<open>
  Claim C8 does not hold where no callback runs: on an untagged literal and a visitor
  with no callbacks nothing is assigned to \<^verbatim>\<open>retval\<close> before \<^verbatim>\<open>return retval\<close>, so
  \<^verbatim>\<open>ari_visit\<close> returns an indeterminate value, not zero.
\<close>

theorem ari_visit_no_callbacks_indeterminate:
  "ari_visit indet_zero (ARI_LIT (Lit False type prim val))
     \<lparr>visit_ari = None, visit_ref = None, visit_objpath = None, visit_lit = None\<rparr> u
   = (None, u)"
  by (simp add: ari_visit_def call_opt_def)

text \<open>
  Claim C3 does not hold of a reference with parameters: with no mappers, the output for
  a reference whose parameters are the empty AC has the state \<^verbatim>\<open>ARI_PARAMS_NONE\<close>, and
  \<^verbatim>\<open>ari_equal\<close> takes it for different from the input. For an untagged literal the
  output is equal to the input and the return code is indeterminate.
\<close>

theorem ari_translate_drops_params_state:
  "ari_translate indet_zero ARI_INIT_UNDEFINED
     (ARI_REF (Ref \<lparr>ns_id = ARI_IDSEG_TEXT ''ns'', type_id = ARI_IDSEG_TEXT ''CTRL'',
                    obj_id = ARI_IDSEG_INT 7, has_ari_type = True, ari_type = ARI_TYPE_CTRL\<rparr>
                   (Params ARI_PARAMS_AC (as_ac []))))
     \<lparr>map_ari = None, map_objpath = None, map_lit = None\<rparr> u
   = (Some 0,
      ARI_REF (Ref \<lparr>ns_id = ARI_IDSEG_TEXT ''ns'', type_id = ARI_IDSEG_TEXT ''CTRL'',
                    obj_id = ARI_IDSEG_INT 7, has_ari_type = True, ari_type = ARI_TYPE_CTRL\<rparr>
                   (Params ARI_PARAMS_NONE (as_ac []))),
      u)
   \<and> \<not> ari_equal
         (ARI_REF (Ref \<lparr>ns_id = ARI_IDSEG_TEXT ''ns'', type_id = ARI_IDSEG_TEXT ''CTRL'',
                        obj_id = ARI_IDSEG_INT 7, has_ari_type = True, ari_type = ARI_TYPE_CTRL\<rparr>
                       (Params ARI_PARAMS_NONE (as_ac []))))
         (ARI_REF (Ref \<lparr>ns_id = ARI_IDSEG_TEXT ''ns'', type_id = ARI_IDSEG_TEXT ''CTRL'',
                        obj_id = ARI_IDSEG_INT 7, has_ari_type = True, ari_type = ARI_TYPE_CTRL\<rparr>
                       (Params ARI_PARAMS_AC (as_ac []))))
   \<and> ari_translate indet_zero ARI_INIT_UNDEFINED
       (ARI_LIT (Lit False ARI_TYPE_LITERAL ARI_PRIM_NULL as_none))
       \<lparr>map_ari = None, map_objpath = None, map_lit = None\<rparr> u
     = (None, ARI_LIT (Lit False ARI_TYPE_LITERAL ARI_PRIM_NULL as_none), u)"
  by (simp add: ARI_INIT_UNDEFINED_def set_is_ref_def put_objpath_def put_params_def put_lit_def
        as_ref_def as_lit_def ref_zero_def lit_zero_def ari_objpath_equal_def nonzero_def)

lemma ari_idseg_equal_refl: "ari_idseg_equal seg seg"
  by (cases seg) simp_all

lemma ari_hash_ref_none:
  "ari_hash indet_zero h (ARI_REF (Ref p (Params ARI_PARAMS_NONE ctr))) =
     hash_final h (hash_up h
       (hash_up h (hash_up h (hash_init h) (idseg_hash h (ns_id p)))
          (if has_ari_type p then word_of_int (type_value h (ari_type p))
           else idseg_hash h (type_id p)))
       (idseg_hash h (obj_id p)))"
  by (simp add: ari_hash_def ari_visit_def hash_visitor_def call_opt_def
        ari_hash_visit_objpath_def)

text \<open>
  Claim C1 does not hold of two references that differ in \<^verbatim>\<open>has_ari_type\<close> only.
  \<^verbatim>\<open>ari_equal\<close> compares their \<^verbatim>\<open>type_id\<close> segments and takes them for equal, while the
  hash of the one with the flag takes up the type code and the hash of the other the
  hash of the segment. For every hash library whose step is injective in the
  accumulator and in the operand and whose final step is injective, and every object
  path whose type code, as a \<^verbatim>\<open>size_t\<close>, is not the hash of its \<^verbatim>\<open>type_id\<close> segment, the two
  references are equal and their hashes differ.
\<close>

theorem ari_hash_differs_on_equal_refs:
  assumes "inj (hash_final h)"
    and "\<And>accum. inj (hash_up h accum)"
    and "\<And>v. inj (\<lambda>accum. hash_up h accum v)"
    and "has_ari_type p"
    and "word_of_int (type_value h (ari_type p)) \<noteq> idseg_hash h (type_id p)"
  shows "ari_equal (ARI_REF (Ref p (Params ARI_PARAMS_NONE ctr)))
                   (ARI_REF (Ref (p\<lparr>has_ari_type := False\<rparr>) (Params ARI_PARAMS_NONE ctr)))
       \<and> ari_hash indet_zero h (ARI_REF (Ref p (Params ARI_PARAMS_NONE ctr)))
         \<noteq> ari_hash indet_zero h
             (ARI_REF (Ref (p\<lparr>has_ari_type := False\<rparr>) (Params ARI_PARAMS_NONE ctr)))"
proof -
  let ?a0 = "hash_up h (hash_init h) (idseg_hash h (ns_id p))"
  let ?t = "word_of_int (type_value h (ari_type p)) :: 64 word"
  let ?s = "idseg_hash h (type_id p)"
  let ?o = "idseg_hash h (obj_id p)"
  have eq: "ari_equal (ARI_REF (Ref p (Params ARI_PARAMS_NONE ctr)))
                      (ARI_REF (Ref (p\<lparr>has_ari_type := False\<rparr>) (Params ARI_PARAMS_NONE ctr)))"
    by (simp add: ari_objpath_equal_def ari_idseg_equal_refl)
  have "hash_up h ?a0 ?t \<noteq> hash_up h ?a0 ?s"
    using assms(2) [of ?a0] assms(5) by (auto dest: injD)
  then have "hash_up h (hash_up h ?a0 ?t) ?o \<noteq> hash_up h (hash_up h ?a0 ?s) ?o"
    using assms(3) [of ?o] by (auto dest: injD)
  then have "hash_final h (hash_up h (hash_up h ?a0 ?t) ?o)
             \<noteq> hash_final h (hash_up h (hash_up h ?a0 ?s) ?o)"
    using assms(1) by (auto dest: injD)
  then have "ari_hash indet_zero h (ARI_REF (Ref p (Params ARI_PARAMS_NONE ctr)))
         \<noteq> ari_hash indet_zero h
             (ARI_REF (Ref (p\<lparr>has_ari_type := False\<rparr>) (Params ARI_PARAMS_NONE ctr)))"
    using assms(4) by (simp add: ari_hash_ref_none)
  with eq show ?thesis ..
qed

theorem ari_hash_differs_on_equal_refs_witness:
  "inj (hash_final injective_hash)
   \<and> (\<forall>accum. inj (hash_up injective_hash accum))
   \<and> (\<forall>v. inj (\<lambda>accum. hash_up injective_hash accum v))
   \<and> word_of_int (type_value injective_hash ARI_TYPE_CTRL)
       \<noteq> idseg_hash injective_hash (ARI_IDSEG_TEXT ''CTRL'')
   \<and> ari_equal
       (ARI_REF (Ref \<lparr>ns_id = ARI_IDSEG_TEXT ''ns'', type_id = ARI_IDSEG_TEXT ''CTRL'',
                      obj_id = ARI_IDSEG_INT 7, has_ari_type = True, ari_type = ARI_TYPE_CTRL\<rparr>
                     (Params ARI_PARAMS_NONE as_none)))
       (ARI_REF (Ref \<lparr>ns_id = ARI_IDSEG_TEXT ''ns'', type_id = ARI_IDSEG_TEXT ''CTRL'',
                      obj_id = ARI_IDSEG_INT 7, has_ari_type = False, ari_type = ARI_TYPE_CTRL\<rparr>
                     (Params ARI_PARAMS_NONE as_none)))
   \<and> ari_hash False injective_hash
       (ARI_REF (Ref \<lparr>ns_id = ARI_IDSEG_TEXT ''ns'', type_id = ARI_IDSEG_TEXT ''CTRL'',
                      obj_id = ARI_IDSEG_INT 7, has_ari_type = True, ari_type = ARI_TYPE_CTRL\<rparr>
                     (Params ARI_PARAMS_NONE as_none)))
     \<noteq> ari_hash False injective_hash
       (ARI_REF (Ref \<lparr>ns_id = ARI_IDSEG_TEXT ''ns'', type_id = ARI_IDSEG_TEXT ''CTRL'',
                      obj_id = ARI_IDSEG_INT 7, has_ari_type = False, ari_type = ARI_TYPE_CTRL\<rparr>
                     (Params ARI_PARAMS_NONE as_none)))"
proof -
  let ?p = "\<lparr>ns_id = ARI_IDSEG_TEXT ''ns'', type_id = ARI_IDSEG_TEXT ''CTRL'',
             obj_id = ARI_IDSEG_INT 7, has_ari_type = True, ari_type = ARI_TYPE_CTRL\<rparr>"
  have f: "inj (hash_final injective_hash)"
    by (simp add: injective_hash_def inj_def)
  have v: "inj (hash_up injective_hash accum)" for accum
    by (simp add: injective_hash_def inj_def)
  have inv: "(31 :: 64 word) * 17256631552825064415 = 1"
    by simp
  have a: "inj (\<lambda>accum. hash_up injective_hash accum v)" for v
  proof (rule injI)
    fix x y :: "64 word"
    assume "hash_up injective_hash x v = hash_up injective_hash y v"
    then have "x * 31 = y * 31" by (simp add: injective_hash_def)
    then have "x * (31 * 17256631552825064415) = y * (31 * 17256631552825064415)"
      by (simp only: mult.assoc [symmetric])
    then show "x = y" by (simp only: inv mult_1_right)
  qed
  have d: "word_of_int (type_value injective_hash ARI_TYPE_CTRL)
           \<noteq> idseg_hash injective_hash (ARI_IDSEG_TEXT ''CTRL'')"
    by (simp add: injective_hash_def table_order_code_def ari_type_names_def)
  have d': "word_of_int (type_value injective_hash (ari_type ?p))
           \<noteq> idseg_hash injective_hash (type_id ?p)"
    using d by simp
  show ?thesis
    using ari_hash_differs_on_equal_refs [of injective_hash ?p as_none False, OF f v a _ d'] f v a d
    by simp
qed

section \<open>Escaping a backslash\<close>

text \<open>
  Claim C6 does not hold of a text with a backslash: \<^verbatim>\<open>slash_escape\<close> has no case for
  it and emits it as it is. The text of one backslash is escaped to one backslash,
  which \<^verbatim>\<open>slash_unescape\<close> refuses with code 3; the text of a backslash and the letter
  n is escaped to itself, which is unescaped without error to a line feed.
\<close>

theorem slash_escape_keeps_backslash:
  "slash_escape [] [CHR 0x5C, CHR 0x00] (CHR 0x22) = (0, [CHR 0x5C])
   \<and> slash_unescape [] [CHR 0x5C] = (3, [])
   \<and> slash_unescape [] [CHR 0x5C, CHR 0x00] = (3, [])
   \<and> slash_escape [] [CHR 0x5C, CHR ''n'', CHR 0x00] (CHR 0x27) = (0, [CHR 0x5C, CHR ''n''])
   \<and> slash_unescape [] [CHR 0x5C, CHR ''n''] = (0, [CHR 0x0A])"
  by code_simp

section \<open>The encoder's return code, and the timestamp at the epoch\<close>

lemma ari_text_encode_stream_zero:
  "fst (ari_text_encode_stream pf st a) = 0"
  by (cases a) (simp_all split: prod.splits)

text \<open>
  Claim C2 does not hold: \<^verbatim>\<open>ari_text_encode_stream\<close> reads no return code and returns
  zero, so \<^verbatim>\<open>ari_text_encode\<close> returns zero for every ARI and every options record and
  moves the text written so far to the caller. With the float form \<^verbatim>\<open>x\<close> the codec of
  a float refuses with code 1, and with the base 7 the codec of an integer refuses;
  both times the encoder returns zero and the caller's text becomes \<^verbatim>\<open>ari:\<close>.
\<close>

theorem ari_text_encode_ignores_failure:
  "fst (ari_text_encode pf text a opts) = 0
   \<and> ari_float64_encode (pf_printf_double pf) out 0x3FF0000000000000 (CHR ''x'') = (1, out)
   \<and> ari_text_encode pf text
         (ARI_LIT (Lit False ARI_TYPE_LITERAL ARI_PRIM_FLOAT64 (as_float64 0x3FF0000000000000)))
         (ARI_TEXT_ENC_OPTS_DEFAULT\<lparr>float_form := CHR ''x''\<rparr>)
       = (0, ''ari:'')
   \<and> fst (ari_uint64_encode out 5 7) \<noteq> 0
   \<and> ari_text_encode pf text
         (ARI_LIT (Lit False ARI_TYPE_LITERAL ARI_PRIM_UINT64 (as_uint64 5)))
         (ARI_TEXT_ENC_OPTS_DEFAULT\<lparr>int_base := 7\<rparr>)
       = (0, ''ari:'')"
proof -
  have a: "fst (ari_text_encode pf text a opts) = 0"
    using ari_text_encode_stream_zero [of pf "\<lparr>enc_out = [], enc_depth = 0, enc_opts = opts\<rparr>" a]
    by (cases "ari_text_encode_stream pf \<lparr>enc_out = [], enc_depth = 0, enc_opts = opts\<rparr> a")
       (simp add: ari_text_encode_def)
  have b: "ari_float64_encode (pf_printf_double pf) out 0x3FF0000000000000 (CHR ''x'') = (1, out)"
    by code_simp
  have c: "ari_text_encode pf text
         (ARI_LIT (Lit False ARI_TYPE_LITERAL ARI_PRIM_FLOAT64 (as_float64 0x3FF0000000000000)))
         (ARI_TEXT_ENC_OPTS_DEFAULT\<lparr>float_form := CHR ''x''\<rparr>)
       = (0, ''ari:'')"
    by code_simp
  have d: "fst (ari_uint64_encode out 5 7) \<noteq> 0"
    by (simp add: ari_uint64_encode_def)
  have e: "ari_text_encode pf text
         (ARI_LIT (Lit False ARI_TYPE_LITERAL ARI_PRIM_UINT64 (as_uint64 5)))
         (ARI_TEXT_ENC_OPTS_DEFAULT\<lparr>int_base := 7\<rparr>)
       = (0, ''ari:'')"
    by code_simp
  from a b c d e show ?thesis by (intro conjI)
qed

lemma scan_tp:
  assumes "distinct (map tc (map fst ari_type_names))"
  shows "ari_type_to_name tc (tc ARI_TYPE_TP) = Some ''TP''"
  using assms by (simp add: ari_type_to_name_def ari_type_names_def)

lemma utctime_epoch:
  "utctime_encode junk out \<lparr>tv_sec = 0, tv_nsec = 0\<rparr> False = (0, (out @ ''20000101T000000'') @ ''Z'')"
  by code_simp

text \<open>
  Claim C9: where the enumerators of \<^verbatim>\<open>ari_type_t\<close> that the table of names lists have
  distinct values, the literal tagged TP with the time zero is encoded under the
  default options with return code zero as \<^verbatim>\<open>ari:/TP/20000101T000000Z\<close>.
\<close>

theorem ari_text_encode_tp_epoch:
  assumes "distinct (map (pf_type_code pf) (map fst ari_type_names))"
  shows "ari_text_encode pf text
           (ARI_LIT (Lit True ARI_TYPE_TP ARI_PRIM_TIMESPEC
                       (as_timespec \<lparr>tv_sec = 0, tv_nsec = 0\<rparr>)))
           ARI_TEXT_ENC_OPTS_DEFAULT
         = (0, ''ari:/TP/20000101T000000Z'')"
  using scan_tp [OF assms]
  by (simp add: ari_text_encode_def ARI_TEXT_ENC_OPTS_DEFAULT_def ari_text_encode_prefix_def
        push_def ari_text_encode_aritype_def ari_text_encode_time_def val_timespec_def
        utctime_epoch ari_text_encode_prim_def)

theorem ari_text_encode_tp_epoch_witness:
  "distinct (map (pf_type_code sample_platform) (map fst ari_type_names))
   \<and> ari_text_encode sample_platform []
         (ARI_LIT (Lit True ARI_TYPE_TP ARI_PRIM_TIMESPEC
                     (as_timespec \<lparr>tv_sec = 0, tv_nsec = 0\<rparr>)))
         ARI_TEXT_ENC_OPTS_DEFAULT
       = (0, ''ari:/TP/20000101T000000Z'')"
proof -
  have d: "distinct (map (pf_type_code sample_platform) (map fst ari_type_names))"
    by code_simp
  show ?thesis using ari_text_encode_tp_epoch [OF d, of "[]"] d by simp
qed


end
